(* ===== verification/Go_Prelude.thy ===== *)
theory Go_Prelude
  imports Main "HOL-Library.Word"
begin

text \<open>
  Shared vocabulary of the development: what a Go value is in the model, the named
  collections of facts the component theories extend, and the generic lemmas on lists and
  options they use.

  A Go \<open>string\<close> and a Go \<open>[]byte\<close> are both byte sequences; both are a HOL \<open>string\<close>
  (a list of 8-bit characters).  A Go \<open>(T, error)\<close> result is a sum: \<open>Inl\<close> of the error,
  \<open>Inr\<close> of the value.  A nil pointer is \<open>None\<close>.  \<open>uint64\<close> is a \<open>64 word\<close>; \<open>int\<close> and
  \<open>int64\<close> are \<open>int\<close>, with the wrap-around (\<open>wrap64\<close>) written out where it can happen.
\<close>

named_theorems str_simps \<open>evaluation of the string helpers\<close>
named_theorems json_simps \<open>evaluation of the JSON codec\<close>
named_theorems store_simps \<open>unfolding of the log stores\<close>

type_synonym byte = char
type_synonym bytes = string
type_synonym uint64 = "64 word"

abbreviation (input) maxInt64 :: int where "maxInt64 \<equiv> 9223372036854775807"
abbreviation (input) minInt64 :: int where "minInt64 \<equiv> - 9223372036854775808"

text \<open>Two's-complement wrap-around of a 64-bit signed result.\<close>

definition wrap64 :: "int \<Rightarrow> int" where
  "wrap64 i = (i + 9223372036854775808) mod 18446744073709551616 - 9223372036854775808"

definition int64 :: "int \<Rightarrow> bool" where
  "int64 i \<longleftrightarrow> minInt64 \<le> i \<and> i \<le> maxInt64"

lemma wrap64_id [simp]: "int64 i \<Longrightarrow> wrap64 i = i"
  by (simp add: wrap64_def int64_def)

lemma wrap64_range [simp]: "int64 (wrap64 i)"
proof -
  have "0 \<le> (i + 9223372036854775808) mod 18446744073709551616"
    and "(i + 9223372036854775808) mod 18446744073709551616 < 18446744073709551616"
    by simp_all
  then show ?thesis by (simp add: wrap64_def int64_def)
qed

subsection \<open>Lists\<close>

lemma take_length_eq_iff: "take (length w) s = w \<longleftrightarrow> (\<exists>r. s = w @ r)"
  by (metis append_eq_conv_conj append_take_drop_id)

lemma drop_append_length [simp]: "drop (length w) (w @ r) = r"
  by simp

lemma find_append:
  "find P (xs @ ys) = (case find P xs of Some x \<Rightarrow> Some x | None \<Rightarrow> find P ys)"
  by (induction xs) auto

lemma takeWhile_append_stop [simp]:
  "(\<And>x. x \<in> set xs \<Longrightarrow> P x) \<Longrightarrow> \<not> P y \<Longrightarrow> takeWhile P (xs @ y # ys) = xs"
  by (induction xs) auto

lemma dropWhile_append_stop [simp]:
  "(\<And>x. x \<in> set xs \<Longrightarrow> P x) \<Longrightarrow> \<not> P y \<Longrightarrow> dropWhile P (xs @ y # ys) = y # ys"
  by (induction xs) auto

lemma takeWhile_neq_sep [simp]: "sep \<notin> set a \<Longrightarrow> takeWhile (\<lambda>c. c \<noteq> sep) (a @ sep # b) = a"
  by (rule takeWhile_append_stop) auto

lemma dropWhile_neq_sep [simp]:
  "sep \<notin> set a \<Longrightarrow> dropWhile (\<lambda>c. c \<noteq> sep) (a @ sep # b) = sep # b"
  by (rule dropWhile_append_stop) auto

lemma dropWhile_neq_none [simp]: "sep \<notin> set a \<Longrightarrow> dropWhile (\<lambda>c. c \<noteq> sep) a = []"
  by (induction a) auto

lemma takeWhile_neq_none [simp]: "sep \<notin> set a \<Longrightarrow> takeWhile (\<lambda>c. c \<noteq> sep) a = a"
  by (induction a) auto

lemma filter_take_drop_split: "filter P xs = filter P (take n xs) @ filter P (drop n xs)"
  by (metis append_take_drop_id filter_append)

subsection \<open>Words\<close>

lemma unat_Suc_no_overflow:
  "unat (w :: uint64) < 18446744073709551615 \<Longrightarrow> unat (w + 1) = Suc (unat w)"
  by (subst unat_plus_if') auto

lemma word64_of_nat_unat [simp]: "word_of_nat (unat (w :: uint64)) = w"
  by simp

end
