(* ===== verification/Go_Strings.thy ===== *)
theory Go_Strings
  imports Go_Prelude
begin

text \<open>
  The parts of Go's \<open>strings\<close>, \<open>bytes\<close>, \<open>bufio\<close> and \<open>strconv\<close> packages the program calls, on
  byte strings: \<open>TrimSpace\<close> (with the UTF-8 encodings of the Unicode spaces), \<open>HasPrefix\<close>,
  \<open>TrimPrefix\<close>, \<open>TrimSuffix\<close>, \<open>Contains\<close>, \<open>Join\<close>, \<open>SplitN\<close>, \<open>EqualFold\<close>, \<open>ToLower\<close>, \<open>ToUpper\<close>,
  \<open>Itoa\<close>, \<open>Atoi\<close>, \<open>ParseInt\<close>, \<open>ParseUint\<close> and the line scanner.  Case mapping is the ASCII one
  on ASCII strings; outside ASCII Go consults its Unicode tables, which are the parameter
  \<open>unicode\<close> of the operations that need them.
\<close>

section \<open>Trimming\<close>

definition goSpaces :: "string list" where
  "goSpaces =
    [[CHR 0x09], [CHR 0x0A], [CHR 0x0B], [CHR 0x0C], [CHR 0x0D], [CHR 0x20],
     [CHR 0xC2, CHR 0x85], [CHR 0xC2, CHR 0xA0], [CHR 0xE1, CHR 0x9A, CHR 0x80],
     [CHR 0xE2, CHR 0x80, CHR 0x80], [CHR 0xE2, CHR 0x80, CHR 0x81],
     [CHR 0xE2, CHR 0x80, CHR 0x82], [CHR 0xE2, CHR 0x80, CHR 0x83],
     [CHR 0xE2, CHR 0x80, CHR 0x84], [CHR 0xE2, CHR 0x80, CHR 0x85],
     [CHR 0xE2, CHR 0x80, CHR 0x86], [CHR 0xE2, CHR 0x80, CHR 0x87],
     [CHR 0xE2, CHR 0x80, CHR 0x88], [CHR 0xE2, CHR 0x80, CHR 0x89],
     [CHR 0xE2, CHR 0x80, CHR 0x8A], [CHR 0xE2, CHR 0x80, CHR 0xA8],
     [CHR 0xE2, CHR 0x80, CHR 0xA9], [CHR 0xE2, CHR 0x80, CHR 0xAF],
     [CHR 0xE2, CHR 0x81, CHR 0x9F], [CHR 0xE3, CHR 0x80, CHR 0x80]]"

definition startsWith :: "string \<Rightarrow> string \<Rightarrow> bool" where
  "startsWith w s = (take (length w) s = w)"

definition findPrefix :: "string list \<Rightarrow> string \<Rightarrow> string option" where
  "findPrefix ws s = find (\<lambda>w. w \<noteq> [] \<and> startsWith w s) ws"

lemma startsWith_iff: "startsWith w s \<longleftrightarrow> (\<exists>r. s = w @ r)"
  by (simp add: startsWith_def take_length_eq_iff)

lemma findPrefix_SomeD:
  "findPrefix ws s = Some w \<Longrightarrow> w \<in> set ws \<and> w \<noteq> [] \<and> (\<exists>r. s = w @ r)"
  by (auto simp: findPrefix_def find_Some_iff startsWith_iff)

lemma findPrefix_None_iff:
  "findPrefix ws s = None \<longleftrightarrow> (\<forall>w\<in>set ws. w \<noteq> [] \<longrightarrow> \<not> startsWith w s)"
  by (auto simp: findPrefix_def find_None_iff)

function stripBy :: "string list \<Rightarrow> string \<Rightarrow> string" where
  "stripBy ws s = (case findPrefix ws s of
      Some w \<Rightarrow> stripBy ws (drop (length w) s)
    | None \<Rightarrow> s)"
  by pat_completeness auto
termination
proof (relation "measure (\<lambda>(ws, s). length s)", goal_cases)
  case 1
  then show ?case by simp
next
  case (2 ws s w)
  then show ?case by (auto dest: findPrefix_SomeD)
qed

declare stripBy.simps [simp del]

definition trimLeftSpace :: "string \<Rightarrow> string" where
  "trimLeftSpace s = stripBy goSpaces s"

definition trimRightSpace :: "string \<Rightarrow> string" where
  "trimRightSpace s = rev (stripBy (map rev goSpaces) (rev s))"

definition TrimSpace :: "string \<Rightarrow> string" where
  "TrimSpace s = trimRightSpace (trimLeftSpace s)"

lemma stripBy_None: "findPrefix ws s = None \<Longrightarrow> stripBy ws s = s"
  by (simp add: stripBy.simps)

lemma findPrefix_stripBy [simp]: "findPrefix ws (stripBy ws s) = None"
proof (induction ws s rule: stripBy.induct)
  case (1 ws s)
  show ?case
    by (cases "findPrefix ws s") (auto simp: stripBy.simps [of ws s] "1")
qed

lemma stripBy_suffix: "\<exists>p. s = p @ stripBy ws s"
proof (induction ws s rule: stripBy.induct)
  case (1 ws s)
  show ?case
  proof (cases "findPrefix ws s")
    case None
    then show ?thesis by (simp add: stripBy_None)
  next
    case (Some w)
    then obtain r where r: "s = w @ r" by (auto dest: findPrefix_SomeD)
    from "1" [OF Some] obtain p where "drop (length w) s = p @ stripBy ws (drop (length w) s)"
      by blast
    moreover have "stripBy ws s = stripBy ws (drop (length w) s)"
      by (simp add: stripBy.simps [of ws s] Some)
    ultimately have "s = (w @ p) @ stripBy ws s" using r by (metis append_assoc drop_append_length)
    then show ?thesis by blast
  qed
qed

lemma stripBy_idem [simp]: "stripBy ws (stripBy ws s) = stripBy ws s"
  by (simp add: stripBy_None)

lemma findPrefix_prefix_None: "findPrefix ws (p @ q) = None \<Longrightarrow> findPrefix ws p = None"
  by (auto simp: findPrefix_None_iff startsWith_iff)

lemma trimRightSpace_prefix: "\<exists>q. s = trimRightSpace s @ q"
proof -
  obtain p where "rev s = p @ stripBy (map rev goSpaces) (rev s)"
    using stripBy_suffix by blast
  then have "s = rev (stripBy (map rev goSpaces) (rev s)) @ rev p"
    by (metis rev_append rev_rev_ident)
  then show ?thesis by (auto simp: trimRightSpace_def)
qed

lemma trimLeftSpace_suffix: "\<exists>p. s = p @ trimLeftSpace s"
  using stripBy_suffix by (simp add: trimLeftSpace_def)

text \<open>Trimming returns a contiguous part of its argument, and trimming twice is trimming once.\<close>

lemma TrimSpace_sublist: "\<exists>p q. s = p @ TrimSpace s @ q"
  by (metis TrimSpace_def trimLeftSpace_suffix trimRightSpace_prefix)

lemma set_TrimSpace: "set (TrimSpace s) \<subseteq> set s"
  using TrimSpace_sublist [of s] by (metis UnCI set_append subsetI)

lemma length_TrimSpace: "length (TrimSpace s) \<le> length s"
  using TrimSpace_sublist [of s] by (metis le_add1 le_add2 length_append order_trans)

lemma TrimSpace_no_leading: "findPrefix goSpaces (TrimSpace s) = None"
proof -
  obtain q where "trimLeftSpace s = TrimSpace s @ q"
    using trimRightSpace_prefix by (metis TrimSpace_def)
  moreover have "findPrefix goSpaces (trimLeftSpace s) = None"
    by (simp add: trimLeftSpace_def)
  ultimately show ?thesis by (metis findPrefix_prefix_None)
qed

lemma TrimSpace_idem [simp]: "TrimSpace (TrimSpace s) = TrimSpace s"
proof -
  have "trimLeftSpace (TrimSpace s) = TrimSpace s"
    by (simp add: trimLeftSpace_def stripBy_None TrimSpace_no_leading)
  then show ?thesis by (simp add: TrimSpace_def trimRightSpace_def)
qed

text \<open>A string whose first and last bytes are not part of a space is left alone.\<close>

definition edgeByte :: "char \<Rightarrow> bool" where
  "edgeByte c \<longleftrightarrow> c \<notin> set (map hd goSpaces) \<and> c \<notin> set (map last goSpaces)"

lemma goSpaces_nonempty: "w \<in> set goSpaces \<Longrightarrow> w \<noteq> []"
  by (auto simp: goSpaces_def)

lemma trimLeftSpace_id: "edgeByte c \<Longrightarrow> trimLeftSpace (c # s) = c # s"
proof -
  assume c: "edgeByte c"
  have "\<not> startsWith w (c # s)" if "w \<in> set goSpaces" for w
    using c that goSpaces_nonempty [OF that]
    by (cases w) (force simp: edgeByte_def startsWith_iff)+
  then have "findPrefix goSpaces (c # s) = None"
    by (auto simp: findPrefix_None_iff)
  then show ?thesis by (simp add: trimLeftSpace_def stripBy_None)
qed

lemma trimRightSpace_id: "edgeByte c \<Longrightarrow> trimRightSpace (s @ [c]) = s @ [c]"
proof -
  assume c: "edgeByte c"
  have "\<not> startsWith (rev w) (c # rev s)" if "w \<in> set goSpaces" for w
    using c that goSpaces_nonempty [OF that]
    by (cases w rule: rev_cases) (auto simp: edgeByte_def startsWith_iff image_iff)
  then have "findPrefix (map rev goSpaces) (c # rev s) = None"
    by (auto simp: findPrefix_None_iff)
  then show ?thesis by (simp add: trimRightSpace_def stripBy_None)
qed

lemma TrimSpace_Nil [simp]: "TrimSpace [] = []"
  using length_TrimSpace [of "[]"] by simp

lemma TrimSpace_id:
  assumes "s \<noteq> []" and "edgeByte (hd s)" and "edgeByte (last s)"
  shows "TrimSpace s = s"
proof -
  have "trimLeftSpace s = s" using assms trimLeftSpace_id [of "hd s" "tl s"] by simp
  moreover have "trimRightSpace s = s"
    using assms trimRightSpace_id [of "last s" "butlast s"] by simp
  ultimately show ?thesis by (simp add: TrimSpace_def)
qed

lemma TrimSpace_id_all:
  assumes "\<And>c. c \<in> set s \<Longrightarrow> edgeByte c"
  shows "TrimSpace s = s"
  using assms by (cases "s = []") (auto intro: TrimSpace_id)

section \<open>Prefixes, substrings, joining and splitting\<close>

definition HasPrefix :: "string \<Rightarrow> string \<Rightarrow> bool" where
  "HasPrefix s p = startsWith p s"

definition HasSuffix :: "string \<Rightarrow> string \<Rightarrow> bool" where
  "HasSuffix s p = startsWith (rev p) (rev s)"

definition TrimPrefix :: "string \<Rightarrow> string \<Rightarrow> string" where
  "TrimPrefix s p = (if HasPrefix s p then drop (length p) s else s)"

definition TrimSuffix :: "string \<Rightarrow> string \<Rightarrow> string" where
  "TrimSuffix s p = (if HasSuffix s p then take (length s - length p) s else s)"

fun Contains :: "string \<Rightarrow> string \<Rightarrow> bool" where
  "Contains [] sub = (sub = [])"
| "Contains (c # s) sub = (startsWith sub (c # s) \<or> Contains s sub)"

fun Join :: "string list \<Rightarrow> string \<Rightarrow> string" where
  "Join [] sep = []"
| "Join [x] sep = x"
| "Join (x # y # xs) sep = x @ sep @ Join (y # xs) sep"

text \<open>\<open>strings.SplitN(s, sep, n)\<close> for a one-byte separator and \<open>n > 0\<close>.\<close>

fun SplitN :: "string \<Rightarrow> char \<Rightarrow> nat \<Rightarrow> string list" where
  "SplitN s sep 0 = []"
| "SplitN s sep (Suc 0) = [s]"
| "SplitN s sep (Suc (Suc n)) =
     (case dropWhile (\<lambda>c. c \<noteq> sep) s of
        [] \<Rightarrow> [s]
      | _ # rest \<Rightarrow> takeWhile (\<lambda>c. c \<noteq> sep) s # SplitN rest sep (Suc n))"

lemma HasPrefix_append [simp]: "HasPrefix (p @ s) p"
  by (simp add: HasPrefix_def startsWith_def)

lemma TrimPrefix_append [simp]: "TrimPrefix (p @ s) p = s"
  by (simp add: TrimPrefix_def)

lemma HasPrefix_iff: "HasPrefix s p \<longleftrightarrow> (\<exists>r. s = p @ r)"
  by (simp add: HasPrefix_def startsWith_iff)

lemma Contains_iff: "Contains s sub \<longleftrightarrow> (\<exists>p q. s = p @ sub @ q)"
proof (induction s)
  case Nil
  then show ?case by simp
next
  case (Cons c s)
  have "(\<exists>p q. c # s = p @ sub @ q) \<longleftrightarrow> (\<exists>q. c # s = sub @ q) \<or> (\<exists>p q. s = p @ sub @ q)"
    by (metis append_Cons append_Nil neq_Nil_conv list.inject)
  with Cons show ?case by (auto simp: startsWith_iff)
qed

lemma SplitN_first:
  "sep \<notin> set a \<Longrightarrow> SplitN (a @ sep # b) sep (Suc (Suc n)) = a # SplitN b sep (Suc n)"
  by simp

lemma SplitN_none: "sep \<notin> set a \<Longrightarrow> SplitN a sep (Suc n) = [a]"
  by (cases n) auto

declare SplitN.simps(3) [simp del]

lemma SplitN_3_iff:
  "SplitN s sep 3 = [a, b, c] \<longleftrightarrow> sep \<notin> set a \<and> sep \<notin> set b \<and> s = a @ sep # b @ sep # c"
proof
  assume *: "SplitN s sep 3 = [a, b, c]"
  have "sep \<in> set s"
    using * SplitN_none [of sep s 2] by (auto simp: numeral_3_eq_3 numeral_2_eq_2)
  then obtain a' r where s: "s = a' @ sep # r" "sep \<notin> set a'" by (meson split_list_first)
  with * have a: "a' = a" and r: "SplitN r sep 2 = [b, c]"
    by (auto simp: numeral_3_eq_3 numeral_2_eq_2 SplitN_first)
  have "sep \<in> set r"
    using r SplitN_none [of sep r 1] by (auto simp: numeral_2_eq_2)
  then obtain b' q where q: "r = b' @ sep # q" "sep \<notin> set b'" by (meson split_list_first)
  with r have "b' = b" "q = c" by (auto simp: numeral_2_eq_2 SplitN_first)
  with s a q show "sep \<notin> set a \<and> sep \<notin> set b \<and> s = a @ sep # b @ sep # c" by simp
next
  assume "sep \<notin> set a \<and> sep \<notin> set b \<and> s = a @ sep # b @ sep # c"
  then show "SplitN s sep 3 = [a, b, c]"
    by (simp add: numeral_3_eq_3 SplitN_first)
qed

section \<open>Letter case\<close>

record unicode =
  uniLower :: "string \<Rightarrow> string"
  uniUpper :: "string \<Rightarrow> string"
  uniFold :: "string \<Rightarrow> string \<Rightarrow> bool"

definition isASCII :: "string \<Rightarrow> bool" where
  "isASCII s = list_all (\<lambda>c. of_char c < (128::nat)) s"

definition lowerByte :: "char \<Rightarrow> char" where
  "lowerByte c = (if 65 \<le> (of_char c :: nat) \<and> (of_char c :: nat) \<le> 90
                  then char_of ((of_char c :: nat) + 32) else c)"

definition upperByte :: "char \<Rightarrow> char" where
  "upperByte c = (if 97 \<le> (of_char c :: nat) \<and> (of_char c :: nat) \<le> 122
                  then char_of ((of_char c :: nat) - 32) else c)"

definition ToLower :: "unicode \<Rightarrow> string \<Rightarrow> string" where
  "ToLower uc s = (if isASCII s then map lowerByte s else uniLower uc s)"

definition ToUpper :: "unicode \<Rightarrow> string \<Rightarrow> string" where
  "ToUpper uc s = (if isASCII s then map upperByte s else uniUpper uc s)"

text \<open>\<open>foldASCII\<close> is \<open>EqualFold\<close> where one side is a constant whose letters have no fold outside
  ASCII (all but \<open>k\<close> and \<open>s\<close> qualify), such as \<open>"true"\<close> or \<open>"bearer "\<close>.\<close>

definition foldASCII :: "string \<Rightarrow> string \<Rightarrow> bool" where
  "foldASCII s t = (map lowerByte s = map lowerByte t)"

definition EqualFold :: "unicode \<Rightarrow> string \<Rightarrow> string \<Rightarrow> bool" where
  "EqualFold uc s t = (if isASCII s \<and> isASCII t then foldASCII s t else uniFold uc s t)"

lemma EqualFold_refl_ASCII: "isASCII s \<Longrightarrow> EqualFold uc s s"
  by (simp add: EqualFold_def foldASCII_def)

section \<open>Decimal integers\<close>

definition digitChar :: "nat \<Rightarrow> char" where
  "digitChar d = ''0123456789'' ! d"

definition digitVal :: "char \<Rightarrow> nat option" where
  "digitVal c = (if 48 \<le> (of_char c :: nat) \<and> (of_char c :: nat) \<le> 57
                 then Some (of_char c - 48) else None)"

text \<open>\<open>strconv.FormatUint(n, 10)\<close>, \<open>strconv.Itoa\<close> and the \<open>%d\<close> verb.\<close>

fun FormatUint :: "nat \<Rightarrow> string" where
  "FormatUint n = (if n < 10 then [digitChar n]
                   else FormatUint (n div 10) @ [digitChar (n mod 10)])"

declare FormatUint.simps [simp del]

definition Itoa :: "int \<Rightarrow> string" where
  "Itoa i = (if i < 0 then CHR ''-'' # FormatUint (nat (- i)) else FormatUint (nat i))"

fun parseDigits :: "nat \<Rightarrow> string \<Rightarrow> nat option" where
  "parseDigits acc [] = Some acc"
| "parseDigits acc (c # s) =
     (case digitVal c of None \<Rightarrow> None | Some d \<Rightarrow> parseDigits (10 * acc + d) s)"

definition parseNat :: "string \<Rightarrow> nat option" where
  "parseNat s = (if s = [] then None else parseDigits 0 s)"

text \<open>\<open>strconv.ParseUint(s, 10, 64)\<close>: \<open>None\<close> is a syntax or range error.\<close>

definition ParseUint :: "string \<Rightarrow> uint64 option" where
  "ParseUint s = (case parseNat s of
      None \<Rightarrow> None
    | Some n \<Rightarrow> if n < 2 ^ 64 then Some (word_of_nat n) else None)"

text \<open>\<open>strconv.ParseInt(s, 10, 64)\<close> and \<open>strconv.Atoi\<close>: the value, and whether the error is
  non-nil.  A range error still yields the nearest representable value.\<close>

definition ParseInt :: "string \<Rightarrow> int \<times> bool" where
  "ParseInt s =
     (let (neg, body) = (case s of
            [] \<Rightarrow> (False, [])
          | c # r \<Rightarrow> if c = CHR ''-'' then (True, r) else if c = CHR ''+'' then (False, r)
                     else (False, s))
      in case parseNat body of
           None \<Rightarrow> (0, True)
         | Some n \<Rightarrow>
             if neg then (if int n \<le> 9223372036854775808 then (- int n, False) else (minInt64, True))
             else (if int n \<le> maxInt64 then (int n, False) else (maxInt64, True)))"

definition Atoi :: "string \<Rightarrow> int \<times> bool" where
  "Atoi s = ParseInt s"

lemma less_10_cases:
  "(d::nat) < 10 \<Longrightarrow> d = 0 \<or> d = 1 \<or> d = 2 \<or> d = 3 \<or> d = 4 \<or> d = 5 \<or> d = 6 \<or> d = 7 \<or> d = 8 \<or> d = 9"
  by arith

lemma digitVal_digitChar [simp]: "d < 10 \<Longrightarrow> digitVal (digitChar d) = Some d"
  by (drule less_10_cases) (elim disjE; simp add: digitVal_def digitChar_def)

lemma digitChar_cases:
  "d < 10 \<Longrightarrow> digitChar d \<in> set ''0123456789''"
  by (drule less_10_cases) (elim disjE; simp add: digitChar_def)

lemma FormatUint_nonempty [simp]: "FormatUint n \<noteq> []"
  by (subst FormatUint.simps) simp

lemma FormatUint_digits: "c \<in> set (FormatUint n) \<Longrightarrow> \<exists>d<10. c = digitChar d"
proof (induction n rule: FormatUint.induct)
  case (1 n)
  show ?case
  proof (cases "n < 10")
    case True
    with "1.prems" show ?thesis by (auto simp: FormatUint.simps [of n])
  next
    case False
    with "1" show ?thesis
      by (fastforce simp: FormatUint.simps [of n] intro: exI [of _ "n mod 10"])
  qed
qed

lemma parseDigits_append:
  "parseDigits acc (s @ t) = (case parseDigits acc s of None \<Rightarrow> None | Some a \<Rightarrow> parseDigits a t)"
  by (induction acc s rule: parseDigits.induct) (auto split: option.splits)

lemma parseDigits_FormatUint: "parseDigits 0 (FormatUint n) = Some n"
proof (induction n rule: FormatUint.induct)
  case (1 n)
  show ?case
    by (cases "n < 10") (auto simp: FormatUint.simps [of n] parseDigits_append "1")
qed

lemma parseNat_FormatUint [simp]: "parseNat (FormatUint n) = Some n"
  by (simp add: parseNat_def parseDigits_FormatUint)

lemma FormatUint_inj [simp]: "FormatUint m = FormatUint n \<longleftrightarrow> m = n"
  by (metis option.inject parseNat_FormatUint)

lemma ParseUint_FormatUint [simp]: "ParseUint (FormatUint (unat w)) = Some w"
  using unsigned_less [of w] by (simp add: ParseUint_def)

lemma FormatUint_chars:
  "c \<in> set (FormatUint n) \<Longrightarrow> c \<in> set ''0123456789''"
  using FormatUint_digits digitChar_cases by blast

lemma ParseInt_FormatUint:
  "int n \<le> maxInt64 \<Longrightarrow> ParseInt (FormatUint n) = (int n, False)"
proof -
  assume n: "int n \<le> maxInt64"
  obtain c r where cr: "FormatUint n = c # r" by (cases "FormatUint n") auto
  then have "c \<noteq> CHR ''-''" "c \<noteq> CHR ''+''" using FormatUint_chars [of c n] by auto
  with n cr show ?thesis
    using parseNat_FormatUint [of n] by (simp add: ParseInt_def)
qed

section \<open>The line scanner\<close>

text \<open>
  \<open>bufio.Scanner\<close> with \<open>ScanLines\<close> over a whole file: the tokens it yields and whether it stopped
  with \<open>ErrTooLong\<close>, which it does at the first line that does not fit, with its newline, in a
  buffer of \<open>mx\<close> bytes.
\<close>

abbreviation NL :: char where "NL \<equiv> CHR 0x0A"
abbreviation CR :: char where "CR \<equiv> CHR 0x0D"

function splitLines :: "string \<Rightarrow> string list" where
  "splitLines s = (if s = [] then [] else
     takeWhile (\<lambda>c. c \<noteq> NL) s #
       (case dropWhile (\<lambda>c. c \<noteq> NL) s of [] \<Rightarrow> [] | _ # rest \<Rightarrow> splitLines rest))"
  by pat_completeness auto
termination
proof (relation "measure length", goal_cases)
  case 1
  then show ?case by simp
next
  case (2 s c rest)
  then have "length (c # rest) \<le> length s" by (metis length_dropWhile_le)
  then show ?case by simp
qed

declare splitLines.simps [simp del]

definition dropCR :: "string \<Rightarrow> string" where
  "dropCR l = TrimSuffix l [CR]"

definition scanLines :: "nat \<Rightarrow> string \<Rightarrow> string list \<times> bool" where
  "scanLines mx s =
     (let ls = splitLines s
      in (map dropCR (takeWhile (\<lambda>l. length l < mx) ls), \<not> list_all (\<lambda>l. length l < mx) ls))"

lemma splitLines_Nil [simp]: "splitLines [] = []"
  by (simp add: splitLines.simps)

lemma splitLines_line: "NL \<notin> set l \<Longrightarrow> splitLines (l @ NL # rest) = l # splitLines rest"
  by (simp add: splitLines.simps [of "l @ NL # rest"])

lemma splitLines_last: "NL \<notin> set l \<Longrightarrow> l \<noteq> [] \<Longrightarrow> splitLines l = [l]"
  by (simp add: splitLines.simps [of l])

text \<open>A file that ends in a newline (or is empty) is extended line by line.\<close>

lemma splitLines_append:
  assumes "s = [] \<or> last s = NL"
  shows "splitLines (s @ t) = splitLines s @ splitLines t"
  using assms
proof (induction s rule: splitLines.induct)
  case (1 s)
  show ?case
  proof (cases "s = []")
    case False
    with "1.prems" have "NL \<in> set s" by (metis last_in_set)
    then obtain l r where s: "s = l @ NL # r" "NL \<notin> set l" by (meson split_list_first)
    have "r = [] \<or> last r = NL" using "1.prems" s by (auto split: if_splits)
    moreover have "dropWhile (\<lambda>c. c \<noteq> NL) s = NL # r" using s by simp
    ultimately have "splitLines (r @ t) = splitLines r @ splitLines t"
      using "1.IH" [OF False] by blast
    then show ?thesis using s by (simp add: splitLines_line)
  qed simp
qed

lemma TrimSuffix_id: "s = [] \<or> last s \<noteq> c \<Longrightarrow> TrimSuffix s [c] = s"
  by (cases s rule: rev_cases) (auto simp: TrimSuffix_def HasSuffix_def startsWith_def)

lemma dropCR_id [simp]: "CR \<notin> set l \<Longrightarrow> dropCR l = l"
  by (cases l rule: rev_cases) (auto simp: dropCR_def intro!: TrimSuffix_id)

end
