(* ===== verification/Go_Encoding.thy ===== *)
theory Go_Encoding
  imports Go_Strings
begin

text \<open>
  \<open>hex.EncodeToString\<close> and the unpadded URL-safe base64 of \<open>encoding/base64\<close>
  (\<open>RawURLEncoding\<close>), with the decoder as the package has it: carriage returns and newlines are
  skipped, a lone trailing character is an error, and the unused low bits of the last
  character are ignored.  The decoder inverts the encoder on every byte string.
\<close>

section \<open>Hexadecimal\<close>

definition hexChar :: "nat \<Rightarrow> char" where
  "hexChar d = ''0123456789abcdef'' ! d"

definition byteVal :: "char \<Rightarrow> nat" where
  "byteVal c = of_char c"

definition hexByte :: "nat \<Rightarrow> string" where
  "hexByte n = [hexChar (n div 16), hexChar (n mod 16)]"

definition hexEncode :: "string \<Rightarrow> string" where
  "hexEncode s = concat (map (\<lambda>c. hexByte (byteVal c)) s)"

definition isHexChar :: "char \<Rightarrow> bool" where
  "isHexChar c \<longleftrightarrow> c \<in> set ''0123456789abcdef''"

lemma byteVal_less [simp]: "byteVal c < 256"
  by (simp add: byteVal_def)

lemma char_of_byteVal [simp]: "char_of (byteVal c) = c"
  by (simp add: byteVal_def)

lemma isHexChar_hexChar: "d < 16 \<Longrightarrow> isHexChar (hexChar d)"
  unfolding isHexChar_def hexChar_def by (rule nth_mem) simp

lemma length_hexEncode [simp]: "length (hexEncode s) = 2 * length s"
  by (induction s) (auto simp: hexEncode_def hexByte_def)

lemma hexEncode_chars: "list_all isHexChar (hexEncode s)"
proof (induction s)
  case (Cons c s)
  have "byteVal c div 16 < 16" using byteVal_less [of c] by linarith
  with Cons show ?case by (simp add: hexEncode_def hexByte_def isHexChar_hexChar)
qed (simp add: hexEncode_def)

section \<open>Base64\<close>

definition b64Alphabet :: string where
  "b64Alphabet = ''ABCDEFGHIJKLMNOPQRSTUVWXYZabcdefghijklmnopqrstuvwxyz0123456789-_''"

definition b64Char :: "nat \<Rightarrow> char" where
  "b64Char n = b64Alphabet ! n"

definition b64Val :: "char \<Rightarrow> nat option" where
  "b64Val c =
     (let n = byteVal c in
      if 65 \<le> n \<and> n \<le> 90 then Some (n - 65)
      else if 97 \<le> n \<and> n \<le> 122 then Some (n - 71)
      else if 48 \<le> n \<and> n \<le> 57 then Some (n + 4)
      else if n = 45 then Some 62
      else if n = 95 then Some 63
      else None)"

fun b64Enc :: "nat list \<Rightarrow> nat list" where
  "b64Enc [] = []"
| "b64Enc [a] = [a div 4, (a mod 4) * 16]"
| "b64Enc [a, b] = [a div 4, (a mod 4) * 16 + b div 16, (b mod 16) * 4]"
| "b64Enc (a # b # c # r) =
     [a div 4, (a mod 4) * 16 + b div 16, (b mod 16) * 4 + c div 64, c mod 64] @ b64Enc r"

fun b64Dec :: "nat list \<Rightarrow> nat list option" where
  "b64Dec [] = Some []"
| "b64Dec [p] = None"
| "b64Dec [p, q] = Some [p * 4 + q div 16]"
| "b64Dec [p, q, r] = Some [p * 4 + q div 16, (q mod 16) * 16 + r div 4]"
| "b64Dec (p # q # r # t # rest) =
     (case b64Dec rest of
        None \<Rightarrow> None
      | Some bs \<Rightarrow> Some ([p * 4 + q div 16, (q mod 16) * 16 + r div 4, (r mod 4) * 64 + t] @ bs))"

definition base64Encode :: "string \<Rightarrow> string" where
  "base64Encode s = map b64Char (b64Enc (map byteVal s))"

definition base64Decode :: "string \<Rightarrow> string option" where
  "base64Decode s =
     (let cs = map b64Val (filter (\<lambda>c. c \<noteq> CR \<and> c \<noteq> NL) s)
      in if list_all (\<lambda>v. v \<noteq> None) cs
         then map_option (map char_of) (b64Dec (map the cs))
         else None)"

lemma b64Alphabet_vals: "map b64Val b64Alphabet = map Some [0..<64]"
  by (simp add: b64Alphabet_def b64Val_def byteVal_def upt_conv_Cons)

lemma b64Alphabet_edge: "list_all (\<lambda>c. edgeByte c \<and> c \<noteq> CR \<and> c \<noteq> NL) b64Alphabet"
  by (simp add: b64Alphabet_def edgeByte_def goSpaces_def)

lemma b64Alphabet_length: "length b64Alphabet = 64"
  by (simp add: b64Alphabet_def)

lemma b64Char_in: "n < 64 \<Longrightarrow> b64Char n \<in> set b64Alphabet"
  by (simp add: b64Char_def b64Alphabet_length)

lemma b64Char_props:
  assumes "n < 64"
  shows "b64Val (b64Char n) = Some n" and "edgeByte (b64Char n)"
    and "b64Char n \<noteq> CR" and "b64Char n \<noteq> NL"
proof -
  have "map b64Val b64Alphabet ! n = Some n" using assms by (simp add: b64Alphabet_vals)
  then show "b64Val (b64Char n) = Some n"
    using assms by (simp add: b64Char_def b64Alphabet_length)
  show "edgeByte (b64Char n)" "b64Char n \<noteq> CR" "b64Char n \<noteq> NL"
    using b64Alphabet_edge b64Char_in [OF assms] by (auto simp: list_all_iff)
qed

lemma sixbit_1: "(a::nat) < 256 \<Longrightarrow> a div 4 < 64"
  by linarith

lemma sixbit_2: "(b::nat) < 256 \<Longrightarrow> a mod 4 * 16 + b div 16 < 64"
  using mod_less_divisor [of 4 a] by linarith

lemma sixbit_3: "(c::nat) < 256 \<Longrightarrow> b mod 16 * 4 + c div 64 < 64"
  using mod_less_divisor [of 16 b] by linarith

lemma sixbit_4: "(a::nat) mod 4 * 16 < 64" "(b::nat) mod 16 * 4 < 64"
  using mod_less_divisor [of 4 a] mod_less_divisor [of 16 b] by linarith+

lemma div_mod_join: "(y::nat) < k \<Longrightarrow> (x * k + y) div k = x" "(y::nat) < k \<Longrightarrow> (x * k + y) mod k = y"
  by simp_all

lemma join_1: "(b::nat) < 256 \<Longrightarrow> a div 4 * 4 + (a mod 4 * 16 + b div 16) div 16 = a"
  by (subst div_mod_join(1)) (linarith, rule div_mult_mod_eq)

lemma join_2: "(b::nat) < 256 \<Longrightarrow> c < 256 \<Longrightarrow>
    (a mod 4 * 16 + b div 16) mod 16 * 16 + (b mod 16 * 4 + c div 64) div 4 = b"
  by (subst div_mod_join(2), linarith) (subst div_mod_join(1), linarith, rule div_mult_mod_eq)

lemma join_3: "(c::nat) < 256 \<Longrightarrow> (b mod 16 * 4 + c div 64) mod 4 * 64 + c mod 64 = c"
  by (subst div_mod_join(2)) (linarith, rule div_mult_mod_eq)

lemmas sixbit = sixbit_1 sixbit_2 sixbit_3 sixbit_4 join_1 join_2 join_3

lemma b64Enc_less: "list_all (\<lambda>b. b < 256) bs \<Longrightarrow> list_all (\<lambda>e. e < 64) (b64Enc bs)"
  by (induction bs rule: b64Enc.induct) (auto simp: sixbit)

lemma b64Dec_b64Enc: "list_all (\<lambda>b. b < 256) bs \<Longrightarrow> b64Dec (b64Enc bs) = Some bs"
proof (induction bs rule: b64Enc.induct)
  case (2 a)
  then show ?case using join_1 [of 0 a] by simp
next
  case (3 a b)
  then show ?case using join_1 [of b a] join_2 [of b 0 a] by simp
qed (auto simp: sixbit)

lemma base64Encode_chars: "c \<in> set (base64Encode s) \<Longrightarrow> \<exists>n<64. c = b64Char n"
proof -
  assume "c \<in> set (base64Encode s)"
  moreover have "list_all (\<lambda>e. e < 64) (b64Enc (map byteVal s))"
    by (rule b64Enc_less) (simp add: list_all_iff)
  ultimately show ?thesis by (auto simp: base64Encode_def list_all_iff)
qed

lemma TrimSpace_base64Encode [simp]: "TrimSpace (base64Encode s) = base64Encode s"
  by (rule TrimSpace_id_all) (auto dest!: base64Encode_chars intro: b64Char_props)

text \<open>Decoding what was encoded returns the original bytes.\<close>

lemma base64Decode_base64Encode [simp]: "base64Decode (base64Encode s) = Some s"
proof -
  let ?es = "b64Enc (map byteVal s)"
  have es: "list_all (\<lambda>e. e < 64) ?es"
    by (rule b64Enc_less) (simp add: list_all_iff)
  have "filter (\<lambda>c. c \<noteq> CR \<and> c \<noteq> NL) (map b64Char ?es) = map b64Char ?es"
    using es by (auto simp: filter_id_conv list_all_iff b64Char_props)
  moreover have vals: "map (\<lambda>x. b64Val (b64Char x)) ?es = map Some ?es"
    using es by (auto simp: list_all_iff b64Char_props)
  moreover have "b64Dec ?es = Some (map byteVal s)"
    by (rule b64Dec_b64Enc) (simp add: list_all_iff)
  moreover have "map (\<lambda>x. the (b64Val (b64Char x))) ?es = ?es"
    by (rule map_idI) (use vals in \<open>auto simp: map_eq_conv\<close>)
  ultimately show ?thesis
    by (simp add: base64Decode_def base64Encode_def Let_def list_all_iff comp_def)
qed

lemma base64Encode_inj: "base64Encode s = base64Encode t \<Longrightarrow> s = t"
  by (metis base64Decode_base64Encode option.inject)

lemma base64Encode_empty [simp]: "base64Encode s = [] \<longleftrightarrow> s = []"
  by (metis base64Encode_inj base64Encode_def b64Enc.simps(1) list.simps(8))

end
