(* ===== verification/Go_Utf8.thy ===== *)
theory Go_Utf8
  imports Go_Encoding
begin

text \<open>
  \<open>unicode/utf8\<close>: how many bytes the rune at the head of a byte string takes (none when the bytes
  are not valid UTF-8, where Go yields \<open>RuneError\<close> with width one), the encoding of a code
  point, and the strings that are valid UTF-8 throughout.
\<close>

definition byteIn :: "nat \<Rightarrow> nat \<Rightarrow> char \<Rightarrow> bool" where
  "byteIn lo hi c = (lo \<le> byteVal c \<and> byteVal c \<le> hi)"

abbreviation contByte :: "char \<Rightarrow> bool" where
  "contByte c \<equiv> byteIn 128 191 c"

text \<open>For each possible first byte, the ranges its continuation bytes must lie in (the \<open>first\<close>
  and \<open>acceptRanges\<close> tables of the package); \<open>None\<close> where no rune starts with that byte.\<close>

definition leadRanges :: "nat \<Rightarrow> (nat \<times> nat) list option" where
  "leadRanges b =
     (if b < 128 then Some []
      else if b < 194 then None
      else if b < 224 then Some [(128, 191)]
      else if b = 224 then Some [(160, 191), (128, 191)]
      else if b = 237 then Some [(128, 159), (128, 191)]
      else if b < 240 then Some [(128, 191), (128, 191)]
      else if b = 240 then Some [(144, 191), (128, 191), (128, 191)]
      else if b = 244 then Some [(128, 143), (128, 191), (128, 191)]
      else if b < 244 then Some [(128, 191), (128, 191), (128, 191)]
      else None)"

fun inRanges :: "(nat \<times> nat) list \<Rightarrow> string \<Rightarrow> bool" where
  "inRanges [] t = True"
| "inRanges ((lo, hi) # rs) [] = False"
| "inRanges ((lo, hi) # rs) (c # t) = (byteIn lo hi c \<and> inRanges rs t)"

fun utf8Size :: "string \<Rightarrow> nat" where
  "utf8Size [] = 0"
| "utf8Size (c # t) =
     (case leadRanges (byteVal c) of
        None \<Rightarrow> 0
      | Some rs \<Rightarrow> if inRanges rs t then Suc (length rs) else 0)"

declare utf8Size.simps(2) [simp del]

lemma utf8Size_ASCII [simp]: "byteVal c < 128 \<Longrightarrow> utf8Size (c # s) = 1"
  by (simp add: utf8Size.simps leadRanges_def)

lemma inRanges_length: "inRanges rs t \<Longrightarrow> length rs \<le> length t"
  by (induction rs t rule: inRanges.induct) auto

lemma inRanges_prefix: "inRanges rs t \<Longrightarrow> inRanges rs (take (length rs) t @ r)"
  by (induction rs t rule: inRanges.induct) auto

lemma utf8Size_le_length: "utf8Size s \<le> length s"
  by (cases s) (auto simp: utf8Size.simps dest: inRanges_length split: option.splits)

text \<open>The width depends only on the bytes it covers.\<close>

lemma utf8Size_prefix:
  assumes "utf8Size s = n" and "0 < n"
  shows "utf8Size (take n s @ r) = n"
  using assms
  by (cases s) (auto simp: utf8Size.simps inRanges_prefix split: option.splits if_splits)

lemma utf8Size_append: "utf8Size s \<noteq> 0 \<Longrightarrow> utf8Size (s @ t) = utf8Size s"
  using utf8Size_prefix [of s "utf8Size s" "drop (utf8Size s) s @ t"]
  by (metis append_assoc append_take_drop_id bot_nat_0.not_eq_extremum)

function validUtf8 :: "string \<Rightarrow> bool" where
  "validUtf8 s =
     (if s = [] then True
      else if utf8Size s = 0 then False
      else validUtf8 (drop (utf8Size s) s))"
  by pat_completeness auto
termination
  by (relation "measure length") auto

declare validUtf8.simps [simp del]

lemma validUtf8_Nil [simp]: "validUtf8 []"
  by (simp add: validUtf8.simps)

lemma validUtf8_ASCII [simp]: "byteVal c < 128 \<Longrightarrow> validUtf8 (c # s) = validUtf8 s"
  by (simp add: validUtf8.simps [of "c # s"])

lemma validUtf8_all_ASCII: "list_all (\<lambda>c. byteVal c < 128) s \<Longrightarrow> validUtf8 s"
  by (induction s) auto

lemma validUtf8_step:
  "validUtf8 s \<Longrightarrow> s \<noteq> [] \<Longrightarrow> utf8Size s \<noteq> 0 \<and> validUtf8 (drop (utf8Size s) s)"
  by (simp add: validUtf8.simps [of s] split: if_splits)

lemma validUtf8_append: "validUtf8 s \<Longrightarrow> validUtf8 t \<Longrightarrow> validUtf8 (s @ t)"
proof (induction s rule: validUtf8.induct)
  case (1 s)
  show ?case
  proof (cases "s = []")
    case False
    then have n: "utf8Size s \<noteq> 0" and tl: "validUtf8 (drop (utf8Size s) s)"
      using "1.prems" validUtf8_step by auto
    have "drop (utf8Size s) (s @ t) = drop (utf8Size s) s @ t"
      using utf8Size_le_length [of s] by simp
    then show ?thesis
      using "1.IH" [OF False n tl "1.prems"(2)] n
      by (simp add: validUtf8.simps [of "s @ t"] utf8Size_append)
  qed (use 1 in simp)
qed

text \<open>\<open>utf8.AppendRune\<close> for a code point below \<open>0x110000\<close> that is not a surrogate.\<close>

definition encodeRune :: "nat \<Rightarrow> string" where
  "encodeRune r =
     (if r < 128 then [char_of r]
      else if r < 2048 then [char_of (192 + r div 64), char_of (128 + r mod 64)]
      else if r < 65536 then
        [char_of (224 + r div 4096), char_of (128 + r div 64 mod 64), char_of (128 + r mod 64)]
      else [char_of (240 + r div 262144), char_of (128 + r div 4096 mod 64),
            char_of (128 + r div 64 mod 64), char_of (128 + r mod 64)])"

text \<open>The encoding of \<open>U+FFFD\<close>.\<close>

definition runeError :: string where
  "runeError = [CHR 0xEF, CHR 0xBF, CHR 0xBD]"

lemma byteVal_char_of [simp]: "n < 256 \<Longrightarrow> byteVal (char_of n) = n"
  by (simp add: byteVal_def of_char_of)

lemma encodeRune_byte [simp]: "byteVal c < 128 \<Longrightarrow> encodeRune (byteVal c) = [c]"
  by (simp add: encodeRune_def)

lemma validUtf8_runeError [simp]: "validUtf8 runeError"
  by (simp add: validUtf8.simps [of "CHR 0xEF # _"] runeError_def utf8Size.simps leadRanges_def
      byteIn_def byteVal_def)

lemma base64_digits: "(r::nat) = 64 * (r div 64) + r mod 64" "(r::nat) div 64 div 64 = r div 4096"
  "(r::nat) div 4096 div 64 = r div 262144"
  by (simp_all add: div_mult2_eq [symmetric])

lemma utf8Size_encodeRune:
  assumes "r < 1114112" and "r < 55296 \<or> 57344 \<le> r"
  shows "utf8Size (encodeRune r) = length (encodeRune r)"
proof -
  define p q where "p = r div 4096" and "q = r div 64"
  have q: "q = 64 * p + q mod 64"
    using base64_digits(1) [of q] base64_digits(2) [of r] by (simp add: p_def q_def)
  have r: "r = 64 * q + r mod 64" using base64_digits(1) [of r] by (simp add: q_def)
  have p: "p = 64 * (r div 262144) + p mod 64"
    using base64_digits(1) [of p] base64_digits(3) [of r] by (simp add: p_def)
  consider "r < 128" | "128 \<le> r" "r < 2048" | "2048 \<le> r" "r < 65536" | "65536 \<le> r"
    by linarith
  then show ?thesis
  proof cases
    case 1
    then show ?thesis by (simp add: encodeRune_def)
  next
    case 2
    then have "2 \<le> r div 64" "r div 64 < 32" by auto
    with 2 show ?thesis
      by (simp add: encodeRune_def utf8Size.simps leadRanges_def byteIn_def less_imp_le_nat)
  next
    case 3
    have b: "q mod 64 < 64" "r mod 64 < 64" by simp_all
    have "p < 16" using 3 by (simp add: p_def)
    moreover have "p = 0 \<Longrightarrow> 32 \<le> q mod 64" using q r 3 b by linarith
    moreover have "p = 13 \<Longrightarrow> q mod 64 < 32" using q r assms b by linarith
    ultimately show ?thesis
      using 3 b unfolding encodeRune_def p_def [symmetric] q_def [symmetric]
      by (auto simp: utf8Size.simps leadRanges_def byteIn_def)
  next
    case 4
    define a where "a = r div 262144"
    have b: "p mod 64 < 64" "q mod 64 < 64" "r mod 64 < 64" by simp_all
    have pb: "16 \<le> p" "p < 272" using assms 4 by (auto simp: p_def)
    have "a < 5" using p pb b by (simp add: a_def)
    moreover have "a = 0 \<Longrightarrow> 16 \<le> p mod 64" using p pb by (simp add: a_def)
    moreover have "a = 4 \<Longrightarrow> p mod 64 < 16" using p pb by (simp add: a_def)
    ultimately show ?thesis
      using 4 b
      unfolding encodeRune_def p_def [symmetric] q_def [symmetric] a_def [symmetric]
      by (auto simp: utf8Size.simps leadRanges_def byteIn_def)
  qed
qed

lemma encodeRune_nonempty: "encodeRune r \<noteq> []"
  by (simp add: encodeRune_def)

lemma validUtf8_encodeRune:
  assumes "r < 1114112" and "r < 55296 \<or> 57344 \<le> r"
  shows "validUtf8 (encodeRune r)"
  using utf8Size_encodeRune [OF assms] encodeRune_nonempty [of r]
  by (simp add: validUtf8.simps [of "encodeRune r"])

section \<open>Trimming\<close>

lemma inRanges_cont:
  "inRanges rs (p @ c # t) \<Longrightarrow> (\<forall>(lo, hi)\<in>set rs. 128 \<le> lo \<and> hi \<le> 191) \<Longrightarrow> \<not> contByte c \<Longrightarrow>
   length rs \<le> length p"
  by (induction rs p rule: inRanges.induct) (auto simp: byteIn_def)

lemma leadRanges_cont: "leadRanges b = Some rs \<Longrightarrow> \<forall>(lo, hi)\<in>set rs. 128 \<le> lo \<and> hi \<le> 191"
  by (auto simp: leadRanges_def split: if_splits)

lemma utf8Size_before:
  "utf8Size (a # p @ c # t) \<noteq> 0 \<Longrightarrow> \<not> contByte c \<Longrightarrow> utf8Size (a # p @ c # t) \<le> Suc (length p)"
  using inRanges_cont [of _ p c t] leadRanges_cont
  by (auto simp: utf8Size.simps split: option.splits if_splits)

text \<open>Cutting a valid string before a byte that starts a rune leaves a valid string.\<close>

lemma inRanges_take: "inRanges rs (p @ t) \<Longrightarrow> length rs \<le> length p \<Longrightarrow> inRanges rs p"
  by (induction rs p rule: inRanges.induct) auto

lemma validUtf8_cut: "validUtf8 (p @ c # t) \<Longrightarrow> \<not> contByte c \<Longrightarrow> validUtf8 p"
proof (induction p rule: length_induct)
  case (1 p)
  show ?case
  proof (cases p)
    case (Cons a q)
    let ?n = "utf8Size (a # q @ c # t)"
    have n: "?n \<noteq> 0" and v: "validUtf8 (drop ?n (a # q @ c # t))"
      using validUtf8_step [OF "1.prems"(1)] Cons by auto
    have le: "?n \<le> length p" using utf8Size_before [OF n "1.prems"(2)] Cons by simp
    have "utf8Size p = ?n"
      using n le Cons by (auto simp: utf8Size.simps split: option.splits if_splits dest: inRanges_take)
    moreover have "validUtf8 (drop ?n p)"
      using 1 v le n Cons by (metis append_Cons drop_append diff_is_0_eq drop0 length_drop diff_less length_greater_0_conv list.discI neq0_conv)
    ultimately show ?thesis using n Cons by (simp add: validUtf8.simps [of "a # q"])
  qed simp
qed

lemma goSpaces_runes: "list_all (\<lambda>w. utf8Size w = length w \<and> \<not> contByte (hd w)) goSpaces"
  by (simp add: goSpaces_def utf8Size.simps leadRanges_def byteIn_def byteVal_def)

lemma validUtf8_stripLeft: "validUtf8 s \<Longrightarrow> validUtf8 (trimLeftSpace s)"
  unfolding trimLeftSpace_def
proof (induction goSpaces s rule: stripBy.induct)
  case (1 s)
  show ?case
  proof (cases "findPrefix goSpaces s")
    case (Some w)
    then obtain r where w: "w \<in> set goSpaces" "w \<noteq> []" "s = w @ r" using findPrefix_SomeD by blast
    then have "utf8Size w = length w" using goSpaces_runes by (auto simp: list_all_iff)
    then have "utf8Size s = length w" using utf8Size_append [of w r] w by simp
    then have "validUtf8 (drop (length w) s)" using validUtf8_step [OF "1.prems"] w by simp
    then show ?thesis using "1.hyps" [OF Some] by (simp add: stripBy.simps [of goSpaces s] Some)
  qed (use 1 in \<open>simp add: stripBy_None\<close>)
qed

lemma validUtf8_stripRight: "validUtf8 s \<Longrightarrow> validUtf8 (trimRightSpace s)"
proof -
  have "validUtf8 (rev u) \<Longrightarrow> validUtf8 (rev (stripBy (map rev goSpaces) u))" for u
  proof (induction "map rev goSpaces" u rule: stripBy.induct)
    case (1 u)
    show ?case
    proof (cases "findPrefix (map rev goSpaces) u")
      case (Some w)
      then obtain r where w: "w \<in> set (map rev goSpaces)" "w \<noteq> []" "u = w @ r" using findPrefix_SomeD by blast
      then obtain c t where ct: "rev w = c # t" by (cases "rev w") auto
      have "rev w \<in> set goSpaces" using w by auto
      then have "\<not> contByte c" using ct goSpaces_runes by (auto simp: list_all_iff)
      then have "validUtf8 (rev r)" using validUtf8_cut [of "rev r" c t] "1.prems" w ct by simp
      moreover have "stripBy (map rev goSpaces) u = stripBy (map rev goSpaces) r"
        using Some w(3) by (subst stripBy.simps) simp
      ultimately show ?thesis using "1.hyps" [OF Some] w(3) by simp
    qed (use 1 in \<open>simp add: stripBy_None\<close>)
  qed
  then show "validUtf8 s \<Longrightarrow> validUtf8 (trimRightSpace s)" by (simp add: trimRightSpace_def)
qed

lemma validUtf8_TrimSpace [simp]: "validUtf8 s \<Longrightarrow> validUtf8 (TrimSpace s)"
  by (simp add: TrimSpace_def validUtf8_stripLeft validUtf8_stripRight)

end
