(* ===== verification/Go_Float.thy ===== *)
theory Go_Float
  imports Go_Strings
begin

text \<open>
  JSON number tokens, and what becomes of one that is decoded into a Go \<open>any\<close> and encoded again:
  \<open>strconv.ParseFloat\<close> rounds the literal to the nearest \<open>float64\<close> (ties to even; an overflow is an
  error) and \<open>encoding/json\<close> prints the shortest decimal that reads back as the same value, in
  positional or exponent form.  A number inside a decoded value is represented by that printed
  text, so two decoded numbers are equal exactly when their texts are.
\<close>

section \<open>Number tokens\<close>

definition isDigit :: "char \<Rightarrow> bool" where
  "isDigit c \<longleftrightarrow> digitVal c \<noteq> None"

type_synonym scan = "(string \<times> string) option"

definition scanSign :: "string \<Rightarrow> string \<times> string" where
  "scanSign s = (case s of c # r \<Rightarrow> if c = CHR ''-'' then ([c], r) else ([], s) | [] \<Rightarrow> ([], s))"

definition scanInt :: "string \<Rightarrow> scan" where
  "scanInt s = (case s of
      [] \<Rightarrow> None
    | c # r \<Rightarrow> if c = CHR ''0'' then Some ([c], r)
               else if isDigit c then Some (takeWhile isDigit s, dropWhile isDigit s)
               else None)"

definition scanFrac :: "string \<Rightarrow> scan" where
  "scanFrac s = (case s of
      [] \<Rightarrow> Some ([], s)
    | c # r \<Rightarrow> if c = CHR ''.''
               then if takeWhile isDigit r = [] then None
                    else Some (c # takeWhile isDigit r, dropWhile isDigit r)
               else Some ([], s))"

definition scanExpSign :: "string \<Rightarrow> string \<times> string" where
  "scanExpSign s = (case s of
      [] \<Rightarrow> ([], s)
    | c # r \<Rightarrow> if c = CHR ''+'' \<or> c = CHR ''-'' then ([c], r) else ([], s))"

definition scanExp :: "string \<Rightarrow> scan" where
  "scanExp s = (case s of
      [] \<Rightarrow> Some ([], s)
    | c # r \<Rightarrow> if c = CHR ''e'' \<or> c = CHR ''E''
               then (let (sg, r') = scanExpSign r in
                     if takeWhile isDigit r' = [] then None
                     else Some (c # sg @ takeWhile isDigit r', dropWhile isDigit r'))
               else Some ([], s))"

text \<open>The four parts of a number token and the rest of the input.\<close>

definition scanParts :: "string \<Rightarrow> (string \<times> string \<times> string \<times> string \<times> string) option" where
  "scanParts s =
     (let (sg, s1) = scanSign s in
      case scanInt s1 of None \<Rightarrow> None | Some (i, s2) \<Rightarrow>
      (case scanFrac s2 of None \<Rightarrow> None | Some (f, s3) \<Rightarrow>
       (case scanExp s3 of None \<Rightarrow> None | Some (e, s4) \<Rightarrow> Some (sg, i, f, e, s4))))"

definition scanNumber :: "string \<Rightarrow> scan" where
  "scanNumber s = (case scanParts s of
      None \<Rightarrow> None | Some (sg, i, f, e, r) \<Rightarrow> Some (sg @ i @ f @ e, r))"

definition isNumLit :: "string \<Rightarrow> bool" where
  "isNumLit s \<longleftrightarrow> scanNumber s = Some (s, [])"

definition numStop :: "string \<Rightarrow> bool" where
  "numStop r \<longleftrightarrow> (case r of [] \<Rightarrow> True | c # _ \<Rightarrow> \<not> isDigit c \<and> c \<notin> set ''.eE+-'')"

lemma digit_run_append:
  assumes "numStop r"
  shows "takeWhile isDigit (s @ r) = takeWhile isDigit s"
    and "dropWhile isDigit (s @ r) = dropWhile isDigit s @ r"
  using assms by (induction s) (auto simp: numStop_def split: list.splits)

lemma scanInt_append:
  "scanInt s = Some (t, u) \<Longrightarrow> numStop r \<Longrightarrow> scanInt (s @ r) = Some (t, u @ r)"
  by (auto simp: scanInt_def digit_run_append split: list.splits if_splits)

lemma scanFrac_append:
  "scanFrac s = Some (t, u) \<Longrightarrow> numStop r \<Longrightarrow> scanFrac (s @ r) = Some (t, u @ r)"
  by (cases s; cases r)
    (auto simp: scanFrac_def numStop_def digit_run_append split: if_splits)

lemma scanExp_append:
  assumes "scanExp s = Some (t, u)" and r: "numStop r"
  shows "scanExp (s @ r) = Some (t, u @ r)"
proof (cases s)
  case Nil
  with assms show ?thesis
    by (cases r) (auto simp: scanExp_def numStop_def)
next
  case (Cons c s')
  obtain sg s'' where sg: "scanExpSign s' = (sg, s'')" by fastforce
  have "s' \<noteq> [] \<Longrightarrow> scanExpSign (s' @ r) = (sg, s'' @ r)"
    using sg by (cases s') (auto simp: scanExpSign_def split: if_splits)
  moreover have "s' = [] \<Longrightarrow> s'' = []" using sg by (auto simp: scanExpSign_def)
  ultimately show ?thesis
    using assms Cons sg
    by (cases "s' = []") (auto simp: scanExp_def digit_run_append split: if_splits)
qed

lemma scanParts_append:
  assumes "scanParts s = Some (sg, i, f, e, u)" and "numStop r"
  shows "scanParts (s @ r) = Some (sg, i, f, e, u @ r)"
proof -
  have "s \<noteq> []" using assms by (auto simp: scanParts_def scanSign_def scanInt_def)
  then have "\<exists>s0 s1. scanSign s = (s0, s1) \<and> scanSign (s @ r) = (s0, s1 @ r)"
    by (cases s) (auto simp: scanSign_def)
  then obtain s0 s1 where "scanSign s = (s0, s1)" and "scanSign (s @ r) = (s0, s1 @ r)"
    by blast
  then show ?thesis
    using assms
    by (auto simp: scanParts_def scanInt_append scanFrac_append scanExp_append Let_def
        split: option.splits prod.splits)
qed

lemma scanNumber_append:
  assumes "isNumLit s" and "numStop r"
  shows "scanNumber (s @ r) = Some (s, r)"
proof -
  obtain sg i f e where p: "scanParts s = Some (sg, i, f, e, [])" and "s = sg @ i @ f @ e"
    using assms(1) by (auto simp: isNumLit_def scanNumber_def split: option.splits)
  then show ?thesis using scanParts_append [OF p assms(2)] by (simp add: scanNumber_def)
qed

section \<open>Rounding to a 64-bit float\<close>

text \<open>A finite float is its sign, mantissa and binary exponent.\<close>

type_synonym float64 = "bool \<times> nat \<times> int"

fun bitLen :: "nat \<Rightarrow> nat" where
  "bitLen n = (if n = 0 then 0 else Suc (bitLen (n div 2)))"

declare bitLen.simps [simp del]

text \<open>Scale a positive fraction by a power of a base, keeping numerator and denominator integral.\<close>

definition scaleBy :: "nat \<Rightarrow> int \<Rightarrow> nat \<times> nat \<Rightarrow> nat \<times> nat" where
  "scaleBy b e nd = (if 0 \<le> e then (fst nd * b ^ nat e, snd nd) else (fst nd, snd nd * b ^ nat (- e)))"

definition roundHalfEven :: "nat \<times> nat \<Rightarrow> nat" where
  "roundHalfEven nd =
     (let q = fst nd div snd nd; r = fst nd mod snd nd in
      if 2 * r < snd nd \<or> (2 * r = snd nd \<and> even q) then q else Suc q)"

text \<open>The exponent of the leading bit of \<open>n / d\<close>.\<close>

definition leadExp :: "nat \<times> nat \<Rightarrow> int" where
  "leadExp nd =
     (let k = int (bitLen (fst nd)) - int (bitLen (snd nd)); (n, d) = scaleBy 2 (- k) nd
      in if d \<le> n then k else k - 1)"

definition roundFloat :: "bool \<Rightarrow> nat \<times> nat \<Rightarrow> float64 option" where
  "roundFloat neg nd =
     (if fst nd = 0 then Some (neg, 0, 0)
      else
        let e = max (leadExp nd - 52) (- 1074);
            m = roundHalfEven (scaleBy 2 (- e) nd);
            (m', e') = (if m = 2 ^ 53 then (2 ^ 52, e + 1) else (m, e))
        in if m' = 0 then Some (neg, 0, 0)
           else if 971 < e' then None
           else Some (neg, m', e'))"

text \<open>\<open>strconv.ParseFloat\<close> on a number token: \<open>None\<close> is the range error.\<close>

definition expValue :: "string \<Rightarrow> int" where
  "expValue e =
     (case e of
        [] \<Rightarrow> 0
      | _ # r \<Rightarrow>
          (let (sg, ds) = scanExpSign r; n = int (the (parseDigits 0 ds))
           in if sg = ''-'' then - n else n))"

definition ParseFloat :: "string \<Rightarrow> float64 option" where
  "ParseFloat s =
     (case scanParts s of
        None \<Rightarrow> None
      | Some (sg, i, f, e, _) \<Rightarrow>
          roundFloat (sg \<noteq> [])
            (scaleBy 10 (expValue e - int (length (tl f))) (the (parseDigits 0 (i @ tl f)), 1)))"

section \<open>Shortest decimal text\<close>

definition stripZeros :: "string \<Rightarrow> string" where
  "stripZeros ds = rev (dropWhile (\<lambda>c. c = CHR ''0'') (rev ds))"

text \<open>\<open>%f\<close> and \<open>%e\<close> of the digits \<open>0.ds * 10 ^ p\<close>; \<open>encoding/json\<close> drops the leading zero of a
  one-digit negative exponent.\<close>

definition formatF :: "string \<Rightarrow> int \<Rightarrow> string" where
  "formatF ds p =
     (if p \<le> 0 then ''0.'' @ replicate (nat (- p)) CHR ''0'' @ ds
      else if int (length ds) \<le> p then ds @ replicate (nat p - length ds) CHR ''0''
      else take (nat p) ds @ ''.'' @ drop (nat p) ds)"

definition formatE :: "string \<Rightarrow> int \<Rightarrow> string" where
  "formatE ds p =
     take 1 ds @ (if tl ds = [] then [] else ''.'' @ tl ds) @ ''e''
       @ (if p - 1 < 0 then ''-'' else ''+'') @ FormatUint (nat \<bar>p - 1\<bar>)"

definition formatDigits :: "bool \<Rightarrow> nat \<Rightarrow> int \<Rightarrow> string" where
  "formatDigits neg d k =
     (let ds = FormatUint d; p = int (length ds) + k; t = stripZeros ds
      in (if neg then ''-'' else []) @ (if - 6 < p \<and> p \<le> 21 then formatF t p else formatE t p))"

text \<open>The decimals of \<open>n\<close> significant digits next to \<open>m * 2 ^ e\<close>, the nearer one first.\<close>

definition decimalExp :: "nat \<times> nat \<Rightarrow> int" where
  "decimalExp nd =
     (if snd nd \<le> fst nd then int (length (FormatUint (fst nd div snd nd)))
      else 1 - int (length (FormatUint ((snd nd + fst nd - 1) div fst nd - 1))))"

definition candidates :: "float64 \<Rightarrow> nat \<Rightarrow> string list" where
  "candidates f n =
     (case f of (neg, m, e) \<Rightarrow>
        let nd = scaleBy 2 e (m, 1);
            k = decimalExp nd - int n;
            (a, b) = scaleBy 10 (- k) nd;
            q = a div b
        in if 2 * (a mod b) \<le> b then [formatDigits neg q k, formatDigits neg (Suc q) k]
           else [formatDigits neg (Suc q) k, formatDigits neg q k])"

definition shortestText :: "float64 \<Rightarrow> string option" where
  "shortestText f =
     (case f of (neg, m, e) \<Rightarrow>
        if m = 0 then Some (if neg then ''-0'' else ''0'')
        else find (\<lambda>t. isNumLit t \<and> ParseFloat t = Some f) (concat (map (candidates f) [1..<18])))"

text \<open>
  Decode a number token into a Go \<open>any\<close> and print it again; \<open>None\<close> when it is out of range.
  Seventeen significant digits always identify a \<open>float64\<close>, so the search finds a text and the
  last alternative, which keeps the function total, is not taken.
\<close>

definition canonNum :: "string \<Rightarrow> string option" where
  "canonNum s =
     (case ParseFloat s of
        None \<Rightarrow> None
      | Some f \<Rightarrow> Some (case shortestText f of Some t \<Rightarrow> t | None \<Rightarrow> s))"

lemma zero_texts:
  "isNumLit ''0''" "isNumLit ''-0''"
  "ParseFloat ''0'' = Some (False, 0, 0)" "ParseFloat ''-0'' = Some (True, 0, 0)"
  by (simp_all add: isNumLit_def scanNumber_def ParseFloat_def scanParts_def scanSign_def
      scanInt_def scanFrac_def scanExp_def isDigit_def digitVal_def expValue_def scaleBy_def
      roundFloat_def)

lemma roundFloat_zero: "roundFloat b nd = Some (neg, 0, e) \<Longrightarrow> neg = b \<and> e = 0"
  by (auto simp: roundFloat_def Let_def split: if_splits)

lemma ParseFloat_zero: "ParseFloat s = Some (neg, 0, e) \<Longrightarrow> e = 0"
  by (auto simp: ParseFloat_def dest: roundFloat_zero split: option.splits)

lemma shortestText_parses:
  assumes "shortestText f = Some t" and "ParseFloat s = Some f"
  shows "isNumLit t \<and> ParseFloat t = Some f"
proof (cases f)
  case (fields neg m e)
  show ?thesis
  proof (cases "m = 0")
    case True
    then have "e = 0" using assms(2) fields ParseFloat_zero by blast
    with True assms(1) fields show ?thesis
      by (auto simp: shortestText_def zero_texts split: if_splits)
  next
    case False
    with assms(1) fields show ?thesis
      by (auto simp: shortestText_def find_Some_iff)
  qed
qed

text \<open>Encoding and decoding a decoded number again changes nothing.\<close>

lemma canonNum_text:
  assumes "canonNum s = Some t"
  shows "t = s \<or> (isNumLit t \<and> canonNum t = Some t)"
proof -
  obtain f where f: "ParseFloat s = Some f"
    and t: "t = (case shortestText f of Some t \<Rightarrow> t | None \<Rightarrow> s)"
    using assms by (auto simp: canonNum_def split: option.splits)
  show ?thesis
  proof (cases "shortestText f")
    case (Some u)
    with t f have "isNumLit t \<and> ParseFloat t = Some f"
      by (auto dest: shortestText_parses)
    with Some t show ?thesis by (simp add: canonNum_def)
  qed (use t in simp)
qed

lemma canonNum_idem: "canonNum s = Some t \<Longrightarrow> canonNum t = Some t"
  using canonNum_text by blast

lemma canonNum_isNumLit: "canonNum s = Some t \<Longrightarrow> isNumLit s \<Longrightarrow> isNumLit t"
  using canonNum_text by blast

end
