(* ===== verification/Go_Json.thy ===== *)
theory Go_Json
  imports Go_Utf8 Go_Float "HOL-Library.List_Lexorder" "HOL-Library.Char_ord"
begin

text \<open>
  \<open>encoding/json\<close> as the program uses it: \<open>Marshal\<close> of strings, numbers, maps and slices (HTML
  escaping on, map keys in order) and \<open>Unmarshal\<close>, in its two stages: the syntax check, which
  yields the document as a tree with its members in source order, and the decoding of that tree
  into a Go \<open>any\<close>.  The main result is the round trip: what \<open>Marshal\<close> prints for a value that
  \<open>Unmarshal\<close> can produce is read back as that same value, within the nesting limit of the
  decoder.
\<close>

section \<open>Values\<close>

text \<open>A number is its literal in a parsed document and its printed text in a Go \<open>any\<close>; an object
  is its members in source order in a document and its entries by ascending key in a Go map.\<close>

datatype json = JNull | JBool bool | JNum string | JStr string
  | JArr "json list" | JObj "(string \<times> json) list"

type_synonym gomap = "(string \<times> json) list"

fun mapPut :: "string \<Rightarrow> json \<Rightarrow> gomap \<Rightarrow> gomap" where
  "mapPut k v [] = [(k, v)]"
| "mapPut k v ((k', v') # m) =
     (if k < k' then (k, v) # (k', v') # m
      else if k = k' then (k, v) # m
      else (k', v') # mapPut k v m)"

definition mapGet :: "gomap \<Rightarrow> string \<Rightarrow> json option" where
  "mapGet m k = map_of m k"

definition sortedMap :: "gomap \<Rightarrow> bool" where
  "sortedMap m = sorted_wrt (<) (map fst m)"

lemma mapGet_mapPut [simp]: "mapGet (mapPut k v m) k' = (if k' = k then Some v else mapGet m k')"
  by (induction k v m rule: mapPut.induct) (auto simp: mapGet_def)

lemma set_mapPut: "set (map fst (mapPut k v m)) = insert k (set (map fst m))"
  by (induction k v m rule: mapPut.induct) auto

lemma sortedMap_mapPut: "sortedMap m \<Longrightarrow> sortedMap (mapPut k v m)"
  unfolding sortedMap_def
proof (induction k v m rule: mapPut.induct)
  case (2 k v k' v' m)
  then show ?case using set_mapPut [of k v m] by (auto simp: sorted_wrt_append)
qed simp

text \<open>An entry with a key above all others goes to the end.\<close>

lemma mapPut_last: "(\<And>k'. k' \<in> set (map fst m) \<Longrightarrow> k' < k) \<Longrightarrow> mapPut k v m = m @ [(k, v)]"
proof (induction k v m rule: mapPut.induct)
  case (2 k v k' v' m)
  then have "k' < k" by simp
  with 2 show ?case by (auto dest: order.asym)
qed simp

section \<open>Strings\<close>

definition hex4 :: "nat \<Rightarrow> string" where
  "hex4 n = hexByte (n div 256) @ hexByte (n mod 256)"

text \<open>The bytes below \<open>0x80\<close> that \<open>appendString\<close> copies: printable, and not a
  quote, a backslash, \<open><\<close>, \<open>>\<close> or \<open>&\<close>.\<close>

definition jsonSafe :: "char \<Rightarrow> bool" where
  "jsonSafe c \<longleftrightarrow> 32 \<le> byteVal c \<and> byteVal c < 128 \<and> c \<notin> {CHR 0x22, CHR 0x5C, CHR 0x3C, CHR 0x3E, CHR 0x26}"

definition escapeByte :: "char \<Rightarrow> string" where
  "escapeByte c =
     (if jsonSafe c then [c]
      else CHR 0x5C #
        (if c = CHR 0x22 \<or> c = CHR 0x5C then [c]
         else if c = CHR 0x08 then ''b''
         else if c = CHR 0x0C then ''f''
         else if c = CHR 0x0A then ''n''
         else if c = CHR 0x0D then ''r''
         else if c = CHR 0x09 then ''t''
         else ''u'' @ hex4 (byteVal c)))"

function encodeStr :: "string \<Rightarrow> string" where
  "encodeStr s = (case s of
      [] \<Rightarrow> []
    | c # t \<Rightarrow>
        if byteVal c < 128 then escapeByte c @ encodeStr t
        else if utf8Size s = 0 then CHR 0x5C # ''ufffd'' @ encodeStr t
        else if take 3 s = [CHR 0xE2, CHR 0x80, CHR 0xA8] then CHR 0x5C # ''u2028'' @ encodeStr (drop 3 s)
        else if take 3 s = [CHR 0xE2, CHR 0x80, CHR 0xA9] then CHR 0x5C # ''u2029'' @ encodeStr (drop 3 s)
        else take (utf8Size s) s @ encodeStr (drop (utf8Size s) s))"
  by pat_completeness auto
termination
  by (relation "measure length") auto

declare encodeStr.simps [simp del]

definition quoteStr :: "string \<Rightarrow> string" where
  "quoteStr s = CHR 0x22 # encodeStr s @ [CHR 0x22]"

definition hexVal :: "char \<Rightarrow> nat option" where
  "hexVal c =
     (let n = byteVal c in
      if 48 \<le> n \<and> n \<le> 57 then Some (n - 48)
      else if 97 \<le> n \<and> n \<le> 102 then Some (n - 87)
      else if 65 \<le> n \<and> n \<le> 70 then Some (n - 55)
      else None)"

fun getu4 :: "string \<Rightarrow> (nat \<times> string) option" where
  "getu4 (a # b # c # d # r) =
     (case (hexVal a, hexVal b, hexVal c, hexVal d) of
        (Some w, Some x, Some y, Some z) \<Rightarrow> Some (4096 * w + 256 * x + 16 * y + z, r)
      | _ \<Rightarrow> None)"
| "getu4 _ = None"

definition surrogate :: "nat \<Rightarrow> bool" where
  "surrogate r \<longleftrightarrow> 55296 \<le> r \<and> r < 57344"

text \<open>An escape sequence, after its backslash: the bytes it stands for and the rest.  A surrogate
  pair is one rune; a lone surrogate is \<open>U+FFFD\<close>.\<close>

definition decodeU :: "string \<Rightarrow> (string \<times> string) option" where
  "decodeU s =
     (case getu4 s of
        None \<Rightarrow> None
      | Some (r, rest) \<Rightarrow>
          if surrogate r then
            (case rest of
               x # y # rest' \<Rightarrow>
                 if x = CHR 0x5C \<and> y = CHR ''u'' then
                   (case getu4 rest' of
                      Some (r1, rest'') \<Rightarrow>
                        if r < 56320 \<and> 56320 \<le> r1 \<and> r1 < 57344
                        then Some (encodeRune (65536 + (r - 55296) * 1024 + (r1 - 56320)), rest'')
                        else Some (runeError, rest)
                    | None \<Rightarrow> Some (runeError, rest))
                 else Some (runeError, rest)
             | _ \<Rightarrow> Some (runeError, rest))
          else Some (encodeRune r, rest))"

definition decodeEscape :: "string \<Rightarrow> (string \<times> string) option" where
  "decodeEscape s = (case s of
      [] \<Rightarrow> None
    | c # r \<Rightarrow>
        if c = CHR 0x22 \<or> c = CHR 0x5C \<or> c = CHR ''/'' then Some ([c], r)
        else if c = CHR ''b'' then Some ([CHR 0x08], r)
        else if c = CHR ''f'' then Some ([CHR 0x0C], r)
        else if c = CHR ''n'' then Some ([CHR 0x0A], r)
        else if c = CHR ''r'' then Some ([CHR 0x0D], r)
        else if c = CHR ''t'' then Some ([CHR 0x09], r)
        else if c = CHR ''u'' then decodeU r
        else None)"

lemma getu4_shorter: "getu4 s = Some (n, r) \<Longrightarrow> length r < length s"
  by (induction s rule: getu4.induct) (auto split: option.splits)

lemma decodeU_shorter: "decodeU s = Some (b, r) \<Longrightarrow> length r < length s"
  by (auto simp: decodeU_def dest!: getu4_shorter split: option.splits if_splits list.splits)

lemma decodeEscape_shorter: "decodeEscape s = Some (b, r) \<Longrightarrow> length r < length s"
  by (auto simp: decodeEscape_def dest: decodeU_shorter split: list.splits if_splits)

definition prepend :: "string \<Rightarrow> (string \<times> string) option \<Rightarrow> (string \<times> string) option" where
  "prepend b x = map_option (\<lambda>(t, r). (b @ t, r)) x"

text \<open>A string body, after its opening quote: the decoded bytes and what follows the closing one.\<close>

function decodeStr :: "string \<Rightarrow> (string \<times> string) option" where
  "decodeStr s = (case s of
      [] \<Rightarrow> None
    | c # t \<Rightarrow>
        if c = CHR 0x22 then Some ([], t)
        else if c = CHR 0x5C then
          (case decodeEscape t of None \<Rightarrow> None | Some (b, r) \<Rightarrow> prepend b (decodeStr r))
        else if byteVal c < 32 then None
        else if utf8Size s = 0 then prepend runeError (decodeStr t)
        else prepend (take (utf8Size s) s) (decodeStr (drop (utf8Size s) s)))"
  by pat_completeness auto
termination
  by (relation "measure length") (auto dest: decodeEscape_shorter)

declare decodeStr.simps [simp del]

text \<open>The ways a string body can be read.\<close>

lemma decodeStr_cases [consumes 1, case_names quote escape invalid raw]:
  assumes "decodeStr s = Some (t, r)"
  obtains "s = CHR 0x22 # r" "t = []"
  | u b r' t' where "s = CHR 0x5C # u" "decodeEscape u = Some (b, r')"
      "decodeStr r' = Some (t', r)" "t = b @ t'"
  | c u t' where "s = c # u" "utf8Size s = 0" "decodeStr u = Some (t', r)" "t = runeError @ t'"
  | t' where "s \<noteq> []" "utf8Size s \<noteq> 0" "decodeStr (drop (utf8Size s) s) = Some (t', r)"
      "t = take (utf8Size s) s @ t'"
proof (cases s)
  case Nil
  with assms show ?thesis by (simp add: decodeStr.simps)
next
  case (Cons c u)
  let ?n = "utf8Size (c # u)"
  have "decodeStr (c # u) =
      (if c = CHR 0x22 then Some ([], u)
       else if c = CHR 0x5C then
         (case decodeEscape u of None \<Rightarrow> None | Some (b, r) \<Rightarrow> prepend b (decodeStr r))
       else if byteVal c < 32 then None
       else if ?n = 0 then prepend runeError (decodeStr u)
       else prepend (take ?n (c # u)) (decodeStr (drop ?n (c # u))))"
    by (subst decodeStr.simps) (simp only: list.case)
  with assms Cons that show ?thesis
    by (simp add: prepend_def split: if_splits option.splits prod.splits) blast+
qed

subsection \<open>Round trip of a string\<close>

lemma hexVal_table: "map hexVal ''0123456789abcdef'' = map Some [0..<16]"
  by (simp add: hexVal_def byteVal_def upt_conv_Cons)

lemma hexVal_hexChar [simp]: "d < 16 \<Longrightarrow> hexVal (hexChar d) = Some d"
  using hexVal_table nth_map [of d "''0123456789abcdef''" hexVal] by (simp add: hexChar_def)

lemma getu4_hex4 [simp]: "n < 65536 \<Longrightarrow> getu4 (hex4 n @ r) = Some (n, r)"
proof -
  assume n: "n < 65536"
  define h l where "h = n div 256" and "l = n mod 256"
  have "h < 256" "l < 256" using n by (auto simp: h_def l_def)
  moreover have "n = 256 * h + l" by (simp add: h_def l_def)
  moreover have "4096 * (h div 16) + 256 * (h mod 16) = 256 * h"
    using mult_div_mod_eq [of 16 h] by linarith
  moreover have "16 * (l div 16) + l mod 16 = l" by simp
  ultimately show ?thesis
    unfolding hex4_def h_def [symmetric] l_def [symmetric] by (simp add: hexByte_def)
qed

lemma hex4_small: "n < 128 \<Longrightarrow> \<not> surrogate n"
  by (simp add: surrogate_def)

lemma decodeStr_quote [simp]: "decodeStr (CHR 0x22 # r) = Some ([], r)"
  by (simp add: decodeStr.simps [of "CHR 0x22 # r"])

lemma decodeStr_escape:
  "decodeStr (CHR 0x5C # t) =
     (case decodeEscape t of None \<Rightarrow> None | Some (b, r) \<Rightarrow> prepend b (decodeStr r))"
  by (simp add: decodeStr.simps [of "CHR 0x5C # t"])

lemma decodeStr_raw:
  assumes "utf8Size (c # t) \<noteq> 0" and "c \<noteq> CHR 0x22" "c \<noteq> CHR 0x5C" "32 \<le> byteVal c"
  shows "decodeStr (c # t @ r) =
    prepend (take (utf8Size (c # t)) (c # t)) (decodeStr (drop (utf8Size (c # t)) (c # t) @ r))"
proof -
  have "utf8Size (c # t @ r) = utf8Size (c # t)"
    using utf8Size_append [of "c # t" r] assms by simp
  moreover have "utf8Size (c # t) \<le> length (c # t)" by (rule utf8Size_le_length)
  moreover obtain n where "utf8Size (c # t) = Suc n" using assms(1) not0_implies_Suc by blast
  ultimately show ?thesis
    using assms by (simp add: decodeStr.simps [of "c # t @ r"])
qed

lemma decodeStr_escapeByte:
  assumes "byteVal c < 128"
  shows "decodeStr (escapeByte c @ r) = prepend [c] (decodeStr r)"
proof (cases "jsonSafe c")
  case True
  then show ?thesis
    using assms decodeStr_raw [of c "[]" r] by (simp add: escapeByte_def jsonSafe_def)
next
  case False
  have u: "decodeEscape (CHR ''u'' # hex4 (byteVal c) @ r) = Some ([c], r)"
    using assms by (simp add: decodeEscape_def decodeU_def hex4_small)
  consider (q) "c = CHR 0x22 \<or> c = CHR 0x5C"
    | (s) "c = CHR 0x08 \<or> c = CHR 0x0C \<or> c = CHR 0x0A \<or> c = CHR 0x0D \<or> c = CHR 0x09"
    | (o) "c \<notin> {CHR 0x22, CHR 0x5C, CHR 0x08, CHR 0x0C, CHR 0x0A, CHR 0x0D, CHR 0x09}"
    by blast
  then show ?thesis
  proof cases
    case q
    with False show ?thesis
      by (elim disjE; simp add: escapeByte_def decodeStr_escape) (simp_all add: decodeEscape_def)
  next
    case s
    with False show ?thesis
      by (elim disjE; simp add: escapeByte_def decodeStr_escape) (simp_all add: decodeEscape_def)
  next
    case o
    with False u show ?thesis by (simp add: escapeByte_def decodeStr_escape)
  qed
qed

lemma decodeEscape_lineSep:
  "decodeEscape (''u2028'' @ r) = Some ([CHR 0xE2, CHR 0x80, CHR 0xA8], r)"
  "decodeEscape (''u2029'' @ r) = Some ([CHR 0xE2, CHR 0x80, CHR 0xA9], r)"
  by (simp_all add: decodeEscape_def decodeU_def hexVal_def byteVal_def surrogate_def
      encodeRune_def char_of_def bit_iff_odd)

lemma prepend_Some [simp]: "prepend b (Some (t, r)) = Some (b @ t, r)"
  by (simp add: prepend_def)

lemma utf8Size_lineSep: "take 3 s = [CHR 0xE2, CHR 0x80, x] \<Longrightarrow> x = CHR 0xA8 \<or> x = CHR 0xA9 \<Longrightarrow> utf8Size s = 3"
  by (cases s; cases "tl s"; cases "tl (tl s)")
    (auto simp: utf8Size.simps leadRanges_def byteIn_def byteVal_def)

lemma decodeStr_encodeStr:
  "validUtf8 s \<Longrightarrow> decodeStr (encodeStr s @ CHR 0x22 # r) = Some (s, r)"
proof (induction s rule: validUtf8.induct)
  case (1 s)
  show ?case
  proof (cases s)
    case Nil
    then show ?thesis by (simp add: encodeStr.simps)
  next
    case (Cons c t)
    then have n: "utf8Size s \<noteq> 0" and v: "validUtf8 (drop (utf8Size s) s)"
      using "1.prems" validUtf8_step [of s] by auto
    let ?t = "drop (utf8Size s) s"
    have IH: "decodeStr (encodeStr ?t @ CHR 0x22 # r) = Some (?t, r)"
      using "1.IH" Cons n v by simp
    show ?thesis
    proof (cases "byteVal c < 128")
      case True
      with IH Cons show ?thesis
        by (simp add: encodeStr.simps [of "c # t"] decodeStr_escapeByte)
    next
      case False
      then have c: "c \<noteq> CHR 0x22" "c \<noteq> CHR 0x5C" "32 \<le> byteVal c"
        by (auto simp: byteVal_def)
      have raw: "decodeStr (take (utf8Size s) s @ encodeStr ?t @ CHR 0x22 # r) = Some (s, r)"
      proof -
        obtain k where k: "utf8Size s = Suc k" using n not0_implies_Suc by blast
        have u: "utf8Size (c # take k t) = Suc k"
          using utf8Size_prefix [of s "Suc k" "[]"] k Cons by simp
        have "Suc k \<le> length s" using utf8Size_le_length [of s] k by simp
        then have "length (take k t) = k" using Cons by simp
        then show ?thesis
          using decodeStr_raw [of c "take k t" "encodeStr ?t @ CHR 0x22 # r"] u c IH k Cons
          by simp
      qed
      have sep: "decodeStr (CHR 0x5C # ''u202'' @ x # encodeStr (drop 3 s) @ CHR 0x22 # r) = Some (s, r)"
        if "take 3 s = [CHR 0xE2, CHR 0x80, y]"
          and "(x, y) = (CHR ''8'', CHR 0xA8) \<or> (x, y) = (CHR ''9'', CHR 0xA9)" for x y
      proof -
        have "utf8Size s = 3" using that utf8Size_lineSep by auto
        with IH that have *: "decodeStr (encodeStr (drop 3 s) @ CHR 0x22 # r) = Some (drop 3 s, r)"
          by simp
        have "s = [CHR 0xE2, CHR 0x80, y] @ drop 3 s" using that by (metis append_take_drop_id)
        with * that show ?thesis
          using decodeEscape_lineSep [of "encodeStr (drop 3 s) @ CHR 0x22 # r"]
          by (auto simp: decodeStr_escape)
      qed
      show ?thesis
        using Cons False n raw sep [of "CHR 0xA8" "CHR ''8''"] sep [of "CHR 0xA9" "CHR ''9''"]
        by (simp add: encodeStr.simps [of "c # t"])
    qed
  qed
qed

end
