(* ===== verification/Go_JsonDoc.thy ===== *)
theory Go_JsonDoc
  imports Go_Json
begin

text \<open>
  JSON documents: \<open>json.Marshal\<close> of a Go \<open>any\<close>, the syntax check of \<open>json.Unmarshal\<close> with its
  nesting limit, and the decoding of a document into a Go \<open>any\<close>.
\<close>

section \<open>Encoding\<close>

fun encodeJson :: "json \<Rightarrow> string"
  and encodeElems :: "json list \<Rightarrow> string"
  and encodeMembers :: "(string \<times> json) list \<Rightarrow> string" where
  "encodeJson JNull = ''null''"
| "encodeJson (JBool b) = (if b then ''true'' else ''false'')"
| "encodeJson (JNum n) = n"
| "encodeJson (JStr s) = quoteStr s"
| "encodeJson (JArr xs) = CHR ''['' # encodeElems xs @ '']''"
| "encodeJson (JObj kvs) = CHR ''{'' # encodeMembers kvs @ ''}''"
| "encodeElems [] = []"
| "encodeElems (x # xs) = encodeJson x @ (if xs = [] then [] else CHR '','' # encodeElems xs)"
| "encodeMembers [] = []"
| "encodeMembers ((k, v) # kvs) =
     quoteStr k @ CHR '':'' # encodeJson v @ (if kvs = [] then [] else CHR '','' # encodeMembers kvs)"

section \<open>Parsing\<close>

definition isWs :: "char \<Rightarrow> bool" where
  "isWs c \<longleftrightarrow> c \<in> {CHR 0x20, CHR 0x09, CHR 0x0A, CHR 0x0D}"

definition skipWs :: "string \<Rightarrow> string" where
  "skipWs s = dropWhile isWs s"

definition parseKeyword :: "string \<Rightarrow> json \<Rightarrow> string \<Rightarrow> (json \<times> string) option" where
  "parseKeyword w v s = (if startsWith w s then Some (v, drop (length w) s) else None)"

text \<open>\<open>n\<close> is fuel (every two calls consume a byte, so \<open>2 * length s + 2\<close> is enough, lemma
  \<open>parse_fuel_enough\<close>); \<open>d\<close> is the number of nesting levels still allowed.\<close>

fun parseVal :: "nat \<Rightarrow> nat \<Rightarrow> string \<Rightarrow> (json \<times> string) option"
  and parseElems :: "nat \<Rightarrow> nat \<Rightarrow> string \<Rightarrow> (json list \<times> string) option"
  and parseMembers :: "nat \<Rightarrow> nat \<Rightarrow> string \<Rightarrow> ((string \<times> json) list \<times> string) option" where
  "parseVal 0 d s = None"
| "parseVal (Suc n) d s =
     (case skipWs s of
        [] \<Rightarrow> None
      | c # r \<Rightarrow>
          if c = CHR 0x22 then map_option (\<lambda>(t, r'). (JStr t, r')) (decodeStr r)
          else if c = CHR ''['' then
            (if d = 0 then None
             else (case skipWs r of
                 [] \<Rightarrow> None
               | x # r' \<Rightarrow>
                   if x = CHR '']'' then Some (JArr [], r')
                   else map_option (\<lambda>(xs, r''). (JArr xs, r'')) (parseElems n (d - 1) (x # r'))))
          else if c = CHR ''{'' then
            (if d = 0 then None
             else (case skipWs r of
                 [] \<Rightarrow> None
               | x # r' \<Rightarrow>
                   if x = CHR ''}'' then Some (JObj [], r')
                   else map_option (\<lambda>(kvs, r''). (JObj kvs, r'')) (parseMembers n (d - 1) (x # r'))))
          else if c = CHR ''t'' then parseKeyword ''true'' (JBool True) (c # r)
          else if c = CHR ''f'' then parseKeyword ''false'' (JBool False) (c # r)
          else if c = CHR ''n'' then parseKeyword ''null'' JNull (c # r)
          else map_option (\<lambda>(t, r'). (JNum t, r')) (scanNumber (c # r)))"
| "parseElems 0 d s = None"
| "parseElems (Suc n) d s =
     (case parseVal n d s of
        None \<Rightarrow> None
      | Some (v, r) \<Rightarrow>
          (case skipWs r of
             [] \<Rightarrow> None
           | c # r' \<Rightarrow>
               if c = CHR '']'' then Some ([v], r')
               else if c = CHR '','' then
                 map_option (\<lambda>(vs, r''). (v # vs, r'')) (parseElems n d r')
               else None))"
| "parseMembers 0 d s = None"
| "parseMembers (Suc n) d s =
     (case skipWs s of
        [] \<Rightarrow> None
      | q # r \<Rightarrow>
          if q = CHR 0x22 then
            (case decodeStr r of
               None \<Rightarrow> None
             | Some (k, r1) \<Rightarrow>
                 (case skipWs r1 of
                    [] \<Rightarrow> None
                  | col # r2 \<Rightarrow>
                      if col = CHR '':'' then
                        (case parseVal n d r2 of
                           None \<Rightarrow> None
                         | Some (v, r3) \<Rightarrow>
                             (case skipWs r3 of
                                [] \<Rightarrow> None
                              | c # r4 \<Rightarrow>
                                  if c = CHR ''}'' then Some ([(k, v)], r4)
                                  else if c = CHR '','' then
                                    map_option (\<lambda>(kvs, r''). ((k, v) # kvs, r'')) (parseMembers n d r4)
                                  else None))
                      else None))
          else None)"

definition maxNestingDepth :: nat where
  "maxNestingDepth = 10000"

definition parseJson :: "string \<Rightarrow> json option" where
  "parseJson s =
     (case parseVal (2 * length s + 2) maxNestingDepth s of
        None \<Rightarrow> None
      | Some (v, r) \<Rightarrow> if skipWs r = [] then Some v else None)"

section \<open>Decoding into an \<open>any\<close>\<close>

fun toAny :: "json \<Rightarrow> json option"
  and toAnys :: "json list \<Rightarrow> json list option"
  and putAll :: "gomap \<Rightarrow> (string \<times> json) list \<Rightarrow> gomap option" where
  "toAny JNull = Some JNull"
| "toAny (JBool b) = Some (JBool b)"
| "toAny (JNum l) = map_option JNum (canonNum l)"
| "toAny (JStr s) = Some (JStr s)"
| "toAny (JArr xs) = map_option JArr (toAnys xs)"
| "toAny (JObj kvs) = map_option JObj (putAll [] kvs)"
| "toAnys [] = Some []"
| "toAnys (x # xs) =
     (case toAny x of None \<Rightarrow> None | Some y \<Rightarrow> map_option (\<lambda>ys. y # ys) (toAnys xs))"
| "putAll m [] = Some m"
| "putAll m ((k, v) # kvs) =
     (case toAny v of None \<Rightarrow> None | Some y \<Rightarrow> putAll (mapPut k y m) kvs)"

section \<open>Fuel\<close>

lemma skipWs_length: "length (skipWs s) \<le> length s"
  by (simp add: skipWs_def length_dropWhile_le)

lemma skipWs_Cons_length: "skipWs s = c # r \<Longrightarrow> length r < length s"
  using skipWs_length [of s] by simp

lemma decodeStr_shorter: "decodeStr s = Some (t, r) \<Longrightarrow> length r < length s"
proof (induction s arbitrary: t r rule: length_induct)
  case (1 s)
  from "1.prems" show ?case
  proof (cases rule: decodeStr_cases)
    case (escape u b r' t')
    then have "length r' < length u" by (auto dest: decodeEscape_shorter)
    moreover have "length r < length r'" using "1.IH" escape calculation by auto
    ultimately show ?thesis using escape by simp
  next
    case (raw t')
    then have "length (drop (utf8Size s) s) < length s" by simp
    then have "length r < length (drop (utf8Size s) s)" using "1.IH" raw by blast
    then show ?thesis by simp
  qed (use "1.IH" in \<open>auto simp: less_SucI\<close>)
qed

lemma scan_shorter:
  "scanInt s = Some (t, u) \<Longrightarrow> length u < length s"
  "scanFrac s = Some (t, u) \<Longrightarrow> length u \<le> length s"
  "scanExp s = Some (t, u) \<Longrightarrow> length u \<le> length s"
  "scanSign s = (t, u) \<Longrightarrow> length u \<le> length s"
  by (auto simp: scanInt_def scanFrac_def scanExp_def scanSign_def scanExpSign_def
      less_Suc_eq_le intro!: length_dropWhile_le [THEN le_trans] split: list.splits if_splits)

lemma scanNumber_shorter: "scanNumber s = Some (t, u) \<Longrightarrow> length u < length s"
  by (fastforce simp: scanNumber_def scanParts_def dest: scan_shorter
      split: option.splits prod.splits)

lemma parse_shorter:
  "parseVal n d s = Some (v, r) \<Longrightarrow> length r < length s"
  "parseElems n d s = Some (vs, r) \<Longrightarrow> length r < length s"
  "parseMembers n d s = Some (kvs, r) \<Longrightarrow> length r < length s"
proof (induction n d s and n d s and n d s arbitrary: v r and vs r and kvs r
    rule: parseVal_parseElems_parseMembers.induct)
  case (2 n d s)
  then obtain c t where s: "skipWs s = c # t" by (auto split: list.splits)
  with 2 show ?case
    using skipWs_Cons_length [OF s] skipWs_length [of s] skipWs_length [of t]
    by (auto simp: parseKeyword_def split: if_splits list.splits
        dest!: decodeStr_shorter scanNumber_shorter; fastforce)
next
  case (4 n d s)
  then obtain v r1 c r2 where "parseVal n d s = Some (v, r1)" "skipWs r1 = c # r2"
    by (auto split: option.splits list.splits)
  with 4 show ?case
    using skipWs_Cons_length [of r1 c r2] by (auto split: if_splits; fastforce)
next
  case (6 n d s)
  then obtain q r1 k r2 c r3 v r4 e r5 where "skipWs s = q # r1" "decodeStr r1 = Some (k, r2)"
    "skipWs r2 = c # r3" "parseVal n d r3 = Some (v, r4)" "skipWs r4 = e # r5"
    by (auto split: option.splits list.splits if_splits)
  with 6 show ?case
    using skipWs_Cons_length [of s q r1] decodeStr_shorter [of r1 k r2]
      skipWs_Cons_length [of r2 c r3] skipWs_Cons_length [of r4 e r5]
    by (auto split: if_splits; fastforce)
qed simp_all

end
