(* ===== verification/Go_JsonRound.thy ===== *)
theory Go_JsonRound
  imports Go_JsonDoc
begin

text \<open>
  The JSON codec proved: the fuel of the parser is enough on every input, every document it
  accepts has valid UTF-8 strings and number tokens, decoding yields canonical values, and
  printing a canonical value and parsing the text returns the value exactly when it nests no
  deeper than the decoder allows.
\<close>

section \<open>Fuel\<close>

lemmas parse_step = parseVal.simps(2) parseElems.simps(2) parseMembers.simps(2)

declare parse_step [simp del]

text \<open>Two amounts of fuel that agree on the parts of a document agree on the document.\<close>

lemma parseVal_fuel_cong:
  assumes "\<And>c r x r'. skipWs s = c # r \<Longrightarrow> skipWs r = x # r' \<Longrightarrow>
      parseElems n (d - 1) (x # r') = parseElems m (d - 1) (x # r') \<and>
      parseMembers n (d - 1) (x # r') = parseMembers m (d - 1) (x # r')"
  shows "parseVal (Suc n) d s = parseVal (Suc m) d s"
  using assms by (auto simp: parse_step split: list.split)

lemma parseElems_fuel_cong:
  assumes "parseVal n d s = parseVal m d s"
    and "\<And>v r c r'. parseVal m d s = Some (v, r) \<Longrightarrow> skipWs r = c # r' \<Longrightarrow>
      parseElems n d r' = parseElems m d r'"
  shows "parseElems (Suc n) d s = parseElems (Suc m) d s"
  using assms by (auto simp: parse_step split: list.split option.split)

lemma parseMembers_fuel_cong:
  assumes "\<And>q r k r1 col r2. skipWs s = q # r \<Longrightarrow> decodeStr r = Some (k, r1) \<Longrightarrow>
      skipWs r1 = col # r2 \<Longrightarrow> parseVal n d r2 = parseVal m d r2 \<and>
      (\<forall>v r3 c r4. parseVal m d r2 = Some (v, r3) \<longrightarrow> skipWs r3 = c # r4 \<longrightarrow>
         parseMembers n d r4 = parseMembers m d r4)"
  shows "parseMembers (Suc n) d s = parseMembers (Suc m) d s"
proof (cases "\<exists>q r k r1 col r2. skipWs s = q # r \<and> decodeStr r = Some (k, r1) \<and> skipWs r1 = col # r2")
  case True
  then obtain q r k r1 col r2
    where e: "skipWs s = q # r" "decodeStr r = Some (k, r1)" "skipWs r1 = col # r2" by blast
  then show ?thesis
    using assms [OF e] by (auto simp: parse_step split: list.split option.split)
next
  case False
  then show ?thesis by (auto simp: parse_step split: list.split option.split)
qed

text \<open>Fuel beyond twice the length of the input changes nothing.\<close>

lemma parse_fuel_step:
  "2 * length s + 2 \<le> n \<Longrightarrow> parseVal (Suc n) d s = parseVal n d s"
  "2 * length s + 3 \<le> n \<Longrightarrow> parseElems (Suc n) d s = parseElems n d s"
  "2 * length s + 3 \<le> n \<Longrightarrow> parseMembers (Suc n) d s = parseMembers n d s"
proof (induction n arbitrary: d s)
  case 0
  { case 1 then show ?case by simp next case 2 then show ?case by simp
    next case 3 then show ?case by simp }
next
  case (Suc n)
  {
    case 1
    show ?case
    proof (rule parseVal_fuel_cong)
      fix c r x r' assume h: "skipWs s = c # r" "skipWs r = x # r'"
      have "length (x # r') < length s"
        using skipWs_Cons_length [OF h(1)] skipWs_length [of r] h(2) by simp
      then have "2 * length (x # r') + 3 \<le> n" using 1 by linarith
      then show "parseElems (Suc n) (d - 1) (x # r') = parseElems n (d - 1) (x # r') \<and>
          parseMembers (Suc n) (d - 1) (x # r') = parseMembers n (d - 1) (x # r')"
        using Suc.IH by blast
    qed
  next
    case 2
    show ?case
    proof (rule parseElems_fuel_cong)
      show "parseVal (Suc n) d s = parseVal n d s" using 2 by (intro Suc.IH) simp
      show "parseElems (Suc n) d r' = parseElems n d r'"
        if "parseVal n d s = Some (v, r)" "skipWs r = c # r'" for v r c r'
        using parse_shorter(1) [OF that(1)] skipWs_Cons_length [OF that(2)] 2 by (intro Suc.IH) simp
    qed
  next
    case 3
    show ?case
    proof (rule parseMembers_fuel_cong)
      fix q r k r1 col r2
      assume h: "skipWs s = q # r" "decodeStr r = Some (k, r1)" "skipWs r1 = col # r2"
      have len: "length r2 + 3 \<le> length s"
        using skipWs_Cons_length [OF h(1)] decodeStr_shorter [OF h(2)] skipWs_Cons_length [OF h(3)]
        by simp
      then have "parseVal (Suc n) d r2 = parseVal n d r2" using 3 by (intro Suc.IH) simp
      moreover have "parseMembers (Suc n) d r4 = parseMembers n d r4"
        if "parseVal n d r2 = Some (v, r3)" "skipWs r3 = c # r4" for v r3 c r4
        using parse_shorter(1) [OF that(1)] skipWs_Cons_length [OF that(2)] len 3
        by (intro Suc.IH) simp
      ultimately show "parseVal (Suc n) d r2 = parseVal n d r2 \<and>
          (\<forall>v r3 c r4. parseVal n d r2 = Some (v, r3) \<longrightarrow> skipWs r3 = c # r4 \<longrightarrow>
             parseMembers (Suc n) d r4 = parseMembers n d r4)" by blast
    qed
  }
qed

lemma parse_fuel_enough:
  "2 * length s + 2 \<le> n \<Longrightarrow> parseVal n d s = parseVal (2 * length s + 2) d s"
proof (induction n rule: dec_induct)
  case (step n)
  then show ?case using parse_fuel_step(1) [of s n d] by metis
qed simp

section \<open>Canonical values\<close>

fun okDoc :: "json \<Rightarrow> bool"
  and okDocs :: "json list \<Rightarrow> bool"
  and okDocMembers :: "(string \<times> json) list \<Rightarrow> bool" where
  "okDoc JNull = True"
| "okDoc (JBool b) = True"
| "okDoc (JNum l) = isNumLit l"
| "okDoc (JStr s) = validUtf8 s"
| "okDoc (JArr xs) = okDocs xs"
| "okDoc (JObj kvs) = okDocMembers kvs"
| "okDocs [] = True"
| "okDocs (x # xs) = (okDoc x \<and> okDocs xs)"
| "okDocMembers [] = True"
| "okDocMembers ((k, v) # kvs) = (validUtf8 k \<and> okDoc v \<and> okDocMembers kvs)"

text \<open>The values \<open>Unmarshal\<close> stores in an \<open>any\<close>.\<close>

fun okAny :: "json \<Rightarrow> bool"
  and okAnys :: "json list \<Rightarrow> bool"
  and okMap :: "(string \<times> json) list \<Rightarrow> bool" where
  "okAny JNull = True"
| "okAny (JBool b) = True"
| "okAny (JNum l) = (isNumLit l \<and> canonNum l = Some l)"
| "okAny (JStr s) = validUtf8 s"
| "okAny (JArr xs) = okAnys xs"
| "okAny (JObj kvs) = (sortedMap kvs \<and> okMap kvs)"
| "okAnys [] = True"
| "okAnys (x # xs) = (okAny x \<and> okAnys xs)"
| "okMap [] = True"
| "okMap ((k, v) # kvs) = (validUtf8 k \<and> okAny v \<and> okMap kvs)"

definition okGoMap :: "gomap \<Rightarrow> bool" where
  "okGoMap m \<longleftrightarrow> sortedMap m \<and> okMap m"

lemma okAny_okDoc:
  "okAny v \<Longrightarrow> okDoc v" "okAnys vs \<Longrightarrow> okDocs vs" "okMap kvs \<Longrightarrow> okDocMembers kvs"
  by (induction v and vs and kvs rule: okAny_okAnys_okMap.induct) auto

lemma okMap_mapPut: "okMap m \<Longrightarrow> validUtf8 k \<Longrightarrow> okAny v \<Longrightarrow> okMap (mapPut k v m)"
  by (induction k v m rule: mapPut.induct) auto

lemma okGoMap_mapPut: "okGoMap m \<Longrightarrow> validUtf8 k \<Longrightarrow> okAny v \<Longrightarrow> okGoMap (mapPut k v m)"
  by (simp add: okGoMap_def okMap_mapPut sortedMap_mapPut)

lemma toAny_ok:
  "okDoc v \<Longrightarrow> toAny v = Some w \<Longrightarrow> okAny w"
  "okDocs vs \<Longrightarrow> toAnys vs = Some ws \<Longrightarrow> okAnys ws"
  "okDocMembers kvs \<Longrightarrow> okGoMap m \<Longrightarrow> putAll m kvs = Some m' \<Longrightarrow> okGoMap m'"
proof (induction v and vs and m kvs arbitrary: w and ws and m' rule: toAny_toAnys_putAll.induct)
  case (6 kvs)
  then have "okGoMap []" by (simp add: okGoMap_def sortedMap_def)
  with 6 show ?case by (auto simp: okGoMap_def)
next
  case (10 m k v kvs)
  then show ?case by (auto intro: okGoMap_mapPut split: option.splits)
qed (auto intro: canonNum_isNumLit canonNum_idem split: option.splits)

lemma putAll_sorted_aux:
  "sortedMap (m @ kvs) \<Longrightarrow> (\<And>k v. (k, v) \<in> set kvs \<Longrightarrow> toAny v = Some v) \<Longrightarrow>
   putAll m kvs = Some (m @ kvs)"
proof (induction kvs arbitrary: m)
  case (Cons kv kvs)
  obtain k v where kv: "kv = (k, v)" by fastforce
  have "mapPut k v m = m @ [(k, v)]"
    using Cons.prems(1) by (intro mapPut_last) (auto simp: sortedMap_def kv sorted_wrt_append)
  moreover have "toAny v = Some v" using Cons.prems(2) [of k v] kv by simp
  moreover have "putAll (m @ [(k, v)]) kvs = Some ((m @ [(k, v)]) @ kvs)"
    using Cons.prems kv by (intro Cons.IH) auto
  ultimately show ?case by (simp add: kv)
qed simp

lemma okMap_member: "okMap kvs \<Longrightarrow> (k, v) \<in> set kvs \<Longrightarrow> okAny v"
  by (induction kvs) auto

lemma toAny_id:
  "okAny v \<Longrightarrow> toAny v = Some v" "okAnys vs \<Longrightarrow> toAnys vs = Some vs"
  "okMap kvs \<Longrightarrow> \<forall>(k, v) \<in> set kvs. toAny v = Some v"
proof (induction v and vs and kvs rule: okAny_okAnys_okMap.induct)
  case (6 kvs)
  then have "putAll [] kvs = Some ([] @ kvs)"
    by (intro putAll_sorted_aux) (auto simp: sortedMap_def)
  then show ?case by simp
qed auto

lemma putAll_id: "okGoMap m \<Longrightarrow> putAll [] m = Some m"
  using putAll_sorted_aux [of "[]" m] toAny_id(3) [of m] by (auto simp: okGoMap_def)

section \<open>What the parser accepts\<close>

lemma decodeU_valid: "decodeU s = Some (b, r) \<Longrightarrow> validUtf8 b"
proof -
  have u: "n < 65536" if g: "getu4 t = Some (n, r)" for t n r
  proof -
    have h: "hexVal c = Some x \<Longrightarrow> x < 16" for c x
      by (auto simp: hexVal_def Let_def split: if_splits)
    obtain a b c d r0 where t: "t = a # b # c # d # r0"
      using g by (cases t rule: getu4.cases) auto
    then obtain w x y z where "hexVal a = Some w" "hexVal b = Some x" "hexVal c = Some y"
      "hexVal d = Some z" "n = 4096 * w + 256 * x + 16 * y + z"
      using g by (auto split: option.splits)
    then show ?thesis using h [of a w] h [of b x] h [of c y] h [of d z] by linarith
  qed
  have p: "(a - 55296) * 1024 + aa < (1104896 :: nat)"
    if "a < 56320" "aa < 57344" for a aa :: nat
    using that by linarith
  assume "decodeU s = Some (b, r)"
  then show ?thesis
    using u p
    by (auto simp: decodeU_def surrogate_def split: option.splits if_splits list.splits
        intro!: validUtf8_encodeRune dest!: u)
qed

lemma decodeEscape_valid: "decodeEscape s = Some (b, r) \<Longrightarrow> validUtf8 b"
  by (auto simp: decodeEscape_def dest: decodeU_valid split: list.splits if_splits)
    (simp_all add: byteVal_def)

lemma validUtf8_head: "utf8Size s \<noteq> 0 \<Longrightarrow> validUtf8 (take (utf8Size s) s)"
  using utf8Size_prefix [of s "utf8Size s" "[]"] by (simp add: validUtf8.simps [of "take _ _"])

text \<open>A decoded string is valid UTF-8 whatever the input holds.\<close>

lemma decodeStr_valid: "decodeStr s = Some (t, r) \<Longrightarrow> validUtf8 t"
proof (induction s arbitrary: t r rule: length_induct)
  case (1 s)
  from "1.prems" show ?case
  proof (cases rule: decodeStr_cases)
    case (escape u b r' t')
    then have "length r' < length s" by (auto dest: decodeEscape_shorter)
    with "1.IH" escape show ?thesis by (auto intro: validUtf8_append decodeEscape_valid)
  next
    case (invalid c u t')
    then have "validUtf8 t'" using "1.IH" by auto
    with invalid show ?thesis by (auto intro: validUtf8_append)
  next
    case (raw t')
    then have "length (drop (utf8Size s) s) < length s" by simp
    with "1.IH" raw show ?thesis by (blast intro: validUtf8_append validUtf8_head)
  qed simp
qed

lemma scan_concat:
  "scanInt s = Some (t, u) \<Longrightarrow> s = t @ u" "scanFrac s = Some (t, u) \<Longrightarrow> s = t @ u"
  "scanExp s = Some (t, u) \<Longrightarrow> s = t @ u" "scanSign s = (t, u) \<Longrightarrow> s = t @ u"
  by (auto simp: scanInt_def scanFrac_def scanExp_def scanSign_def scanExpSign_def
      split: list.splits if_splits)

lemma digit_zero: "isDigit CHR ''0''"
  by (simp add: isDigit_def digitVal_def)

lemma scanInt_shape:
  "scanInt s = Some (t, u) \<Longrightarrow> t \<noteq> [] \<and> (\<forall>c\<in>set t. isDigit c) \<and> (t = ''0'' \<or> hd t \<noteq> CHR ''0'')"
  using digit_zero by (auto simp: scanInt_def dest: set_takeWhileD split: list.splits if_splits)

lemma scanFrac_shape:
  "scanFrac s = Some (t, u) \<Longrightarrow> t = [] \<or> (\<exists>ds. t = CHR ''.'' # ds \<and> ds \<noteq> [] \<and> (\<forall>c\<in>set ds. isDigit c))"
  by (auto simp: scanFrac_def dest: set_takeWhileD split: list.splits if_splits)

lemma scanExp_shape:
  "scanExp s = Some (t, u) \<Longrightarrow> t = [] \<or> (\<exists>c sg ds. t = c # sg @ ds \<and> (c = CHR ''e'' \<or> c = CHR ''E'')
     \<and> sg \<in> {[], ''+'', ''-''} \<and> ds \<noteq> [] \<and> (\<forall>c\<in>set ds. isDigit c))"
proof -
  assume a: "scanExp s = Some (t, u)"
  show ?thesis
  proof (cases s)
    case (Cons c r)
    obtain sg r' where sg: "scanExpSign r = (sg, r')" by fastforce
    then have "sg \<in> {[], ''+'', ''-''}" by (auto simp: scanExpSign_def split: list.splits if_splits)
    moreover have "t = [] \<or> (c = CHR ''e'' \<or> c = CHR ''E'') \<and> takeWhile isDigit r' \<noteq> []
        \<and> t = c # sg @ takeWhile isDigit r'"
      using a Cons sg by (auto simp: scanExp_def split: if_splits)
    moreover have "\<forall>c\<in>set (takeWhile isDigit r'). isDigit c" by (auto dest: set_takeWhileD)
    ultimately show ?thesis by blast
  qed (use a in \<open>simp add: scanExp_def\<close>)
qed

lemma not_digit: "\<not> isDigit CHR ''.''" "\<not> isDigit CHR ''e''" "\<not> isDigit CHR ''E''"
  "\<not> isDigit CHR ''+''" "\<not> isDigit CHR ''-''"
  by (simp_all add: isDigit_def digitVal_def)

lemma digit_run_all:
  "(\<forall>c\<in>set ds. isDigit c) \<Longrightarrow> r = [] \<or> \<not> isDigit (hd r) \<Longrightarrow> takeWhile isDigit (ds @ r) = ds"
  "(\<forall>c\<in>set ds. isDigit c) \<Longrightarrow> r = [] \<or> \<not> isDigit (hd r) \<Longrightarrow> dropWhile isDigit (ds @ r) = r"
  by (induction ds) (auto, (cases r; auto)+)

lemma digit_run_id:
  "(\<forall>c\<in>set ds. isDigit c) \<Longrightarrow> takeWhile isDigit ds = ds"
  "(\<forall>c\<in>set ds. isDigit c) \<Longrightarrow> dropWhile isDigit ds = []"
  using digit_run_all [of ds "[]"] by simp_all

text \<open>A scanned number token is a number token on its own.\<close>

lemma scanNumber_isNumLit:
  assumes "scanNumber s = Some (t, r)"
  shows "isNumLit t"
proof -
  obtain sg i f e s1 s2 s3 where t: "t = sg @ i @ f @ e" and sg: "scanSign s = (sg, s1)"
    and i: "scanInt s1 = Some (i, s2)" and f: "scanFrac s2 = Some (f, s3)"
    and e: "scanExp s3 = Some (e, r)"
    using assms by (auto simp: scanNumber_def scanParts_def split: option.splits prod.splits)
  note shapes = scanInt_shape [OF i] scanFrac_shape [OF f] scanExp_shape [OF e]
  obtain c i' where ci: "i = c # i'" "isDigit c" using shapes by (cases i) auto
  have e': "scanExp e = Some (e, [])"
    using shapes(3)
    by (auto simp: scanExp_def scanExpSign_def not_digit digit_run_id split: list.splits)
  have he: "e = [] \<or> \<not> isDigit (hd e) \<and> hd e \<noteq> CHR ''.''" using shapes(3) by (auto simp: not_digit)
  have f': "scanFrac (f @ e) = Some (f, e)"
    using shapes(2) he digit_run_all [of _ e]
    by (auto simp: scanFrac_def digit_run_id split: list.splits)
  have hf: "f @ e = [] \<or> \<not> isDigit (hd (f @ e))" using shapes(2) he by (auto simp: not_digit)
  have i': "scanInt (i @ f @ e) = Some (i, f @ e)"
    using shapes(1) hf digit_run_all [of i "f @ e"] ci by (auto simp: scanInt_def)
  have "scanSign t = (sg, i @ f @ e)"
    using sg ci by (auto simp: t scanSign_def not_digit split: list.splits if_splits)
  then show ?thesis using i' f' e' by (simp add: isNumLit_def scanNumber_def scanParts_def t)
qed

lemma parse_okDoc:
  "parseVal n d s = Some (v, r) \<Longrightarrow> okDoc v"
  "parseElems n d s = Some (vs, r) \<Longrightarrow> okDocs vs"
  "parseMembers n d s = Some (kvs, r) \<Longrightarrow> okDocMembers kvs"
proof (induction n d s and n d s and n d s arbitrary: v r and vs r and kvs r
    rule: parseVal_parseElems_parseMembers.induct)
  case (2 n d s)
  then obtain c t where s: "skipWs s = c # t" by (auto simp: parse_step split: list.splits)
  with 2 show ?case
    by (auto simp: parse_step parseKeyword_def split: if_splits list.splits
        dest: decodeStr_valid scanNumber_isNumLit; fastforce)
next
  case (4 n d s)
  then obtain v r1 c r2 where "parseVal n d s = Some (v, r1)" "skipWs r1 = c # r2"
    by (auto simp: parse_step split: option.splits list.splits)
  with 4 show ?case by (auto simp: parse_step split: if_splits; fastforce)
next
  case (6 n d s)
  then obtain q r1 k r2 c r3 v r4 e r5 where "skipWs s = q # r1" "decodeStr r1 = Some (k, r2)"
    "skipWs r2 = c # r3" "parseVal n d r3 = Some (v, r4)" "skipWs r4 = e # r5"
    by (auto simp: parse_step split: option.splits list.splits if_splits)
  with 6 show ?case
    by (auto simp: parse_step split: if_splits dest: decodeStr_valid; fastforce dest: decodeStr_valid)
qed simp_all

lemma parseJson_okDoc: "parseJson s = Some v \<Longrightarrow> okDoc v"
  by (auto simp: parseJson_def simp del: parseVal.simps dest: parse_okDoc(1)
      split: option.splits if_splits)

section \<open>Printing and parsing\<close>

text \<open>The fuel a value takes and the levels it nests.\<close>

fun need :: "json \<Rightarrow> nat"
  and needs :: "json list \<Rightarrow> nat"
  and needMembers :: "(string \<times> json) list \<Rightarrow> nat" where
  "need (JArr xs) = Suc (needs xs)"
| "need (JObj kvs) = Suc (needMembers kvs)"
| "need v = 1"
| "needs [] = 0"
| "needs (x # xs) = Suc (max (need x) (needs xs))"
| "needMembers [] = 0"
| "needMembers ((k, v) # kvs) = Suc (max (need v) (needMembers kvs))"

fun jdepth :: "json \<Rightarrow> nat"
  and jdepths :: "json list \<Rightarrow> nat"
  and jdepthMembers :: "(string \<times> json) list \<Rightarrow> nat" where
  "jdepth (JArr xs) = Suc (jdepths xs)"
| "jdepth (JObj kvs) = Suc (jdepthMembers kvs)"
| "jdepth v = 0"
| "jdepths [] = 0"
| "jdepths (x # xs) = max (jdepth x) (jdepths xs)"
| "jdepthMembers [] = 0"
| "jdepthMembers ((k, v) # kvs) = max (jdepth v) (jdepthMembers kvs)"

lemma isDigit_range: "isDigit c \<longleftrightarrow> 48 \<le> byteVal c \<and> byteVal c \<le> 57"
  by (auto simp: isDigit_def digitVal_def byteVal_def)

lemma numLit_head:
  assumes "isNumLit l"
  obtains c t where "l = c # t" "c = CHR ''-'' \<or> isDigit c"
proof -
  obtain sg i f e s1 s2 s3 where l: "l = sg @ i @ f @ e" and sg: "scanSign l = (sg, s1)"
    and i: "scanInt s1 = Some (i, s2)"
    using assms by (auto simp: isNumLit_def scanNumber_def scanParts_def split: option.splits prod.splits)
  have "i \<noteq> []" "\<forall>c\<in>set i. isDigit c" using scanInt_shape [OF i] by auto
  moreover have "sg = [] \<or> sg = ''-''" using sg by (auto simp: scanSign_def split: list.splits if_splits)
  ultimately show thesis using that l by (cases i) auto
qed

definition valueStart :: "char \<Rightarrow> bool" where
  "valueStart c \<longleftrightarrow> c \<in> set ''[{tfn-'' \<or> c = CHR 0x22 \<or> isDigit c"

lemma valueStart_props: "valueStart c \<Longrightarrow> \<not> isWs c \<and> c \<noteq> CHR '']'' \<and> c \<noteq> CHR ''}'' \<and> c \<noteq> CHR '',''"
  by (auto simp: valueStart_def isWs_def isDigit_def digitVal_def)

lemma encodeJson_head:
  assumes "okDoc v"
  obtains c t where "encodeJson v = c # t" "valueStart c"
proof (cases v)
  case (JNum l)
  with assms obtain c t where "l = c # t" "c = CHR ''-'' \<or> isDigit c" by (auto elim: numLit_head)
  with JNum that show ?thesis by (auto simp: valueStart_def)
next
  case (JBool b)
  with that show ?thesis by (cases b) (auto simp: valueStart_def)
qed (use that in \<open>auto simp: valueStart_def quoteStr_def\<close>)

lemma skipWs_solid [simp]: "\<not> isWs c \<Longrightarrow> skipWs (c # t) = c # t"
  by (simp add: skipWs_def)

lemma isWs_punct [simp]: "\<not> isWs CHR ''['' " "\<not> isWs CHR ''{''" "\<not> isWs CHR ''t''" "\<not> isWs CHR ''f''"
  "\<not> isWs CHR ''n''" "\<not> isWs CHR 0x22" "\<not> isWs CHR '','' " "\<not> isWs CHR '']''" "\<not> isWs CHR ''}''"
  "\<not> isWs CHR '':''"
  by (simp_all add: isWs_def)

lemma numStop_punct [simp]: "numStop (CHR '','' # r)" "numStop (CHR '']'' # r)" "numStop (CHR ''}'' # r)"
  "numStop []"
  by (simp_all add: numStop_def isDigit_def digitVal_def)

lemma parseNum_encode:
  assumes "isNumLit l" "numStop r"
  shows "parseVal (Suc n) d (l @ r) = Some (JNum l, r)"
proof -
  obtain c t where c: "l = c # t" "c = CHR ''-'' \<or> isDigit c" using assms numLit_head by blast
  then have "\<not> isWs c" using valueStart_props [of c] by (auto simp: valueStart_def)
  moreover have "c \<notin> set ''[{tfn'' \<and> c \<noteq> CHR 0x22" using c by (auto simp: isDigit_def digitVal_def)
  moreover have "scanNumber (l @ r) = Some (l, r)"
    using assms scanNumber_append [of l r] by simp
  ultimately show ?thesis using c by (simp add: parse_step)
qed

text \<open>The parser on a printed value: the value, exactly when fuel and levels suffice.\<close>

lemma parse_encode:
  "okDoc v \<Longrightarrow> numStop r \<Longrightarrow> parseVal n d (encodeJson v @ r) =
     (if need v \<le> n \<and> jdepth v \<le> d then Some (v, r) else None)"
  "okDocs vs \<Longrightarrow> vs \<noteq> [] \<Longrightarrow> parseElems n d (encodeElems vs @ CHR '']'' # r) =
     (if needs vs \<le> n \<and> jdepths vs \<le> d then Some (vs, r) else None)"
  "okDocMembers kvs \<Longrightarrow> kvs \<noteq> [] \<Longrightarrow> parseMembers n d (encodeMembers kvs @ CHR ''}'' # r) =
     (if needMembers kvs \<le> n \<and> jdepthMembers kvs \<le> d then Some (kvs, r) else None)"
proof (induction v and vs and kvs arbitrary: n d r and n d r and n d r
    rule: okDoc_okDocs_okDocMembers.induct)
  case 1 then show ?case by (cases n) (simp_all add: parse_step parseKeyword_def startsWith_def)
next
  case (2 b) then show ?case
    by (cases n; cases b) (simp_all add: parse_step parseKeyword_def startsWith_def)
next
  case (3 l) then show ?case by (cases n) (simp_all add: parseNum_encode)
next
  case (4 s) then show ?case
    using decodeStr_encodeStr [of s r] by (cases n) (simp_all add: parse_step quoteStr_def)
next
  case (5 xs)
  show ?case
  proof (cases n; cases xs)
    fix n' x xs' assume n: "n = Suc n'" and xs: "xs = x # xs'"
    then obtain c t where c: "encodeJson x = c # t" "valueStart c"
      using 5 encodeJson_head [of x] by (metis okDoc.simps(5) okDocs.simps(2))
    then have "\<exists>t. encodeElems xs @ CHR '']'' # r = c # t" using xs by simp
    then obtain t' where t': "encodeElems xs @ CHR '']'' # r = c # t'" by blast
    have "parseElems n' (d - 1) (encodeElems xs @ CHR '']'' # r) =
        (if needs xs \<le> n' \<and> jdepths xs \<le> d - 1 then Some (xs, r) else None)"
      using 5 xs by simp
    then show ?thesis using n t' c valueStart_props [of c] by (cases d) (auto simp: parse_step)
  qed (simp_all add: parse_step)
next
  case (6 kvs)
  show ?case
  proof (cases n; cases kvs)
    fix n' x kvs' assume n: "n = Suc n'" and xs: "kvs = x # kvs'"
    then obtain t' where t': "encodeMembers kvs @ CHR ''}'' # r = CHR 0x22 # t'"
      by (cases x) (simp add: quoteStr_def)
    have "parseMembers n' (d - 1) (encodeMembers kvs @ CHR ''}'' # r) =
        (if needMembers kvs \<le> n' \<and> jdepthMembers kvs \<le> d - 1 then Some (kvs, r) else None)"
      using 6 xs by simp
    then show ?thesis using n t' by (cases d) (auto simp: parse_step)
  qed (simp_all add: parse_step)
next
  case (8 x xs)
  let ?r = "(if xs = [] then [] else CHR '','' # encodeElems xs) @ CHR '']'' # r"
  have x: "parseVal m d (encodeJson x @ ?r) =
      (if need x \<le> m \<and> jdepth x \<le> d then Some (x, ?r) else None)" for m
    using 8 by simp
  show ?case
  proof (cases n)
    case (Suc m)
    have "parseElems n d (encodeElems (x # xs) @ CHR '']'' # r) = parseElems n d (encodeJson x @ ?r)"
      by simp
    also have "\<dots> = (if needs (x # xs) \<le> n \<and> jdepths (x # xs) \<le> d then Some (x # xs, r) else None)"
      unfolding Suc parse_step x using 8 by simp
    finally show ?thesis .
  qed simp
next
  case (10 k v kvs)
  let ?r = "(if kvs = [] then [] else CHR '','' # encodeMembers kvs) @ CHR ''}'' # r"
  have x: "parseVal m d (encodeJson v @ ?r) =
      (if need v \<le> m \<and> jdepth v \<le> d then Some (v, ?r) else None)" for m
    using 10 by simp
  show ?case
  proof (cases n)
    case (Suc m)
    have "parseMembers n d (encodeMembers ((k, v) # kvs) @ CHR ''}'' # r) =
        parseMembers n d (CHR 0x22 # encodeStr k @ CHR 0x22 # CHR '':'' # encodeJson v @ ?r)"
      by (simp add: quoteStr_def)
    also have "\<dots> = (if needMembers ((k, v) # kvs) \<le> n \<and> jdepthMembers ((k, v) # kvs) \<le> d
        then Some ((k, v) # kvs, r) else None)"
      using 10 decodeStr_encodeStr [of k "CHR '':'' # encodeJson v @ ?r"] x [of m]
      by (simp add: parse_step Suc)
    finally show ?thesis .
  qed simp
qed simp_all

lemma need_bound:
  "okDoc v \<Longrightarrow> need v \<le> 2 * length (encodeJson v)"
  "okDocs vs \<Longrightarrow> needs vs \<le> 2 * length (encodeElems vs) + 1"
  "okDocMembers kvs \<Longrightarrow> needMembers kvs \<le> 2 * length (encodeMembers kvs) + 1"
proof (induction v and vs and kvs rule: okDoc_okDocs_okDocMembers.induct)
  case (3 l) then show ?case by (auto elim: numLit_head)
qed (auto simp: quoteStr_def)

lemma parseJson_encode:
  assumes "okDoc v"
  shows "parseJson (encodeJson v) = (if jdepth v \<le> maxNestingDepth then Some v else None)"
  using parse_encode(1) [of v "[]" "2 * length (encodeJson v) + 2" maxNestingDepth] assms
    need_bound(1) [OF assms]
  by (simp add: parseJson_def skipWs_def)

section \<open>\<open>json.Marshal\<close>\<close>

text \<open>\<open>Marshal\<close> refuses a number that has no JSON text (a float that is infinite or not a number);
  every value that \<open>Unmarshal\<close> produced has one.\<close>

fun numsOk :: "json \<Rightarrow> bool"
  and numsOks :: "json list \<Rightarrow> bool"
  and numsOkMembers :: "(string \<times> json) list \<Rightarrow> bool" where
  "numsOk (JNum l) = isNumLit l"
| "numsOk (JArr xs) = numsOks xs"
| "numsOk (JObj kvs) = numsOkMembers kvs"
| "numsOk v = True"
| "numsOks [] = True"
| "numsOks (x # xs) = (numsOk x \<and> numsOks xs)"
| "numsOkMembers [] = True"
| "numsOkMembers ((k, v) # kvs) = (numsOk v \<and> numsOkMembers kvs)"

definition Marshal :: "json \<Rightarrow> string option" where
  "Marshal v = (if numsOk v then Some (encodeJson v) else None)"

lemma okDoc_numsOk:
  "okDoc v \<Longrightarrow> numsOk v" "okDocs vs \<Longrightarrow> numsOks vs" "okDocMembers kvs \<Longrightarrow> numsOkMembers kvs"
  by (induction v and vs and kvs rule: okDoc_okDocs_okDocMembers.induct) auto

lemma Marshal_okDoc [simp]: "okDoc v \<Longrightarrow> Marshal v = Some (encodeJson v)"
  by (simp add: Marshal_def okDoc_numsOk)

lemma okDocMembers_append [simp]:
  "okDocMembers (a @ b) \<longleftrightarrow> okDocMembers a \<and> okDocMembers b"
  by (induction a) auto

lemma jdepthMembers_append [simp]:
  "jdepthMembers (a @ b) = max (jdepthMembers a) (jdepthMembers b)"
  by (induction a) auto

text \<open>Printed JSON holds no control character, so a value is one line of a log.\<close>

definition printable :: "string \<Rightarrow> bool" where
  "printable s \<longleftrightarrow> (\<forall>c\<in>set s. 32 \<le> byteVal c)"

lemma printable_simps [simp]:
  "printable []" "printable (c # s) \<longleftrightarrow> 32 \<le> byteVal c \<and> printable s"
  "printable (s @ t) \<longleftrightarrow> printable s \<and> printable t"
  by (auto simp: printable_def)

lemma printable_no_newline: "printable s \<Longrightarrow> NL \<notin> set s \<and> CR \<notin> set s"
  by (auto simp: printable_def byteVal_def)

lemma hexChar_printable: "d < 16 \<Longrightarrow> 32 \<le> byteVal (hexChar d)"
  using isHexChar_hexChar [of d] by (auto simp: isHexChar_def byteVal_def)

lemma escapeByte_printable: "byteVal c < 128 \<Longrightarrow> printable (escapeByte c)"
proof -
  assume c: "byteVal c < 128"
  have "byteVal c div 16 < 16" "byteVal c mod 16 < 16" using c by auto
  then have "printable (hex4 (byteVal c))"
    using c hexChar_printable [of 0] by (simp add: hex4_def hexByte_def hexChar_printable)
  then show ?thesis by (simp add: escapeByte_def jsonSafe_def) (auto simp: byteVal_def)
qed

lemma inRanges_high:
  "inRanges rs t \<Longrightarrow> (\<forall>(lo, hi)\<in>set rs. 128 \<le> lo \<and> hi \<le> 191) \<Longrightarrow>
   printable (take (length rs) t)"
  by (induction rs t rule: inRanges.induct) (auto simp: byteIn_def)

lemma utf8_high_printable: "\<not> byteVal c < 128 \<Longrightarrow> printable (take (utf8Size (c # t)) (c # t))"
  by (auto simp: utf8Size.simps inRanges_high dest: leadRanges_cont split: option.splits)

lemma encodeStr_printable: "printable (encodeStr s)"
proof (induction s rule: encodeStr.induct)
  case (1 s)
  show ?case
  proof (cases s)
    case (Cons c t)
    note eq = encodeStr.simps [of "c # t"] and IH = 1 [OF Cons, folded Cons]
    let ?seps = "{[CHR 0xE2, CHR 0x80, CHR 0xA8], [CHR 0xE2, CHR 0x80, CHR 0xA9]}"
    consider (ascii) "byteVal c < 128" | (bad) "\<not> byteVal c < 128" "utf8Size s = 0"
      | (sep) "\<not> byteVal c < 128" "utf8Size s \<noteq> 0" "take 3 s \<in> ?seps"
      | (rune) "\<not> byteVal c < 128" "utf8Size s \<noteq> 0" "take 3 s \<notin> ?seps" by blast
    then show ?thesis
    proof cases
      case ascii
      with IH(1) Cons show ?thesis by (simp add: eq escapeByte_printable)
    next
      case bad
      with IH(2) Cons show ?thesis by (simp add: eq) (simp add: byteVal_def)
    next
      case sep
      then have "printable (encodeStr (drop 3 s))" using IH(3) IH(4) by auto
      with sep Cons show ?thesis by (auto simp: eq) (simp_all add: byteVal_def)
    next
      case rune
      then have "printable (encodeStr (drop (utf8Size s) s))" using IH(5) by auto
      moreover have "encodeStr s = take (utf8Size s) s @ encodeStr (drop (utf8Size s) s)"
        using rune Cons by (auto simp: eq)
      ultimately show ?thesis using utf8_high_printable [OF rune(1), of t] Cons by simp
    qed
  qed (simp add: encodeStr.simps)
qed

lemma numLit_printable:
  assumes "isNumLit l"
  shows "printable l"
proof -
  obtain sg i f e s1 s2 s3 r where l: "l = sg @ i @ f @ e" and sg: "scanSign l = (sg, s1)"
    and i: "scanInt s1 = Some (i, s2)" and f: "scanFrac s2 = Some (f, s3)" and e: "scanExp s3 = Some (e, r)"
    using assms by (auto simp: isNumLit_def scanNumber_def scanParts_def split: option.splits prod.splits)
  have d: "\<forall>c\<in>set ds. isDigit c \<Longrightarrow> printable ds" for ds
    by (auto simp: printable_def isDigit_range)
  have "printable sg" using sg by (auto simp: scanSign_def byteVal_def split: list.splits if_splits)
  moreover have "printable i" using scanInt_shape [OF i] d by blast
  moreover have "printable f" using scanFrac_shape [OF f] d by (auto simp: byteVal_def)
  moreover have "printable e" using scanExp_shape [OF e] d by (auto simp: byteVal_def)
  ultimately show ?thesis by (simp add: l)
qed

lemma quoteStr_printable: "printable (quoteStr s)"
  by (simp add: quoteStr_def encodeStr_printable) (simp add: byteVal_def)

lemma encode_printable:
  "numsOk v \<Longrightarrow> printable (encodeJson v)" "numsOks vs \<Longrightarrow> printable (encodeElems vs)"
  "numsOkMembers kvs \<Longrightarrow> printable (encodeMembers kvs)"
  by (induction v and vs and kvs rule: numsOk_numsOks_numsOkMembers.induct)
    (auto simp: numLit_printable quoteStr_printable, simp_all add: byteVal_def)

end
