(* ===== verification/Go_Sha256.thy ===== *)
theory Go_Sha256
  imports Go_Encoding
begin

text \<open>
  \<open>crypto/sha256\<close> as FIPS 180-4 states it, on 32-bit words, and the hexadecimal digest
  \<open>sha256Hex\<close> of \<open>cmd/server/main.go\<close>.  The chain theorems use no cryptographic assumption: the
  tamper-evidence results either hold or exhibit two different inputs with one digest.
\<close>

unbundle bit_operations_syntax

type_synonym u32 = "32 word"

definition rotr :: "nat \<Rightarrow> u32 \<Rightarrow> u32" where
  "rotr n x = drop_bit n x OR push_bit (32 - n) x"

definition bigSigma0 :: "u32 \<Rightarrow> u32" where
  "bigSigma0 x = rotr 2 x XOR rotr 13 x XOR rotr 22 x"

definition bigSigma1 :: "u32 \<Rightarrow> u32" where
  "bigSigma1 x = rotr 6 x XOR rotr 11 x XOR rotr 25 x"

definition smallSigma0 :: "u32 \<Rightarrow> u32" where
  "smallSigma0 x = rotr 7 x XOR rotr 18 x XOR drop_bit 3 x"

definition smallSigma1 :: "u32 \<Rightarrow> u32" where
  "smallSigma1 x = rotr 17 x XOR rotr 19 x XOR drop_bit 10 x"

definition chFun :: "u32 \<Rightarrow> u32 \<Rightarrow> u32 \<Rightarrow> u32" where
  "chFun x y z = (x AND y) XOR (NOT x AND z)"

definition majFun :: "u32 \<Rightarrow> u32 \<Rightarrow> u32 \<Rightarrow> u32" where
  "majFun x y z = (x AND y) XOR (x AND z) XOR (y AND z)"

definition roundConstants :: "u32 list" where
  "roundConstants =
    [1116352408, 1899447441, 3049323471, 3921009573, 961987163, 1508970993,
     2453635748, 2870763221, 3624381080, 310598401, 607225278, 1426881987,
     1925078388, 2162078206, 2614888103, 3248222580, 3835390401, 4022224774,
     264347078, 604807628, 770255983, 1249150122, 1555081692, 1996064986,
     2554220882, 2821834349, 2952996808, 3210313671, 3336571891, 3584528711,
     113926993, 338241895, 666307205, 773529912, 1294757372, 1396182291,
     1695183700, 1986661051, 2177026350, 2456956037, 2730485921, 2820302411,
     3259730800, 3345764771, 3516065817, 3600352804, 4094571909, 275423344,
     430227734, 506948616, 659060556, 883997877, 958139571, 1322822218,
     1537002063, 1747873779, 1955562222, 2024104815, 2227730452, 2361852424,
     2428436474, 2756734187, 3204031479, 3329325298]"

definition initialHash :: "u32 list" where
  "initialHash =
    [1779033703, 3144134277, 1013904242, 2773480762, 1359893119, 2600822924,
     528734635, 1541459225]"

text \<open>Padding: a one bit, zeros, and the bit length as a 64-bit big-endian integer.\<close>

definition bigEndian8 :: "64 word \<Rightarrow> 8 word list" where
  "bigEndian8 n = map (\<lambda>i. ucast (drop_bit i n)) [56, 48, 40, 32, 24, 16, 8, 0]"

definition padMessage :: "8 word list \<Rightarrow> 8 word list" where
  "padMessage bs =
     bs @ [128] @ replicate ((119 - length bs mod 64) mod 64) 0
        @ bigEndian8 (8 * word_of_nat (length bs))"

fun chunksOf :: "nat \<Rightarrow> 'a list \<Rightarrow> nat \<Rightarrow> 'a list list" where
  "chunksOf k xs 0 = []"
| "chunksOf k xs (Suc n) = take k xs # chunksOf k (drop k xs) n"

definition wordOfBytes :: "8 word list \<Rightarrow> u32" where
  "wordOfBytes bs = foldl (\<lambda>w b. push_bit 8 w OR ucast b) 0 bs"

text \<open>The message schedule, kept as the last sixteen words, newest last.\<close>

definition nextWord :: "u32 list \<Rightarrow> u32" where
  "nextWord ws = smallSigma1 (ws ! 14) + ws ! 9 + smallSigma0 (ws ! 1) + ws ! 0"

fun compressRounds :: "u32 list \<Rightarrow> u32 list \<Rightarrow> u32 list \<Rightarrow> u32 list" where
  "compressRounds [] ws st = st"
| "compressRounds (k # ks) ws st =
     (case st of
        [a, b, c, d, e, f, g, h] \<Rightarrow>
          let t1 = h + bigSigma1 e + chFun e f g + k + ws ! 0;
              t2 = bigSigma0 a + majFun a b c
          in compressRounds ks (tl ws @ [nextWord ws]) [t1 + t2, a, b, c, d + t1, e, f, g]
      | _ \<Rightarrow> st)"

definition compressBlock :: "u32 list \<Rightarrow> 8 word list \<Rightarrow> u32 list" where
  "compressBlock hs block =
     map2 (+) hs (compressRounds roundConstants (map wordOfBytes (chunksOf 4 block 16)) hs)"

definition bytesOfWord :: "u32 \<Rightarrow> 8 word list" where
  "bytesOfWord w = map (\<lambda>i. ucast (drop_bit i w)) [24, 16, 8, 0]"

definition sha256Words :: "8 word list \<Rightarrow> u32 list" where
  "sha256Words bs =
     (let p = padMessage bs in foldl compressBlock initialHash (chunksOf 64 p (length p div 64)))"

definition Sum256 :: "string \<Rightarrow> string" where
  "Sum256 s =
     map (\<lambda>b. char_of (unat b))
       (concat (map bytesOfWord (sha256Words (map (\<lambda>c. word_of_nat (byteVal c)) s))))"

definition sha256Hex :: "string \<Rightarrow> string" where
  "sha256Hex input = hexEncode (Sum256 input)"

section \<open>Shape of a digest\<close>

lemma length_compressRounds: "length st = 8 \<Longrightarrow> length (compressRounds ks ws st) = 8"
  by (induction ks ws st rule: compressRounds.induct) (auto simp: Let_def split: list.splits)

lemma length_compressBlock: "length hs = 8 \<Longrightarrow> length (compressBlock hs block) = 8"
  by (simp add: compressBlock_def length_compressRounds)

lemma length_foldl_compressBlock:
  "length hs = 8 \<Longrightarrow> length (foldl compressBlock hs bs) = 8"
  by (induction bs arbitrary: hs) (auto simp: length_compressBlock)

lemma length_concat_bytesOfWord: "length (concat (map bytesOfWord ws)) = 4 * length ws"
  by (induction ws) (auto simp: bytesOfWord_def)

lemma length_Sum256 [simp]: "length (Sum256 s) = 32"
proof -
  have "length initialHash = 8" by (simp add: initialHash_def)
  then show ?thesis
    by (simp add: Sum256_def length_concat_bytesOfWord sha256Words_def Let_def
        length_foldl_compressBlock)
qed

lemma length_sha256Hex [simp]: "length (sha256Hex s) = 64"
  by (simp add: sha256Hex_def)

lemma sha256Hex_chars: "c \<in> set (sha256Hex s) \<Longrightarrow> isHexChar c"
  using hexEncode_chars [of "Sum256 s"] by (simp add: sha256Hex_def list_all_iff)

lemma sha256Hex_nonempty [simp]: "sha256Hex s \<noteq> []"
  using length_sha256Hex [of s] by fastforce

lemma padMessage_blocks: "64 dvd length (padMessage bs)"
proof -
  define q where "q = length bs div 64"
  define r where "r = length bs mod 64"
  have r: "r < 64" and len: "length bs = 64 * q + r" by (simp_all add: q_def r_def)
  have "\<exists>k. length bs + 1 + (119 - r) mod 64 + 8 = 64 * k"
  proof (cases "r \<le> 55")
    case True
    then have "(119 - r) mod 64 = 55 - r" by (subst mod_if) simp
    with True len show ?thesis by (intro exI [of _ "q + 1"]) simp
  next
    case False
    with r len show ?thesis by (intro exI [of _ "q + 2"]) simp
  qed
  moreover have "length (padMessage bs) = length bs + 1 + (119 - r) mod 64 + 8"
    by (simp add: padMessage_def bigEndian8_def r_def)
  ultimately show ?thesis by (metis dvd_triv_left)
qed

end
