(* ===== verification/Server_Model.thy ===== *)
theory Server_Model
  imports Go_JsonRound Go_Sha256
begin

text \<open>
  The data of the server (\<open>cmd/server/main.go\<close>): log records, chained entries, query and
  verification results, and their JSON forms.  \<open>Marshal\<close> of a record omits an empty \<open>clientId\<close>
  and an empty \<open>metadata\<close>; \<open>Unmarshal\<close> reads members in order, matches names exactly and then
  by case folding, leaves a field alone on \<open>null\<close> (a map becomes nil) and merges repeated
  \<open>metadata\<close> and \<open>record\<close> members.  The round trips at the end are what the stores rest on.
\<close>

section \<open>Errors and results\<close>

text \<open>\<open>ErrFmt\<close> is \<open>fmt.Errorf\<close> kept as its format and arguments where it quotes one with \<open>%q\<close>;
  \<open>ErrWrap msg e\<close> is \<open>fmt.Errorf("msg: %w", e)\<close>.\<close>

datatype goerror = ErrUnauthorized | ErrOS string | ErrJSON | ErrTooLong | ErrDB string
  | ErrMsg string | ErrFmt string "string list" | ErrPanic string | ErrWrap string goerror

type_synonym 'a result = "goerror + 'a"

section \<open>Records and entries\<close>

record LogRecord =
  recClientID :: string
  recApp :: string
  recLevel :: string
  recMessage :: string
  recMetadata :: "gomap option"

record Entry =
  eIndex :: uint64
  eTimestamp :: string
  ePrevHash :: string
  ePayloadHash :: string
  eEntryHash :: string
  eRecord :: LogRecord

record VerifyResult =
  vValid :: bool
  vTotalEntries :: uint64
  vLastHash :: string
  vInvalidAt :: "uint64 option"
  vReason :: "string option"

record LogQuery =
  qClientID :: string
  qApp :: string
  qLevel :: string
  qText :: string
  qLimit :: int
  qOffset :: int
  qAfterIndex :: uint64
  qWantTotal :: bool

record LogQueryResult =
  qrItems :: "Entry list"
  qrLimit :: int
  qrNextCursor :: "string option"
  qrTotal :: "int option"
  qrOffset :: "int option"

definition zeroRecord :: LogRecord where
  "zeroRecord = \<lparr>recClientID = [], recApp = [], recLevel = [], recMessage = [], recMetadata = None\<rparr>"

definition zeroEntry :: Entry where
  "zeroEntry = \<lparr>eIndex = 0, eTimestamp = [], ePrevHash = [], ePayloadHash = [], eEntryHash = [],
     eRecord = zeroRecord\<rparr>"

text \<open>A request as the handlers see it: \<open>reqQuery\<close> is \<open>r.URL.Query().Get\<close> and \<open>reqHeader\<close> is
  \<open>r.Header.Get\<close>, both empty for an absent name; \<open>reqBodyErr\<close> says that reading the body fails
  before its end.\<close>

record Request =
  reqMethod :: string
  reqPath :: string
  reqQuery :: "string \<Rightarrow> string"
  reqHeader :: "string \<Rightarrow> string"
  reqBody :: string
  reqBodyErr :: bool

section \<open>Marshal\<close>

definition metadataMembers :: "gomap option \<Rightarrow> (string \<times> json) list" where
  "metadataMembers md = (case md of
      None \<Rightarrow> []
    | Some m \<Rightarrow> if m = [] then [] else [(''metadata'', JObj m)])"

definition recordJson :: "LogRecord \<Rightarrow> json" where
  "recordJson r = JObj
     ((if recClientID r = [] then [] else [(''clientId'', JStr (recClientID r))]) @
      [(''app'', JStr (recApp r)), (''level'', JStr (recLevel r)), (''message'', JStr (recMessage r))] @
      metadataMembers (recMetadata r))"

definition entryJson :: "Entry \<Rightarrow> json" where
  "entryJson e = JObj
     [(''index'', JNum (FormatUint (unat (eIndex e)))),
      (''timestamp'', JStr (eTimestamp e)),
      (''prevHash'', JStr (ePrevHash e)),
      (''payloadHash'', JStr (ePayloadHash e)),
      (''entryHash'', JStr (eEntryHash e)),
      (''record'', recordJson (eRecord e))]"

definition marshalRecord :: "LogRecord \<Rightarrow> string option" where
  "marshalRecord r = Marshal (recordJson r)"

definition marshalEntry :: "Entry \<Rightarrow> string option" where
  "marshalEntry e = Marshal (entryJson e)"

section \<open>Unmarshal\<close>

text \<open>\<open>foldName\<close> of \<open>encoding/json\<close>: ASCII letters in upper case, and the two runes outside ASCII
  that fold to an ASCII letter (the long s and the Kelvin sign).\<close>

function foldName :: "string \<Rightarrow> string" where
  "foldName s = (case s of
      [] \<Rightarrow> []
    | c # t \<Rightarrow>
        if take 2 s = [CHR 0xC5, CHR 0xBF] then CHR ''S'' # foldName (drop 2 s)
        else if take 3 s = [CHR 0xE2, CHR 0x84, CHR 0xAA] then CHR ''K'' # foldName (drop 3 s)
        else upperByte c # foldName t)"
  by pat_completeness auto
termination
  by (relation "measure length") auto

declare foldName.simps [simp del]

text \<open>The field a member name selects: the exact name, else the first with the same folding.\<close>

definition matchField :: "string list \<Rightarrow> string \<Rightarrow> string option" where
  "matchField names k = (if k \<in> set names then Some k else find (\<lambda>n. foldName n = foldName k) names)"

fun decodeString :: "json \<Rightarrow> string \<Rightarrow> string option" where
  "decodeString (JStr s) old = Some s"
| "decodeString JNull old = Some old"
| "decodeString _ old = None"

fun decodeUint64 :: "json \<Rightarrow> uint64 \<Rightarrow> uint64 option" where
  "decodeUint64 (JNum l) old = ParseUint l"
| "decodeUint64 JNull old = Some old"
| "decodeUint64 _ old = None"

fun decodeMap :: "json \<Rightarrow> gomap option \<Rightarrow> gomap option option" where
  "decodeMap (JObj kvs) old = map_option Some (putAll (case old of None \<Rightarrow> [] | Some m \<Rightarrow> m) kvs)"
| "decodeMap JNull old = Some None"
| "decodeMap _ old = None"

definition recordFields :: "string list" where
  "recordFields = [''clientId'', ''app'', ''level'', ''message'', ''metadata'']"

definition setRecordField :: "string \<Rightarrow> json \<Rightarrow> LogRecord \<Rightarrow> LogRecord option" where
  "setRecordField f v r =
     (if f = ''clientId'' then map_option (\<lambda>s. r\<lparr>recClientID := s\<rparr>) (decodeString v (recClientID r))
      else if f = ''app'' then map_option (\<lambda>s. r\<lparr>recApp := s\<rparr>) (decodeString v (recApp r))
      else if f = ''level'' then map_option (\<lambda>s. r\<lparr>recLevel := s\<rparr>) (decodeString v (recLevel r))
      else if f = ''message'' then map_option (\<lambda>s. r\<lparr>recMessage := s\<rparr>) (decodeString v (recMessage r))
      else map_option (\<lambda>m. r\<lparr>recMetadata := m\<rparr>) (decodeMap v (recMetadata r)))"

fun decodeFields :: "string list \<Rightarrow> (string \<Rightarrow> json \<Rightarrow> 'a \<Rightarrow> 'a option) \<Rightarrow> (string \<times> json) list \<Rightarrow> 'a \<Rightarrow> 'a option" where
  "decodeFields names set_field [] x = Some x"
| "decodeFields names set_field ((k, v) # kvs) x =
     (case matchField names k of
        None \<Rightarrow> decodeFields names set_field kvs x
      | Some f \<Rightarrow> (case set_field f v x of
            None \<Rightarrow> None
          | Some y \<Rightarrow> decodeFields names set_field kvs y))"

text \<open>A struct accepts an object, and \<open>null\<close>, which changes nothing.\<close>

fun decodeStruct :: "string list \<Rightarrow> (string \<Rightarrow> json \<Rightarrow> 'a \<Rightarrow> 'a option) \<Rightarrow> json \<Rightarrow> 'a \<Rightarrow> 'a option" where
  "decodeStruct names set_field (JObj kvs) x = decodeFields names set_field kvs x"
| "decodeStruct names set_field JNull x = Some x"
| "decodeStruct names set_field _ x = None"

definition entryFields :: "string list" where
  "entryFields = [''index'', ''timestamp'', ''prevHash'', ''payloadHash'', ''entryHash'', ''record'']"

definition setEntryField :: "string \<Rightarrow> json \<Rightarrow> Entry \<Rightarrow> Entry option" where
  "setEntryField f v e =
     (if f = ''index'' then map_option (\<lambda>i. e\<lparr>eIndex := i\<rparr>) (decodeUint64 v (eIndex e))
      else if f = ''timestamp'' then map_option (\<lambda>s. e\<lparr>eTimestamp := s\<rparr>) (decodeString v (eTimestamp e))
      else if f = ''prevHash'' then map_option (\<lambda>s. e\<lparr>ePrevHash := s\<rparr>) (decodeString v (ePrevHash e))
      else if f = ''payloadHash'' then map_option (\<lambda>s. e\<lparr>ePayloadHash := s\<rparr>) (decodeString v (ePayloadHash e))
      else if f = ''entryHash'' then map_option (\<lambda>s. e\<lparr>eEntryHash := s\<rparr>) (decodeString v (eEntryHash e))
      else map_option (\<lambda>r. e\<lparr>eRecord := r\<rparr>) (decodeStruct recordFields setRecordField v (eRecord e)))"

definition unmarshalRecord :: "string \<Rightarrow> LogRecord option" where
  "unmarshalRecord s = (case parseJson s of
      None \<Rightarrow> None
    | Some v \<Rightarrow> decodeStruct recordFields setRecordField v zeroRecord)"

definition unmarshalEntry :: "string \<Rightarrow> Entry option" where
  "unmarshalEntry s = (case parseJson s of
      None \<Rightarrow> None
    | Some v \<Rightarrow> decodeStruct entryFields setEntryField v zeroEntry)"

section \<open>Well-formed records\<close>

text \<open>What a record decoded from JSON satisfies: valid UTF-8 strings and a metadata map that
  \<open>Unmarshal\<close> can have built.\<close>

definition okRecord :: "LogRecord \<Rightarrow> bool" where
  "okRecord r \<longleftrightarrow> validUtf8 (recClientID r) \<and> validUtf8 (recApp r) \<and> validUtf8 (recLevel r) \<and>
     validUtf8 (recMessage r) \<and> (case recMetadata r of None \<Rightarrow> True | Some m \<Rightarrow> okGoMap m)"

definition okEntry :: "Entry \<Rightarrow> bool" where
  "okEntry e \<longleftrightarrow> validUtf8 (eTimestamp e) \<and> validUtf8 (ePrevHash e) \<and> validUtf8 (ePayloadHash e) \<and>
     validUtf8 (eEntryHash e) \<and> okRecord (eRecord e)"

text \<open>An empty metadata map is printed as no map at all and read back as nil.\<close>

definition normRecord :: "LogRecord \<Rightarrow> LogRecord" where
  "normRecord r = r\<lparr>recMetadata := (if recMetadata r = Some [] then None else recMetadata r)\<rparr>"

definition normEntry :: "Entry \<Rightarrow> Entry" where
  "normEntry e = e\<lparr>eRecord := normRecord (eRecord e)\<rparr>"

definition recordDepth :: "LogRecord \<Rightarrow> nat" where
  "recordDepth r = jdepth (recordJson r)"

lemma okDoc_recordJson: "okRecord r \<Longrightarrow> okDoc (recordJson r)"
  by (auto simp: okRecord_def recordJson_def metadataMembers_def okGoMap_def okAny_okDoc
      byteVal_def split: option.splits)

lemma FormatUint_head: "0 < n \<Longrightarrow> hd (FormatUint n) \<noteq> CHR ''0''"
proof (induction n rule: FormatUint.induct)
  case (1 n)
  show ?case
  proof (cases "n < 10")
    case True
    then have "digitVal (digitChar n) = Some n" by simp
    then have "digitChar n \<noteq> CHR ''0''" using "1.prems" by (auto simp: digitVal_def)
    with True show ?thesis by (simp add: FormatUint.simps [of n])
  next
    case False
    then show ?thesis using 1 by (simp add: FormatUint.simps [of n])
  qed
qed

lemma FormatUint_isDigit: "\<forall>c\<in>set (FormatUint n). isDigit c"
proof
  fix c assume "c \<in> set (FormatUint n)"
  then show "isDigit c" by (drule_tac FormatUint_chars) (auto simp: isDigit_def digitVal_def)
qed

lemma digits_isNumLit: "isNumLit (FormatUint n)"
proof -
  obtain c t where ct: "FormatUint n = c # t" by (cases "FormatUint n") auto
  have c: "isDigit c" using FormatUint_isDigit [of n] ct by simp
  have "n = 0 \<or> c \<noteq> CHR ''0''" using FormatUint_head [of n] ct by auto
  moreover have "FormatUint 0 = ''0''" by (simp add: FormatUint.simps [of 0] digitChar_def)
  ultimately have "scanInt (c # t) = Some (c # t, [])"
    using c ct digit_run_id [OF FormatUint_isDigit [of n]] by (auto simp: scanInt_def)
  moreover have "scanSign (c # t) = ([], c # t)" using c not_digit by (auto simp: scanSign_def)
  ultimately show ?thesis
    by (simp add: ct isNumLit_def scanNumber_def scanParts_def scanFrac_def scanExp_def)
qed

lemma okDoc_entryJson: "okEntry e \<Longrightarrow> okDoc (entryJson e)"
  by (simp add: okEntry_def entryJson_def digits_isNumLit okDoc_recordJson byteVal_def)

section \<open>Round trips\<close>

lemma normRecord_idem [simp]: "normRecord (normRecord r) = normRecord r"
  by (simp add: normRecord_def)

lemma recordJson_norm [simp]: "recordJson (normRecord r) = recordJson r"
  by (auto simp: recordJson_def normRecord_def metadataMembers_def split: option.splits)

lemma matchField_record:
  "matchField recordFields ''clientId'' = Some ''clientId''" "matchField recordFields ''app'' = Some ''app''"
  "matchField recordFields ''level'' = Some ''level''" "matchField recordFields ''message'' = Some ''message''"
  "matchField recordFields ''metadata'' = Some ''metadata''"
  by (simp_all add: matchField_def recordFields_def)

lemma matchField_entry:
  "matchField entryFields ''index'' = Some ''index''" "matchField entryFields ''timestamp'' = Some ''timestamp''"
  "matchField entryFields ''prevHash'' = Some ''prevHash''"
  "matchField entryFields ''payloadHash'' = Some ''payloadHash''"
  "matchField entryFields ''entryHash'' = Some ''entryHash''" "matchField entryFields ''record'' = Some ''record''"
  by (simp_all add: matchField_def entryFields_def)

lemma decodeStruct_record:
  "okRecord r \<Longrightarrow> decodeStruct recordFields setRecordField (recordJson r) zeroRecord = Some (normRecord r)"
  by (cases "recMetadata r"; cases "recClientID r = []"; cases "recMetadata r = Some []")
    (auto simp: recordJson_def metadataMembers_def matchField_record setRecordField_def zeroRecord_def
      normRecord_def okRecord_def putAll_id)

lemma decodeStruct_entry:
  "okEntry e \<Longrightarrow> decodeStruct entryFields setEntryField (entryJson e) zeroEntry = Some (normEntry e)"
  using decodeStruct_record [of "eRecord e"]
  by (simp add: entryJson_def matchField_entry setEntryField_def zeroEntry_def normEntry_def okEntry_def)

text \<open>A record printed and read back is the record, exactly when the text nests no deeper than the
  decoder accepts; an entry nests one level more than its record.\<close>

lemma jdepth_entryJson: "jdepth (entryJson e) = Suc (recordDepth (eRecord e))"
  by (simp add: entryJson_def recordDepth_def)

lemma unmarshal_marshalRecord:
  "okRecord r \<Longrightarrow> marshalRecord r = Some s \<Longrightarrow>
   unmarshalRecord s = (if recordDepth r \<le> maxNestingDepth then Some (normRecord r) else None)"
  using decodeStruct_record [of r] parseJson_encode [OF okDoc_recordJson, of r]
  by (auto simp: unmarshalRecord_def marshalRecord_def okDoc_recordJson recordDepth_def)

lemma unmarshal_marshalEntry:
  "okEntry e \<Longrightarrow> marshalEntry e = Some s \<Longrightarrow>
   unmarshalEntry s = (if recordDepth (eRecord e) < maxNestingDepth then Some (normEntry e) else None)"
  using decodeStruct_entry [of e] parseJson_encode [OF okDoc_entryJson, of e]
  by (auto simp: unmarshalEntry_def marshalEntry_def okDoc_entryJson jdepth_entryJson)

lemma marshalRecord_ok: "okRecord r \<Longrightarrow> marshalRecord r = Some (encodeJson (recordJson r))"
  by (simp add: marshalRecord_def okDoc_recordJson)

lemma marshalEntry_ok: "okEntry e \<Longrightarrow> marshalEntry e = Some (encodeJson (entryJson e))"
  by (simp add: marshalEntry_def okDoc_entryJson)

lemma encodeJson_inj: "okDoc v \<Longrightarrow> okDoc w \<Longrightarrow> encodeJson v = encodeJson w \<Longrightarrow> v = w"
  using parse_encode(1) [of v "[]" "max (need v) (need w)" "max (jdepth v) (jdepth w)"]
    parse_encode(1) [of w "[]" "max (need v) (need w)" "max (jdepth v) (jdepth w)"]
  by simp

text \<open>Two records with the same printed form are the same record.\<close>

lemma marshalRecord_inj:
  assumes "okRecord r" "okRecord r'" "marshalRecord r = marshalRecord r'"
  shows "normRecord r = normRecord r'"
proof -
  have "recordJson r = recordJson r'"
    using assms encodeJson_inj [OF okDoc_recordJson okDoc_recordJson] by (simp add: marshalRecord_ok)
  then show ?thesis using assms decodeStruct_record by (metis option.inject)
qed

section \<open>What decoding guarantees\<close>

lemma decodeFields_inv:
  assumes "\<And>f v x y. okDoc v \<Longrightarrow> P x \<Longrightarrow> set_field f v x = Some y \<Longrightarrow> P y"
  shows "okDocMembers kvs \<Longrightarrow> P x \<Longrightarrow> decodeFields names set_field kvs x = Some y \<Longrightarrow> P y"
proof (induction kvs arbitrary: x)
  case (Cons kv kvs)
  obtain k v where kv: "kv = (k, v)" by fastforce
  have "P z" if "set_field f v x = Some z" for f z using assms that Cons.prems kv by auto
  then show ?case using Cons kv by (auto split: option.splits)
qed simp

lemma decodeStruct_inv:
  assumes "\<And>f v x y. okDoc v \<Longrightarrow> P x \<Longrightarrow> set_field f v x = Some y \<Longrightarrow> P y"
  shows "okDoc v \<Longrightarrow> P x \<Longrightarrow> decodeStruct names set_field v x = Some y \<Longrightarrow> P y"
  using decodeFields_inv [of P set_field _ x names y] assms by (cases v) simp_all

lemma decodeString_ok: "okDoc v \<Longrightarrow> validUtf8 old \<Longrightarrow> decodeString v old = Some s \<Longrightarrow> validUtf8 s"
  by (cases v) auto

lemma decodeMap_ok:
  "okDoc v \<Longrightarrow> (case old of None \<Rightarrow> True | Some m \<Rightarrow> okGoMap m) \<Longrightarrow> decodeMap v old = Some md \<Longrightarrow>
   (case md of None \<Rightarrow> True | Some m \<Rightarrow> okGoMap m)"
  by (cases v) (auto simp: okGoMap_def sortedMap_def split: option.splits dest!: toAny_ok(3))

lemma setRecordField_ok:
  assumes "okDoc v" "okRecord r" "setRecordField f v r = Some r'"
  shows "okRecord r'"
proof -
  note string = decodeString_ok [OF assms(1)] and map = decodeMap_ok [OF assms(1), of "recMetadata r"]
  show ?thesis
    using assms(2,3) map unfolding setRecordField_def okRecord_def
    by (auto split: if_splits intro: string)
qed

lemma decodeRecord_ok:
  "okDoc v \<Longrightarrow> okRecord r \<Longrightarrow> decodeStruct recordFields setRecordField v r = Some r' \<Longrightarrow> okRecord r'"
  by (rule decodeStruct_inv [of okRecord setRecordField]) (auto intro: setRecordField_ok)

lemma okRecord_zero: "okRecord zeroRecord"
  by (simp add: okRecord_def zeroRecord_def)

lemma unmarshalRecord_ok: "unmarshalRecord s = Some r \<Longrightarrow> okRecord r"
  using decodeRecord_ok [OF _ okRecord_zero] parseJson_okDoc
  by (auto simp: unmarshalRecord_def split: option.splits)

lemma setEntryField_ok:
  "okDoc v \<Longrightarrow> okEntry e \<Longrightarrow> setEntryField f v e = Some e' \<Longrightarrow> okEntry e'"
  unfolding setEntryField_def okEntry_def
  by (auto split: if_splits intro: decodeString_ok decodeRecord_ok)

lemma unmarshalEntry_ok: "unmarshalEntry s = Some e \<Longrightarrow> okEntry e"
proof -
  assume "unmarshalEntry s = Some e"
  then obtain v where v: "parseJson s = Some v" "decodeStruct entryFields setEntryField v zeroEntry = Some e"
    by (auto simp: unmarshalEntry_def split: option.splits)
  have "okEntry zeroEntry" by (simp add: okEntry_def zeroEntry_def okRecord_zero)
  with v show ?thesis
    using decodeStruct_inv [of okEntry setEntryField v zeroEntry entryFields e] setEntryField_ok
      parseJson_okDoc by blast
qed

end
