(* ===== verification/Server_Query.thy ===== *)
theory Server_Query
  imports Server_Model
begin

text \<open>
  \<open>cmd/server/query.go\<close>: the query limits, the reading of a query from a request, and the
  cursor.  A cursor is the base64 text of \<open>v1:\<close> and a decimal index; decoding inverts encoding
  on every index a \<open>BIGINT\<close> can hold and refuses every other.
\<close>

section \<open>Limits\<close>

record QueryLimits =
  limDefault :: int
  limMax :: int
  limMaxOffset :: int

definition defaultQueryLimits :: QueryLimits where
  "defaultQueryLimits = \<lparr>limDefault = 50, limMax = 500, limMaxOffset = 10000\<rparr>"

definition getEnv :: "(string \<Rightarrow> string) \<Rightarrow> string \<Rightarrow> string \<Rightarrow> string" where
  "getEnv env key fallback =
     (let v = TrimSpace (env key) in if v = [] then fallback else v)"

definition envInt :: "(string \<Rightarrow> string) \<Rightarrow> string \<Rightarrow> int \<Rightarrow> int" where
  "envInt env key fallback =
     (let (parsed, err) = Atoi (TrimSpace (getEnv env key []))
      in if err \<or> parsed \<le> 0 then fallback else parsed)"

definition normalizeLogQuery :: "LogQuery \<Rightarrow> QueryLimits \<Rightarrow> LogQuery" where
  "normalizeLogQuery query limits =
     (let q1 = query\<lparr>qApp := TrimSpace (qApp query), qLevel := TrimSpace (qLevel query),
                     qText := TrimSpace (qText query)\<rparr>;
          q2 = (if qLimit q1 \<le> 0 then q1\<lparr>qLimit := limDefault limits\<rparr> else q1);
          q3 = (if limMax limits < qLimit q2 then q2\<lparr>qLimit := limMax limits\<rparr> else q2)
      in if qOffset q3 < 0 then q3\<lparr>qOffset := 0\<rparr> else q3)"

section \<open>Cursors\<close>

definition cursorVersion :: string where
  "cursorVersion = ''v1:''"

definition encodeCursor :: "uint64 \<Rightarrow> string" where
  "encodeCursor index = base64Encode (cursorVersion @ FormatUint (unat index))"

definition decodeCursor :: "string \<Rightarrow> uint64 result" where
  "decodeCursor raw =
     (case base64Decode (TrimSpace raw) of
        None \<Rightarrow> Inl (ErrMsg ''invalid cursor'')
      | Some payload \<Rightarrow>
          if \<not> HasPrefix payload cursorVersion then Inl (ErrMsg ''invalid cursor'')
          else (case ParseUint (TrimPrefix payload cursorVersion) of
              None \<Rightarrow> Inl (ErrMsg ''invalid cursor'')
            | Some index \<Rightarrow>
                if 9223372036854775807 < index then Inl (ErrMsg ''invalid cursor'')
                else Inr index))"

section \<open>Reading a query\<close>

definition parseCursorParam :: "string \<Rightarrow> uint64 result" where
  "parseCursorParam cursorRaw = (if cursorRaw = [] then Inr 0 else decodeCursor cursorRaw)"

definition parseLimitParam :: "string \<Rightarrow> int result" where
  "parseLimitParam raw =
     (if raw = [] then Inr 0
      else (let (parsed, err) = Atoi raw
            in if err then Inl (ErrMsg ''invalid limit'') else Inr parsed))"

definition parseOffsetParam :: "string \<Rightarrow> QueryLimits \<Rightarrow> int result" where
  "parseOffsetParam raw limits =
     (if raw = [] then Inr 0
      else (let (parsed, err) = Atoi raw
            in if err then Inl (ErrMsg ''invalid offset'')
               else if limMaxOffset limits < parsed
               then Inl (ErrMsg (''offset exceeds maximum of '' @ Itoa (limMaxOffset limits) @
                                 ''; use cursor for deep pagination''))
               else Inr parsed))"

definition parseLogQuery :: "Request \<Rightarrow> QueryLimits \<Rightarrow> LogQuery result" where
  "parseLogQuery r limits =
     (let vals = reqQuery r;
          cursorRaw = TrimSpace (vals ''cursor'')
      in if cursorRaw \<noteq> [] \<and> TrimSpace (vals ''offset'') \<noteq> []
         then Inl (ErrMsg ''cursor and offset cannot be combined'')
         else (case parseCursorParam cursorRaw of
             Inl e \<Rightarrow> Inl e
           | Inr afterIndex \<Rightarrow>
         (case parseLimitParam (TrimSpace (vals ''limit'')) of
             Inl e \<Rightarrow> Inl e
           | Inr limit \<Rightarrow>
         (case parseOffsetParam (TrimSpace (vals ''offset'')) limits of
             Inl e \<Rightarrow> Inl e
           | Inr offset \<Rightarrow>
               (let q = TrimSpace (vals ''q'');
                    text = (if q = [] then TrimSpace (vals ''text'') else q)
                in Inr (normalizeLogQuery
                     \<lparr>qClientID = [], qApp = vals ''app'', qLevel = vals ''level'', qText = text,
                      qLimit = limit, qOffset = offset, qAfterIndex = afterIndex,
                      qWantTotal = foldASCII (TrimSpace (vals ''count'')) ''true''\<rparr> limits))))))"

section \<open>Correctness of the cursor\<close>

text \<open>The characters of an encoded cursor survive trimming, so the round trip needs no hypothesis
  on the index but the bound.\<close>

lemma decode_encodeCursor_iff:
  "decodeCursor (encodeCursor i) =
     (if i \<le> 9223372036854775807 then Inr i else Inl (ErrMsg ''invalid cursor''))"
  by (simp add: decodeCursor_def encodeCursor_def not_le)

lemma decodeCursor_bound: "decodeCursor raw = Inr i \<Longrightarrow> i \<le> 9223372036854775807"
  by (auto simp: decodeCursor_def not_less split: option.splits if_splits)

lemma decodeCursor_errors: "decodeCursor raw = Inl e \<Longrightarrow> e = ErrMsg ''invalid cursor''"
  by (auto simp: decodeCursor_def split: option.splits if_splits)

text \<open>The signed reading of an accepted cursor is the index itself.\<close>

lemma cursor_as_int64: "i \<le> 9223372036854775807 \<Longrightarrow> sint (i :: uint64) = uint i"
  by (simp add: sint_uint word_le_def signed_take_bit_int_eq_self_iff order_trans [OF _ uint_ge_0])

section \<open>Bounds of a normalised query\<close>

definition okLimits :: "QueryLimits \<Rightarrow> bool" where
  "okLimits l \<longleftrightarrow> 0 < limDefault l \<and> 0 < limMax l \<and> 0 < limMaxOffset l"

lemma normalize_limit:
  "okLimits l \<Longrightarrow> 0 < qLimit (normalizeLogQuery q l) \<and> qLimit (normalizeLogQuery q l) \<le> limMax l"
  by (auto simp: normalizeLogQuery_def okLimits_def Let_def)

lemma normalize_offset:
  "0 \<le> qOffset (normalizeLogQuery q l) \<and> (0 \<le> qOffset q \<longrightarrow> qOffset (normalizeLogQuery q l) = qOffset q)"
  by (auto simp: normalizeLogQuery_def Let_def)

lemma normalize_fields [simp]:
  "qClientID (normalizeLogQuery q l) = qClientID q" "qAfterIndex (normalizeLogQuery q l) = qAfterIndex q"
  "qWantTotal (normalizeLogQuery q l) = qWantTotal q" "qApp (normalizeLogQuery q l) = TrimSpace (qApp q)"
  "qLevel (normalizeLogQuery q l) = TrimSpace (qLevel q)" "qText (normalizeLogQuery q l) = TrimSpace (qText q)"
  by (simp_all add: normalizeLogQuery_def Let_def)

lemma normalize_idem: "okLimits l \<Longrightarrow> normalizeLogQuery (normalizeLogQuery q l) l = normalizeLogQuery q l"
  by (auto simp: normalizeLogQuery_def Let_def okLimits_def)

lemma parseOffsetParam_bound:
  "parseOffsetParam raw l = Inr n \<Longrightarrow> okLimits l \<Longrightarrow> n \<le> limMaxOffset l"
  by (auto simp: parseOffsetParam_def okLimits_def split: if_splits prod.splits)

lemma parseLogQuery_cases:
  assumes "parseLogQuery r l = Inr q"
  obtains i lim off t where
    "parseCursorParam (TrimSpace (reqQuery r ''cursor'')) = Inr i"
    "parseLimitParam (TrimSpace (reqQuery r ''limit'')) = Inr lim"
    "parseOffsetParam (TrimSpace (reqQuery r ''offset'')) l = Inr off"
    "TrimSpace (reqQuery r ''cursor'') = [] \<or> TrimSpace (reqQuery r ''offset'') = []"
    "q = normalizeLogQuery \<lparr>qClientID = [], qApp = reqQuery r ''app'', qLevel = reqQuery r ''level'',
       qText = t, qLimit = lim, qOffset = off, qAfterIndex = i,
       qWantTotal = foldASCII (TrimSpace (reqQuery r ''count'')) ''true''\<rparr> l"
  using assms by (auto simp: parseLogQuery_def Let_def split: if_splits sum.splits)

lemma envInt_pos: "0 < d \<Longrightarrow> 0 < envInt env key d"
  by (auto simp: envInt_def split: prod.splits)

end
