(* ===== verification/Server_Config.thy ===== *)
theory Server_Config
  imports Server_Query
begin

text \<open>
  The configuration of the server (\<open>cmd/server/main.go\<close>: \<open>Config\<close>, \<open>loadConfig\<close>, \<open>ListenAddr\<close>),
  read from the environment, with \<open>filepath.Clean\<close> and \<open>filepath.Join\<close> as the default of
  \<open>LOG_FILE\<close> uses them.
\<close>

section \<open>Paths\<close>

fun splitSlash :: "string \<Rightarrow> string list" where
  "splitSlash [] = [[]]"
| "splitSlash (c # s) =
     (if c = CHR ''/'' then [] # splitSlash s
      else (case splitSlash s of [] \<Rightarrow> [[c]] | w # ws \<Rightarrow> (c # w) # ws))"

text \<open>The elements kept so far are in reverse order; \<open>..\<close> removes the last one unless there is none
  to remove.\<close>

fun cleanElems :: "bool \<Rightarrow> string list \<Rightarrow> string list \<Rightarrow> string list" where
  "cleanElems rooted acc [] = rev acc"
| "cleanElems rooted acc (w # ws) =
     (if w = [] \<or> w = ''.'' then cleanElems rooted acc ws
      else if w = ''..'' then
        (case acc of
           [] \<Rightarrow> cleanElems rooted (if rooted then [] else [''..'']) ws
         | a # acc' \<Rightarrow> if a = ''..'' then cleanElems rooted (''..'' # acc) ws else cleanElems rooted acc' ws)
      else cleanElems rooted (w # acc) ws)"

definition cleanPath :: "string \<Rightarrow> string" where
  "cleanPath p =
     (let rooted = (case p of c # _ \<Rightarrow> c = CHR ''/'' | [] \<Rightarrow> False);
          body = Join (cleanElems rooted [] (splitSlash p)) ''/''
      in if rooted then CHR ''/'' # body else if body = [] then ''.'' else body)"

definition joinPath :: "string \<Rightarrow> string \<Rightarrow> string" where
  "joinPath a b =
     (case filter (\<lambda>w. w \<noteq> []) [a, b] of [] \<Rightarrow> [] | ws \<Rightarrow> cleanPath (Join ws ''/''))"

section \<open>loadConfig\<close>

record Config =
  cfgPort :: int
  cfgBindAddr :: string
  cfgStorageBackend :: string
  cfgDatabaseURL :: string
  cfgLogFile :: string
  cfgMaxPayloadBytes :: int
  cfgQuery :: QueryLimits

definition loadConfig :: "unicode \<Rightarrow> (string \<Rightarrow> string) \<Rightarrow> Config" where
  "loadConfig uc env =
     (let dataDir = getEnv env ''DATA_DIR'' ''data'';
          logFile = getEnv env ''LOG_FILE'' (joinPath dataDir ''audit.log.jsonl'');
          storageBackend = ToLower uc (getEnv env ''STORAGE_BACKEND'' ''file'');
          databaseURL = getEnv env ''DATABASE_URL'' [];
          bindAddr = getEnv env ''BIND_ADDR'' [];
          port0 = fst (Atoi (getEnv env ''PORT'' ''8080''));
          port = (if port0 \<le> 0 then 8080 else port0);
          max0 = fst (ParseInt (getEnv env ''MAX_PAYLOAD_BYTES'' ''32768''));
          maxPayloadBytes = (if max0 \<le> 0 then 32768 else max0);
          defaults = defaultQueryLimits;
          queryLimits = \<lparr>limDefault = envInt env ''DEFAULT_QUERY_LIMIT'' (limDefault defaults),
                         limMax = envInt env ''MAX_QUERY_LIMIT'' (limMax defaults),
                         limMaxOffset = envInt env ''MAX_QUERY_OFFSET'' (limMaxOffset defaults)\<rparr>
      in \<lparr>cfgPort = port, cfgBindAddr = bindAddr, cfgStorageBackend = storageBackend,
          cfgDatabaseURL = databaseURL, cfgLogFile = logFile, cfgMaxPayloadBytes = maxPayloadBytes,
          cfgQuery = queryLimits\<rparr>)"

definition ListenAddr :: "Config \<Rightarrow> string" where
  "ListenAddr c = cfgBindAddr c @ '':'' @ Itoa (cfgPort c)"

section \<open>Every configuration is usable\<close>

lemma loadConfig_bounds:
  "0 < cfgPort (loadConfig uc env)" "0 < cfgMaxPayloadBytes (loadConfig uc env)"
  "okLimits (cfgQuery (loadConfig uc env))"
  by (simp_all add: loadConfig_def okLimits_def envInt_pos defaultQueryLimits_def Let_def)

lemma getEnv_trimmed: "TrimSpace fb = fb \<Longrightarrow> TrimSpace (getEnv env k fb) = getEnv env k fb"
  by (simp add: getEnv_def Let_def)

end
