(* ===== verification/Server_Auth.thy ===== *)
theory Server_Auth
  imports Server_Query
begin

text \<open>
  \<open>cmd/server/auth.go\<close>: roles, tokens, the bearer header and the scoping of reads.  A token is
  \<open>alog_<client id>_<secret>\<close>; it is split at the first two separators only, so a secret may
  contain the separator.  The random bytes of a new id or secret are inputs.
\<close>

section \<open>Principals and tokens\<close>

definition RoleClient :: string where "RoleClient = ''client''"
definition RoleAdmin :: string where "RoleAdmin = ''admin''"
definition tokenPrefix :: string where "tokenPrefix = ''alog''"
definition tokenSeparator :: char where "tokenSeparator = CHR ''_''"
definition clientIDBytes :: nat where "clientIDBytes = 8"
definition secretBytes :: nat where "secretBytes = 32"

record Principal =
  pClientID :: string
  pName :: string
  pRole :: string

definition IsAdmin :: "Principal \<Rightarrow> bool" where
  "IsAdmin p \<longleftrightarrow> pRole p = RoleAdmin"

definition validRole :: "string \<Rightarrow> bool" where
  "validRole role \<longleftrightarrow> role = RoleClient \<or> role = RoleAdmin"

text \<open>The outcome of \<open>rand.Read\<close> on a buffer: an error or its bytes.\<close>

definition newClientID :: "string result \<Rightarrow> string result" where
  "newClientID rnd = (case rnd of Inl e \<Rightarrow> Inl e | Inr buf \<Rightarrow> Inr (hexEncode buf))"

definition newSecret :: "string result \<Rightarrow> string result" where
  "newSecret rnd = (case rnd of Inl e \<Rightarrow> Inl e | Inr buf \<Rightarrow> Inr (base64Encode buf))"

definition formatToken :: "string \<Rightarrow> string \<Rightarrow> string" where
  "formatToken clientID secret = tokenPrefix @ [tokenSeparator] @ clientID @ [tokenSeparator] @ secret"

definition parseToken :: "string \<Rightarrow> (string \<times> string) result" where
  "parseToken token =
     (case SplitN (TrimSpace token) tokenSeparator 3 of
        [a, b, c] \<Rightarrow>
          if a \<noteq> tokenPrefix \<or> b = [] \<or> c = [] then Inl ErrUnauthorized else Inr (b, c)
      | _ \<Rightarrow> Inl ErrUnauthorized)"

definition hashSecret :: "string \<Rightarrow> string" where
  "hashSecret secret = sha256Hex secret"

section \<open>Requests\<close>

definition bearerScheme :: string where
  "bearerScheme = ''bearer ''"

definition bearerToken :: "Request \<Rightarrow> string" where
  "bearerToken r =
     (let header = TrimSpace (reqHeader r ''authorization'') in
      if length header \<le> length bearerScheme \<or> \<not> foldASCII (take (length bearerScheme) header) bearerScheme
      then [] else TrimSpace (drop (length bearerScheme) header))"

definition scopeQuery :: "LogQuery \<Rightarrow> Principal \<Rightarrow> Request \<Rightarrow> LogQuery" where
  "scopeQuery query p r =
     (if IsAdmin p then query\<lparr>qClientID := TrimSpace (reqQuery r ''clientId'')\<rparr>
      else query\<lparr>qClientID := pClientID p\<rparr>)"

section \<open>Token facts\<close>

lemma parseToken_errors: "parseToken t = Inl e \<Longrightarrow> e = ErrUnauthorized"
  by (auto simp: parseToken_def split: list.splits if_splits)

lemma parseToken_iff:
  "parseToken t = Inr (cid, sec) \<longleftrightarrow>
     TrimSpace t = formatToken cid sec \<and> cid \<noteq> [] \<and> sec \<noteq> [] \<and> tokenSeparator \<notin> set cid"
proof -
  have "parseToken t = Inr (cid, sec) \<longleftrightarrow>
      SplitN (TrimSpace t) tokenSeparator 3 = [tokenPrefix, cid, sec] \<and> cid \<noteq> [] \<and> sec \<noteq> []"
    by (auto simp: parseToken_def split: list.splits if_splits)
  moreover have "tokenSeparator \<notin> set tokenPrefix" by (simp add: tokenSeparator_def tokenPrefix_def)
  ultimately show ?thesis by (auto simp: SplitN_3_iff formatToken_def)
qed

text \<open>A token is never changed by trimming, whatever random bytes it is made of.\<close>

lemma isHexChar_edge: "isHexChar c \<Longrightarrow> edgeByte c \<and> c \<noteq> tokenSeparator"
proof -
  have "list_all (\<lambda>c. edgeByte c \<and> c \<noteq> tokenSeparator) ''0123456789abcdef''"
    by (simp add: edgeByte_def goSpaces_def tokenSeparator_def)
  then show "isHexChar c \<Longrightarrow> edgeByte c \<and> c \<noteq> tokenSeparator"
    unfolding isHexChar_def list_all_iff by blast
qed

lemma base64Encode_edge: "c \<in> set (base64Encode s) \<Longrightarrow> edgeByte c"
  using base64Encode_chars b64Char_props(2) by blast

lemma formatToken_trim:
  assumes "list_all isHexChar cid"
  shows "TrimSpace (formatToken cid (base64Encode sec)) = formatToken cid (base64Encode sec)"
proof (rule TrimSpace_id_all)
  have "edgeByte CHR ''a''" "edgeByte CHR ''l''" "edgeByte CHR ''o''" "edgeByte CHR ''g''" "edgeByte CHR ''_''"
    by (simp_all add: edgeByte_def goSpaces_def)
  then show "edgeByte c" if "c \<in> set (formatToken cid (base64Encode sec))" for c
    using that assms isHexChar_edge base64Encode_edge [of c sec]
    by (auto simp: formatToken_def tokenPrefix_def tokenSeparator_def list_all_iff)
qed

lemma hexEncode_nonempty: "s \<noteq> [] \<Longrightarrow> hexEncode s \<noteq> []"
  using length_hexEncode [of s] by (metis length_0_conv mult_eq_0_iff zero_neq_numeral)

lemma base64Encode_nonempty: "s \<noteq> [] \<Longrightarrow> base64Encode s \<noteq> []"
  using base64Decode_base64Encode [of s] base64Decode_base64Encode [of "[]"]
  by (metis base64Encode_def b64Enc.simps(1) list.map(1) option.inject)

lemma parse_formatToken:
  assumes "newClientID (Inr idb) = Inr cid" "newSecret (Inr secb) = Inr sec" "idb \<noteq> []" "secb \<noteq> []"
  shows "parseToken (formatToken cid sec) = Inr (cid, sec)"
proof -
  have c: "cid = hexEncode idb" "sec = base64Encode secb"
    using assms by (simp_all add: newClientID_def newSecret_def)
  have "list_all isHexChar cid" by (simp add: c hexEncode_chars)
  then show ?thesis
    using assms(3,4) formatToken_trim isHexChar_edge
    by (auto simp: parseToken_iff c hexEncode_nonempty base64Encode_nonempty list_all_iff)
qed

end
