(* ===== verification/Server_Chain.thy ===== *)
theory Server_Chain
  imports Server_Model
begin

text \<open>
  The hash chain both stores keep (\<open>cmd/server/main.go\<close>, \<open>Append\<close> and \<open>Verify\<close>).  The locale
  \<open>hash_chain\<close> states what the chain needs of its hash function, that a hash has no separator and
  is never the genesis marker, and shows that the head hash commits to the whole log: two logs
  with one head hash are equal, or the strings hashed while building them contain a collision.
  SHA-256 in hexadecimal is an instance.
\<close>

section \<open>Building an entry\<close>

definition genesis :: string where
  "genesis = ''GENESIS''"

text \<open>\<open>fmt.Sprintf("%d|%s|%s|%s", index, timestamp, payloadHash, prevHash)\<close>\<close>

definition hashInput :: "uint64 \<Rightarrow> string \<Rightarrow> string \<Rightarrow> string \<Rightarrow> string" where
  "hashInput index timestamp payloadHash prevHash =
     FormatUint (unat index) @ ''|'' @ timestamp @ ''|'' @ payloadHash @ ''|'' @ prevHash"

definition newEntry :: "uint64 \<Rightarrow> string \<Rightarrow> string \<Rightarrow> LogRecord \<Rightarrow> string \<Rightarrow> Entry" where
  "newEntry index timestamp prevHash record payloadBytes =
     (let payloadHash = sha256Hex payloadBytes in
      \<lparr>eIndex = index, eTimestamp = timestamp, ePrevHash = prevHash, ePayloadHash = payloadHash,
       eEntryHash = sha256Hex (hashInput index timestamp payloadHash prevHash), eRecord = record\<rparr>)"

section \<open>Checking an entry\<close>

text \<open>The four comparisons of \<open>Verify\<close>, in its order; \<open>None\<close> when all hold.\<close>

definition checkLink :: "uint64 \<Rightarrow> string \<Rightarrow> uint64 \<Rightarrow> string \<Rightarrow> string \<Rightarrow> string \<Rightarrow> string \<Rightarrow> string \<Rightarrow> string option" where
  "checkLink expectedIndex previousHash index timestamp prevHash payloadHash entryHash payloadBytes =
     (let expectedPayloadHash = sha256Hex payloadBytes;
          expectedEntryHash = sha256Hex (hashInput index timestamp expectedPayloadHash prevHash)
      in if index \<noteq> expectedIndex then Some ''index sequence broken''
         else if prevHash \<noteq> previousHash then Some ''previous hash mismatch''
         else if payloadHash \<noteq> expectedPayloadHash then Some ''payload hash mismatch''
         else if entryHash \<noteq> expectedEntryHash then Some ''entry hash mismatch''
         else None)"

definition checkEntry :: "uint64 \<Rightarrow> string \<Rightarrow> Entry \<Rightarrow> string \<Rightarrow> string option" where
  "checkEntry expectedIndex previousHash e payloadBytes =
     checkLink expectedIndex previousHash (eIndex e) (eTimestamp e) (ePrevHash e) (ePayloadHash e)
       (eEntryHash e) payloadBytes"

definition validResult :: "uint64 \<Rightarrow> string \<Rightarrow> VerifyResult" where
  "validResult n lastHash =
     \<lparr>vValid = True, vTotalEntries = n, vLastHash = lastHash, vInvalidAt = None, vReason = None\<rparr>"

definition invalidResult :: "uint64 \<Rightarrow> string \<Rightarrow> uint64 \<Rightarrow> string \<Rightarrow> VerifyResult" where
  "invalidResult n lastHash invalidAt reason =
     \<lparr>vValid = False, vTotalEntries = n, vLastHash = lastHash, vInvalidAt = Some invalidAt, vReason = Some reason\<rparr>"

definition derefUint64 :: "uint64 option \<Rightarrow> uint64" where
  "derefUint64 v = (case v of None \<Rightarrow> 0 | Some x \<Rightarrow> x)"

lemma checkEntry_newEntry [simp]: "checkEntry i h (newEntry i ts h r p) p = None"
  by (simp add: checkEntry_def checkLink_def newEntry_def Let_def)

lemma checkLink_None_iff:
  "checkLink i h index ts prev ph eh p = None \<longleftrightarrow>
     index = i \<and> prev = h \<and> ph = sha256Hex p \<and> eh = sha256Hex (hashInput i ts (sha256Hex p) h)"
  by (auto simp: checkLink_def Let_def split: if_splits)

text \<open>An accepted entry is the entry \<open>Append\<close> would have built at that place.\<close>

lemma checkEntry_None_iff:
  "checkEntry i h e p = None \<longleftrightarrow> e = newEntry i (eTimestamp e) h (eRecord e) p"
  by (cases e) (auto simp: checkEntry_def checkLink_None_iff newEntry_def Let_def)

section \<open>The chain as a commitment\<close>

lemma split_at_last_sep:
  assumes "sep \<notin> set b" "sep \<notin> set b'" "a @ sep # b = a' @ sep # b'"
  shows "a = a' \<and> b = b'"
proof -
  have "rev b @ sep # rev a = rev b' @ sep # rev a'"
    using arg_cong [OF assms(3), of rev] by simp
  moreover have "takeWhile (\<lambda>c. c \<noteq> sep) (rev b @ sep # rev a) = rev b"
    "takeWhile (\<lambda>c. c \<noteq> sep) (rev b' @ sep # rev a') = rev b'" using assms by simp_all
  ultimately show ?thesis by auto
qed

lemma split_at_first_sep:
  assumes "sep \<notin> set a" "sep \<notin> set a'" "a @ sep # b = a' @ sep # b'"
  shows "a = a' \<and> b = b'"
proof -
  have "takeWhile (\<lambda>c. c \<noteq> sep) (a @ sep # b) = a" "takeWhile (\<lambda>c. c \<noteq> sep) (a' @ sep # b') = a'"
    using assms(1,2) by simp_all
  then have "a = a'" using assms(3) by metis
  then show ?thesis using assms(3) by simp
qed

lemma FormatUint_no_bar: "CHR ''|'' \<notin> set (FormatUint n)"
  using FormatUint_chars [of "CHR ''|''" n] by auto

text \<open>The hashed text determines its four parts when the two hashes hold no separator; the
  timestamp may hold anything.\<close>

lemma hashInput_inj:
  assumes "hashInput i ts p h = hashInput i' ts' p' h'"
    and "CHR ''|'' \<notin> set p" "CHR ''|'' \<notin> set p'" "CHR ''|'' \<notin> set h" "CHR ''|'' \<notin> set h'"
  shows "i = i' \<and> ts = ts' \<and> p = p' \<and> h = h'"
proof -
  have "FormatUint (unat i) @ CHR ''|'' # (ts @ CHR ''|'' # p @ CHR ''|'' # h) =
        FormatUint (unat i') @ CHR ''|'' # (ts' @ CHR ''|'' # p' @ CHR ''|'' # h')"
    using assms(1) by (simp add: hashInput_def)
  from split_at_first_sep [OF FormatUint_no_bar FormatUint_no_bar this]
  have i: "i = i'" and r: "(ts @ CHR ''|'' # p) @ CHR ''|'' # h = (ts' @ CHR ''|'' # p') @ CHR ''|'' # h'"
    by (simp_all add: word_unat_eq_iff)
  from split_at_last_sep [OF assms(4,5) r]
  have h: "h = h'" and r: "ts @ CHR ''|'' # p = ts' @ CHR ''|'' # p'" by simp_all
  from split_at_last_sep [OF assms(2,3) r] i h show ?thesis by simp
qed

text \<open>A link is a timestamp and a payload; its index and previous hash come from its place.\<close>

type_synonym link = "string \<times> string"

locale hash_chain =
  fixes H :: "string \<Rightarrow> string"
  assumes H_no_bar: "CHR ''|'' \<notin> set (H x)"
    and H_not_genesis: "H x \<noteq> genesis"
begin

fun headHash :: "link list \<Rightarrow> string" where
  "headHash [] = genesis"
| "headHash ((ts, p) # ls) = H (hashInput (word_of_nat (Suc (length ls))) ts (H p) (headHash ls))"

fun hashed :: "link list \<Rightarrow> string list" where
  "hashed [] = []"
| "hashed ((ts, p) # ls) =
     p # hashInput (word_of_nat (Suc (length ls))) ts (H p) (headHash ls) # hashed ls"

lemma headHash_no_bar: "CHR ''|'' \<notin> set (headHash ls)"
  by (cases ls rule: headHash.cases) (simp_all add: H_no_bar, simp add: genesis_def)

lemma headHash_genesis: "headHash ls = genesis \<longleftrightarrow> ls = []"
  by (cases ls rule: headHash.cases) (simp_all add: H_not_genesis)

text \<open>The newest link comes first.  Equal heads force equal logs, or a collision among the strings
  that were hashed.\<close>

lemma headHash_commits:
  assumes "headHash ls = headHash ks"
  shows "ls = ks \<or> (\<exists>x\<in>set (hashed ls). \<exists>y\<in>set (hashed ks). x \<noteq> y \<and> H x = H y)"
  using assms
proof (induction ls arbitrary: ks)
  case Nil
  then show ?case using headHash_genesis [of ks] by auto
next
  case (Cons l ls)
  obtain ts p where l: "l = (ts, p)" by fastforce
  have "ks \<noteq> []" using Cons.prems headHash_genesis [of "l # ls"] by auto
  then obtain ts' p' ks' where ks: "ks = (ts', p') # ks'" by (cases ks) auto
  let ?x = "hashInput (word_of_nat (Suc (length ls))) ts (H p) (headHash ls)"
  let ?y = "hashInput (word_of_nat (Suc (length ks'))) ts' (H p') (headHash ks')"
  have eq: "H ?x = H ?y" using Cons.prems by (simp add: l ks)
  show ?case
  proof (cases "?x = ?y \<and> p = p'")
    case True
    then have "ts = ts' \<and> H p = H p' \<and> headHash ls = headHash ks'"
      using hashInput_inj [of _ ts "H p" "headHash ls" _ ts' "H p'" "headHash ks'"]
        H_no_bar headHash_no_bar by blast
    then show ?thesis using Cons.IH [of ks'] True by (auto simp: l ks)
  next
    case False
    show ?thesis
    proof (cases "?x = ?y")
      case True
      then have "H p = H p'"
        using hashInput_inj [of _ ts "H p" "headHash ls" _ ts' "H p'" "headHash ks'"]
          H_no_bar headHash_no_bar by blast
      then show ?thesis using False True by (auto simp: l ks)
    next
      case False
      then show ?thesis using eq by (auto simp: l ks)
    qed
  qed
qed

end

lemma sha256Hex_no_bar: "CHR ''|'' \<notin> set (sha256Hex x)"
  using sha256Hex_chars [of _ x] by (auto simp: isHexChar_def)

lemma sha256Hex_not_genesis: "sha256Hex x \<noteq> genesis"
  by (auto simp: genesis_def dest: arg_cong [of _ _ length])

interpretation sha: hash_chain sha256Hex
  by unfold_locales (rule sha256Hex_no_bar sha256Hex_not_genesis)+

section \<open>Chains of entries\<close>

definition payloadOf :: "Entry \<Rightarrow> string" where
  "payloadOf e = encodeJson (recordJson (eRecord e))"

definition lastHashOf :: "Entry list \<Rightarrow> string" where
  "lastHashOf es = (if es = [] then genesis else eEntryHash (last es))"

text \<open>A log that \<open>Append\<close> can have built from well-formed records, oldest entry first.\<close>

inductive chainLog :: "Entry list \<Rightarrow> bool" where
  chain_nil: "chainLog []"
| chain_snoc: "chainLog es \<Longrightarrow> okRecord (eRecord e) \<Longrightarrow> validUtf8 (eTimestamp e) \<Longrightarrow>
    e = newEntry (word_of_nat (Suc (length es))) (eTimestamp e) (lastHashOf es) (eRecord e) (payloadOf e) \<Longrightarrow>
    chainLog (es @ [e])"

inductive_cases chainLog_snocE: "chainLog (es @ [e])"

definition linksOf :: "Entry list \<Rightarrow> link list" where
  "linksOf es = rev (map (\<lambda>e. (eTimestamp e, payloadOf e)) es)"

lemma linksOf_snoc [simp]: "linksOf (es @ [e]) = (eTimestamp e, payloadOf e) # linksOf es"
  by (simp add: linksOf_def)

lemma length_linksOf [simp]: "length (linksOf es) = length es"
  by (simp add: linksOf_def)

lemma lastHashOf_snoc [simp]: "lastHashOf (es @ [e]) = eEntryHash e" "lastHashOf [] = genesis"
  by (simp_all add: lastHashOf_def)

lemma newEntry_simps [simp]:
  "eIndex (newEntry i ts h r p) = i" "eTimestamp (newEntry i ts h r p) = ts"
  "ePrevHash (newEntry i ts h r p) = h" "eRecord (newEntry i ts h r p) = r"
  "ePayloadHash (newEntry i ts h r p) = sha256Hex p"
  "eEntryHash (newEntry i ts h r p) = sha256Hex (hashInput i ts (sha256Hex p) h)"
  by (simp_all add: newEntry_def Let_def)

lemma normEntry_newEntry: "normEntry (newEntry i ts h r p) = newEntry i ts h (normRecord r) p"
  by (simp add: normEntry_def newEntry_def Let_def)

lemma chainLog_headHash: "chainLog es \<Longrightarrow> lastHashOf es = sha.headHash (linksOf es)"
proof (induction rule: chainLog.induct)
  case (chain_snoc es e)
  then have "eEntryHash e = sha256Hex (hashInput (word_of_nat (Suc (length es))) (eTimestamp e)
      (sha256Hex (payloadOf e)) (lastHashOf es))"
    by (metis newEntry_simps(6))
  with chain_snoc.IH show ?case by simp
qed (simp add: linksOf_def)

lemma chainLog_nth_index:
  "chainLog es \<Longrightarrow> i < length es \<Longrightarrow> eIndex (es ! i) = word_of_nat (Suc i)"
proof (induction arbitrary: i rule: chainLog.induct)
  case (chain_snoc es e)
  have "eIndex e = word_of_nat (Suc (length es))" using chain_snoc(4) by (metis newEntry_simps(1))
  with chain_snoc show ?case by (auto simp: nth_append less_Suc_eq simp del: word_of_nat_eq_iff)
qed simp

lemma chainLog_okRecord: "chainLog es \<Longrightarrow> e \<in> set es \<Longrightarrow> okRecord (eRecord e)"
  by (induction rule: chainLog.induct) auto

text \<open>Equal links and normalised records give equal logs.\<close>

lemma chainLog_eqI:
  assumes "chainLog es" "chainLog fs" "linksOf es = linksOf fs"
  shows "map normEntry es = map normEntry fs"
  using assms
proof (induction arbitrary: fs rule: chainLog.induct)
  case chain_nil
  then show ?case by (simp add: linksOf_def)
next
  case (chain_snoc es e)
  have "fs \<noteq> []" using chain_snoc.prems by (auto simp: linksOf_def)
  then obtain gs f where fs: "fs = gs @ [f]" by (cases fs rule: rev_cases) auto
  have f: "chainLog gs" "okRecord (eRecord f)" "f = newEntry (word_of_nat (Suc (length gs)))
      (eTimestamp f) (lastHashOf gs) (eRecord f) (payloadOf f)"
    using chain_snoc.prems(1) fs by (auto elim: chainLog_snocE)
  have eq: "eTimestamp e = eTimestamp f" "payloadOf e = payloadOf f" "linksOf es = linksOf gs"
    using chain_snoc.prems(2) fs by auto
  have IH: "map normEntry es = map normEntry gs" using chain_snoc.IH f(1) eq(3) by blast
  have "lastHashOf es = lastHashOf gs"
    using chainLog_headHash chain_snoc(1) f(1) eq(3) by simp
  moreover have "length es = length gs" using IH by (metis length_map)
  moreover have "normRecord (eRecord e) = normRecord (eRecord f)"
    using chain_snoc(2) f(2) eq(2) by (intro marshalRecord_inj) (simp_all add: marshalRecord_ok payloadOf_def)
  ultimately have "normEntry e = normEntry f"
    using arg_cong [OF chain_snoc(4), of normEntry] arg_cong [OF f(3), of normEntry] eq(1,2)
    by (simp only: normEntry_newEntry)
  with IH show ?case by (simp add: fs)
qed

text \<open>The head hash commits to every entry of the log.\<close>

lemma chain_tamper_evident:
  assumes "chainLog es" "chainLog fs" "lastHashOf es = lastHashOf fs"
  shows "map normEntry es = map normEntry fs \<or>
    (\<exists>x\<in>set (sha.hashed (linksOf es)). \<exists>y\<in>set (sha.hashed (linksOf fs)). x \<noteq> y \<and> sha256Hex x = sha256Hex y)"
  using sha.headHash_commits [of "linksOf es" "linksOf fs"] chainLog_headHash assms chainLog_eqI
  by metis

end
