(* ===== verification/Server_Store.thy ===== *)
theory Server_Store
  imports Server_Chain Server_Query
begin

text \<open>
  The \<open>Store\<close> interface of \<open>cmd/server/main.go\<close> as a contract.  A store holds a chained log;
  \<open>Append\<close> extends it, \<open>Verify\<close> accepts it and reports its size and head, and \<open>QueryLogs\<close> returns
  the page that \<open>querySpec\<close> describes.  What any client of the interface may rely on is proved
  once here: paging with the cursor visits every matching entry exactly once and in order, and a
  log grown by appends verifies.
\<close>

section \<open>The page a query asks for\<close>

definition queryRest :: "(LogQuery \<Rightarrow> Entry \<Rightarrow> bool) \<Rightarrow> LogQuery \<Rightarrow> Entry list \<Rightarrow> Entry list" where
  "queryRest matches q es = filter (\<lambda>e. qAfterIndex q < eIndex e) (filter (matches q) es)"

definition querySpec :: "(LogQuery \<Rightarrow> Entry \<Rightarrow> bool) \<Rightarrow> LogQuery \<Rightarrow> Entry list \<Rightarrow> LogQueryResult" where
  "querySpec matches q es =
     (let rest = queryRest matches q es;
          lim = nat (qLimit q);
          off = nat (qOffset q);
          page = take lim (drop off rest)
      in \<lparr>qrItems = page, qrLimit = qLimit q,
          qrNextCursor = (if off + lim < length rest \<and> page \<noteq> []
                          then Some (encodeCursor (eIndex (last page))) else None),
          qrTotal = (if qWantTotal q then Some (int (length (filter (matches q) es))) else None),
          qrOffset = (if 0 < qOffset q then Some (qOffset q) else None)\<rparr>)"

definition sortedIndexes :: "Entry list \<Rightarrow> bool" where
  "sortedIndexes es = sorted_wrt (\<lambda>a b. eIndex a < eIndex b) es"

lemma sortedIndexes_filter: "sortedIndexes es \<Longrightarrow> sortedIndexes (filter P es)"
  by (simp add: sortedIndexes_def sorted_wrt_filter)

text \<open>After the first \<open>k\<close> entries of a sorted list come exactly those with a larger index.\<close>

lemma filter_after_drop:
  assumes "sortedIndexes es" "0 < k" "k \<le> length es"
  shows "filter (\<lambda>e. eIndex (es ! (k - 1)) < eIndex e) es = drop k es"
proof -
  let ?x = "es ! (k - 1)"
  have es: "es = take k es @ drop k es" by simp
  have sw: "sorted_wrt (\<lambda>a b. eIndex a < eIndex b) (take k es @ drop k es)"
    using assms(1) by (simp add: sortedIndexes_def)
  obtain xs where tk: "take k es = xs @ [?x]"
    using assms by (metis Suc_diff_1 Suc_le_eq take_Suc_conv_app_nth)
  have "filter (\<lambda>e. eIndex ?x < eIndex e) (take k es) = []"
    using sw unfolding tk by (auto simp: sorted_wrt_append filter_empty_conv)
  moreover have "filter (\<lambda>e. eIndex ?x < eIndex e) (drop k es) = drop k es"
    using sw unfolding tk by (auto simp: sorted_wrt_append filter_id_conv)
  ultimately show ?thesis by (subst es) (simp only: filter_append append_Nil)
qed

lemma chainLog_sorted:
  assumes "chainLog es" "length es < 2 ^ 63"
  shows "sortedIndexes es"
  unfolding sortedIndexes_def sorted_wrt_iff_nth_less
proof (intro allI impI)
  fix i j assume ij: "i < j" "j < length es"
  have "unat (word_of_nat (Suc i) :: uint64) = Suc i" "unat (word_of_nat (Suc j) :: uint64) = Suc j"
    using ij assms(2) by (simp_all add: unat_of_nat take_bit_nat_eq_self del: of_nat_Suc)
  then show "eIndex (es ! i) < eIndex (es ! j)"
    using ij chainLog_nth_index [OF assms(1)] by (simp add: word_less_nat_alt del: of_nat_Suc)
qed

lemma chainLog_index_bound:
  assumes "chainLog es" "length es < 2 ^ 63" "e \<in> set es"
  shows "eIndex e \<le> 9223372036854775807"
proof -
  obtain i where i: "i < length es" "e = es ! i" using assms(3) by (auto simp: in_set_conv_nth)
  have "unat (word_of_nat (Suc i) :: uint64) = Suc i"
    using i assms(2) by (simp add: unat_of_nat take_bit_nat_eq_self del: of_nat_Suc)
  then show ?thesis
    using i assms(2) chainLog_nth_index [OF assms(1)] by (simp add: word_le_nat_alt del: of_nat_Suc)
qed

section \<open>The contract\<close>

text \<open>\<open>rep s es\<close>: the store \<open>s\<close> holds the log \<open>es\<close>.  \<open>fits es ts r\<close>: the store can hold one more
  entry for the record \<open>r\<close>.\<close>

locale log_store =
  fixes append :: "string \<Rightarrow> LogRecord \<Rightarrow> 's \<Rightarrow> Entry result \<times> 's"
    and verify :: "'s \<Rightarrow> VerifyResult result"
    and query :: "LogQuery \<Rightarrow> 's \<Rightarrow> LogQueryResult result"
    and matches :: "LogQuery \<Rightarrow> Entry \<Rightarrow> bool"
    and rep :: "'s \<Rightarrow> Entry list \<Rightarrow> bool"
    and fits :: "Entry list \<Rightarrow> string \<Rightarrow> LogRecord \<Rightarrow> bool"
  assumes rep_chain: "rep s es \<Longrightarrow> chainLog es \<and> length es < 2 ^ 63"
    and matches_after: "matches (q\<lparr>qAfterIndex := i, qOffset := n\<rparr>) e = matches q e"
    and append_rep: "rep s es \<Longrightarrow> okRecord r \<Longrightarrow> validUtf8 ts \<Longrightarrow> fits es ts r \<Longrightarrow>
      e = newEntry (word_of_nat (Suc (length es))) ts (lastHashOf es) r (encodeJson (recordJson r)) \<Longrightarrow>
      \<exists>s'. append ts r s = (Inr e, s') \<and> rep s' (es @ [normEntry e])"
    and verify_rep: "rep s es \<Longrightarrow>
      verify s = Inr (validResult (word_of_nat (length es)) (lastHashOf es))"
    and query_rep: "rep s es \<Longrightarrow> 0 < qLimit q \<Longrightarrow> qLimit q < maxInt64 \<Longrightarrow>
      qAfterIndex q \<le> 9223372036854775807 \<Longrightarrow> query q s = Inr (querySpec matches q es)"
begin

text \<open>A client that follows \<open>nextCursor\<close>, for at most \<open>n\<close> requests.\<close>

fun walk :: "nat \<Rightarrow> LogQuery \<Rightarrow> 's \<Rightarrow> Entry list" where
  "walk 0 q s = []"
| "walk (Suc n) q s =
     (case query q s of
        Inl _ \<Rightarrow> []
      | Inr res \<Rightarrow> qrItems res @
          (case qrNextCursor res of
             None \<Rightarrow> []
           | Some c \<Rightarrow> (case decodeCursor c of
                 Inl _ \<Rightarrow> []
               | Inr i \<Rightarrow> walk n (q\<lparr>qAfterIndex := i, qOffset := 0\<rparr>) s)))"

lemma queryRest_after:
  assumes "sortedIndexes es" "0 < k" "k \<le> length (queryRest matches q es)"
    "i = eIndex (queryRest matches q es ! (k - 1))"
  shows "queryRest matches (q\<lparr>qAfterIndex := i, qOffset := 0\<rparr>) es = drop k (queryRest matches q es)"
proof -
  let ?rest = "queryRest matches q es"
  have i: "qAfterIndex q < i"
  proof -
    have "?rest ! (k - 1) \<in> set ?rest" using assms(2,3) by (intro nth_mem) linarith
    then show ?thesis using assms(4) by (auto simp: queryRest_def)
  qed
  have "queryRest matches (q\<lparr>qAfterIndex := i, qOffset := 0\<rparr>) es = filter (\<lambda>e. i < eIndex e) ?rest"
    using i by (auto simp: queryRest_def matches_after intro!: filter_cong)
  then show ?thesis
    using filter_after_drop [of ?rest k] assms by (simp add: queryRest_def sortedIndexes_filter)
qed

lemma walk_complete:
  assumes "rep s es" "0 < qLimit q" "qLimit q < maxInt64" "qAfterIndex q \<le> 9223372036854775807"
    "qOffset q = 0" "length (queryRest matches q es) < n"
  shows "walk n q s = queryRest matches q es"
  using assms
proof (induction n arbitrary: q)
  case (Suc n)
  let ?rest = "queryRest matches q es" and ?k = "nat (qLimit q)"
  have chain: "chainLog es" "length es < 2 ^ 63" using rep_chain [OF Suc.prems(1)] by auto
  have query: "query q s = Inr (querySpec matches q es)" using query_rep Suc.prems by blast
  show ?case
  proof (cases "?k < length ?rest")
    case False
    then show ?thesis using query Suc.prems by (simp add: querySpec_def Let_def)
  next
    case True
    define i where "i = eIndex (?rest ! (?k - 1))"
    have k: "0 < ?k" using Suc.prems by simp
    have "last (take ?k ?rest) = ?rest ! (?k - 1)"
      using True k by (subst last_conv_nth) auto
    moreover have "?rest ! (?k - 1) \<in> set es"
    proof -
      have "?rest ! (?k - 1) \<in> set ?rest" using True k by (intro nth_mem) linarith
      then show ?thesis by (auto simp: queryRest_def)
    qed
    ultimately have i: "i \<le> 9223372036854775807" "last (take ?k ?rest) = ?rest ! (?k - 1)"
      using chainLog_index_bound [OF chain] by (auto simp: i_def)
    have rest: "queryRest matches (q\<lparr>qAfterIndex := i, qOffset := 0\<rparr>) es = drop ?k ?rest"
      using queryRest_after [OF chainLog_sorted [OF chain] k] True by (simp add: i_def)
    have "take ?k ?rest \<noteq> []" using True k by auto
    then have "walk (Suc n) q s = take ?k ?rest @ walk n (q\<lparr>qAfterIndex := i, qOffset := 0\<rparr>) s"
      using query Suc.prems True i k
      by (simp add: querySpec_def Let_def decode_encodeCursor_iff i_def)
    also have "walk n (q\<lparr>qAfterIndex := i, qOffset := 0\<rparr>) s = drop ?k ?rest"
      using Suc.IH [of "q\<lparr>qAfterIndex := i, qOffset := 0\<rparr>"] Suc.prems rest i True k by simp
    finally show ?thesis by simp
  qed
qed simp

text \<open>A run of appends.\<close>

fun appendAll :: "(string \<times> LogRecord) list \<Rightarrow> 's \<Rightarrow> 's" where
  "appendAll [] s = s"
| "appendAll ((ts, r) # xs) s = appendAll xs (snd (append ts r s))"

lemma appendAll_rep:
  assumes "rep s es"
    and "\<And>ts r es'. (ts, r) \<in> set xs \<Longrightarrow> chainLog es' \<Longrightarrow> length es' < length es + length xs \<Longrightarrow>
      okRecord r \<and> validUtf8 ts \<and> fits es' ts r"
  shows "\<exists>fs. rep (appendAll xs s) (es @ fs) \<and> map (\<lambda>x. normRecord (snd x)) xs = map eRecord fs \<and>
    map fst xs = map eTimestamp fs"
  using assms
proof (induction xs arbitrary: s es)
  case Nil
  then show ?case by (auto intro: exI [of _ "[]"])
next
  case (Cons x xs)
  obtain ts r where x: "x = (ts, r)" by fastforce
  define e where "e = newEntry (word_of_nat (Suc (length es))) ts (lastHashOf es) r (encodeJson (recordJson r))"
  have "okRecord r \<and> validUtf8 ts \<and> fits es ts r"
    using Cons.prems(2) [of ts r es] rep_chain [OF Cons.prems(1)] x by simp
  then obtain s' where s': "append ts r s = (Inr e, s')" "rep s' (es @ [normEntry e])"
    using append_rep [OF Cons.prems(1) _ _ _ e_def] by blast
  have "\<exists>fs. rep (appendAll xs s') ((es @ [normEntry e]) @ fs) \<and>
      map (\<lambda>x. normRecord (snd x)) xs = map eRecord fs \<and> map fst xs = map eTimestamp fs"
  proof (rule Cons.IH [OF s'(2)])
    fix ts r es' assume "(ts, r) \<in> set xs" "chainLog es'" "length es' < length (es @ [normEntry e]) + length xs"
    then show "okRecord r \<and> validUtf8 ts \<and> fits es' ts r" using Cons.prems(2) [of ts r es'] by simp
  qed
  then obtain fs where "rep (appendAll xs s') ((es @ [normEntry e]) @ fs)"
    "map (\<lambda>x. normRecord (snd x)) xs = map eRecord fs" "map fst xs = map eTimestamp fs" by blast
  then show ?case
    using s' x by (intro exI [of _ "normEntry e # fs"]) (simp add: e_def normEntry_newEntry)
qed

lemma verify_appendAll:
  assumes "rep s es"
    and "\<And>ts r es'. (ts, r) \<in> set xs \<Longrightarrow> chainLog es' \<Longrightarrow> length es' < length es + length xs \<Longrightarrow>
      okRecord r \<and> validUtf8 ts \<and> fits es' ts r"
  shows "\<exists>h. verify (appendAll xs s) = Inr (validResult (word_of_nat (length es + length xs)) h)"
proof -
  obtain fs where fs: "rep (appendAll xs s) (es @ fs)" "map fst xs = map eTimestamp fs"
    using appendAll_rep [OF assms] by blast
  then have "length fs = length xs" by (metis length_map)
  then show ?thesis using verify_rep [OF fs(1)] by auto
qed

end

end
