(* ===== verification/Server_Router.thy ===== *)
theory Server_Router
  imports Server_Config Server_Auth Server_Store
begin

text \<open>
  The HTTP surface (\<open>cmd/server/router.go\<close>, \<open>requireAuth\<close> of \<open>auth.go\<close>, \<open>writeJSON\<close> and
  \<open>withMethod\<close> of \<open>main.go\<close>).  The store and the registry are the two Go interfaces the router is
  built from: a record of functions on a state, and \<open>Authenticate\<close> as a function of the token.
  The request context is the principal \<open>requireAuth\<close> put there, or nothing.
\<close>

section \<open>Responses\<close>

record Response =
  rsStatus :: nat
  rsHeaders :: "(string \<times> string) list"
  rsBody :: string

text \<open>\<open>json.NewEncoder(w).Encode(v)\<close> ends the text with a newline and writes nothing on an error.\<close>

definition writeJSON :: "(string \<times> string) list \<Rightarrow> nat \<Rightarrow> json \<Rightarrow> Response" where
  "writeJSON headers status v =
     \<lparr>rsStatus = status, rsHeaders = headers @ [(''content-type'', ''application/json'')],
      rsBody = (case Marshal v of None \<Rightarrow> [] | Some t \<Rightarrow> t @ [NL])\<rparr>"

definition errorJSON :: "nat \<Rightarrow> string \<Rightarrow> Response" where
  "errorJSON status msg = writeJSON [] status (JObj [(''error'', JStr msg)])"

definition writeUnauthorized :: Response where
  "writeUnauthorized =
     writeJSON [(''WWW-Authenticate'', ''Bearer'')] 401 (JObj [(''error'', JStr ''unauthorized'')])"

text \<open>\<open>http.NotFound\<close>, which the mux calls for a path no pattern matches.\<close>

definition notFound :: Response where
  "notFound = \<lparr>rsStatus = 404,
     rsHeaders = [(''Content-Type'', ''text/plain; charset=utf-8''), (''X-Content-Type-Options'', ''nosniff'')],
     rsBody = ''404 page not found'' @ [NL]\<rparr>"

definition uintJson :: "uint64 \<Rightarrow> json" where
  "uintJson n = JNum (FormatUint (unat n))"

definition verifyJson :: "VerifyResult \<Rightarrow> json" where
  "verifyJson v = JObj
     [(''valid'', JBool (vValid v)), (''totalEntries'', uintJson (vTotalEntries v)),
      (''lastHash'', JStr (vLastHash v)),
      (''invalidAt'', case vInvalidAt v of None \<Rightarrow> JNull | Some i \<Rightarrow> uintJson i),
      (''reason'', case vReason v of None \<Rightarrow> JNull | Some r \<Rightarrow> JStr r)]"

definition queryJson :: "LogQueryResult \<Rightarrow> json" where
  "queryJson q = JObj
     ([(''items'', JArr (map entryJson (qrItems q))), (''limit'', JNum (Itoa (qrLimit q))),
       (''nextCursor'', case qrNextCursor q of None \<Rightarrow> JNull | Some c \<Rightarrow> JStr c)] @
      (case qrTotal q of None \<Rightarrow> [] | Some n \<Rightarrow> [(''total'', JNum (Itoa n))]) @
      (case qrOffset q of None \<Rightarrow> [] | Some n \<Rightarrow> [(''offset'', JNum (Itoa n))]))"

section \<open>Collaborators\<close>

text \<open>The \<open>Store\<close> interface; the clock is inside the store.\<close>

record 's StoreOps =
  soAppend :: "LogRecord \<Rightarrow> 's \<Rightarrow> Entry result \<times> 's"
  soVerify :: "'s \<Rightarrow> VerifyResult result"
  soQueryLogs :: "LogQuery \<Rightarrow> 's \<Rightarrow> LogQueryResult result"

type_synonym 's handler = "Principal option \<Rightarrow> Request \<Rightarrow> 's \<Rightarrow> Response \<times> 's"

section \<open>Middleware\<close>

definition withMethod :: "string \<Rightarrow> 's handler \<Rightarrow> 's handler" where
  "withMethod m handler ctx r s =
     (if reqMethod r \<noteq> m then (errorJSON 405 ''method not allowed'', s) else handler ctx r s)"

definition requireAuth :: "(string \<Rightarrow> Principal result) \<Rightarrow> 's handler \<Rightarrow> 's handler" where
  "requireAuth authenticate handler ctx r s =
     (let token = bearerToken r in
      if token = [] then (writeUnauthorized, s)
      else (case authenticate token of
          Inl e \<Rightarrow> if e = ErrUnauthorized then (writeUnauthorized, s)
                  else (errorJSON 503 ''authentication unavailable'', s)
        | Inr p \<Rightarrow> handler (Some p) r s))"

section \<open>Handlers\<close>

text \<open>\<open>http.MaxBytesReader\<close> followed by \<open>io.ReadAll\<close>.\<close>

definition readBody :: "int \<Rightarrow> Request \<Rightarrow> string option" where
  "readBody limit r = (if reqBodyErr r \<or> limit < int (length (reqBody r)) then None else Some (reqBody r))"

definition handleWriteLog :: "Config \<Rightarrow> 's StoreOps \<Rightarrow> 's handler" where
  "handleWriteLog cfg store ctx r s =
     (case readBody (cfgMaxPayloadBytes cfg) r of
        None \<Rightarrow> (errorJSON 413 ''payload exceeds max size'', s)
      | Some body \<Rightarrow>
     (case unmarshalRecord body of
        None \<Rightarrow> (errorJSON 400 ''invalid JSON body'', s)
      | Some input0 \<Rightarrow>
     (case ctx of
        None \<Rightarrow> (errorJSON 500 ''missing principal'', s)
      | Some p \<Rightarrow>
          if pClientID p = [] then (errorJSON 500 ''principal missing client id'', s)
          else
            (let input1 = input0\<lparr>recClientID := pClientID p, recApp := TrimSpace (recApp input0),
                                 recLevel := TrimSpace (recLevel input0),
                                 recMessage := TrimSpace (recMessage input0)\<rparr>
             in if recApp input1 = [] \<or> recLevel input1 = [] \<or> recMessage input1 = []
                then (errorJSON 400 ''app, level, and message are required'', s)
                else
                  (let input = (if recMetadata input1 = None then input1\<lparr>recMetadata := Some []\<rparr> else input1)
                   in case soAppend store input s of
                        (Inl _, s') \<Rightarrow> (errorJSON 500 ''failed to append log entry'', s')
                      | (Inr entry, s') \<Rightarrow>
                          (writeJSON [] 201 (JObj
                             [(''entryHash'', JStr (eEntryHash entry)), (''index'', uintJson (eIndex entry)),
                              (''prevHash'', JStr (ePrevHash entry)), (''timestamp'', JStr (eTimestamp entry))]),
                           s'))))))"

text \<open>\<open>err.Error()\<close> of the errors \<open>parseLogQuery\<close> returns, which are all plain messages (lemma
  \<open>parseLogQuery_errors\<close>).\<close>

fun errorText :: "goerror \<Rightarrow> string" where
  "errorText (ErrMsg m) = m"
| "errorText _ = []"

definition handleReadLogs :: "Config \<Rightarrow> 's StoreOps \<Rightarrow> 's handler" where
  "handleReadLogs cfg store ctx r s =
     (case parseLogQuery r (cfgQuery cfg) of
        Inl e \<Rightarrow> (errorJSON 400 (errorText e), s)
      | Inr query0 \<Rightarrow>
     (case ctx of
        None \<Rightarrow> (errorJSON 500 ''missing principal'', s)
      | Some p \<Rightarrow>
          if pClientID p = [] then (errorJSON 500 ''principal missing client id'', s)
          else (case soQueryLogs store (scopeQuery query0 p r) s of
              Inl _ \<Rightarrow> (errorJSON 500 ''failed to query logs'', s)
            | Inr result \<Rightarrow> (writeJSON [] 200 (queryJson result), s))))"

definition handleHealth :: "'s handler" where
  "handleHealth ctx r s = (writeJSON [] 200 (JObj [(''status'', JStr ''ok'')]), s)"

definition handleVerify :: "'s StoreOps \<Rightarrow> 's handler" where
  "handleVerify store ctx r s =
     (case soVerify store s of
        Inl _ \<Rightarrow> (errorJSON 500 ''failed to verify chain'', s)
      | Inr result \<Rightarrow>
          if vValid result then (writeJSON [] 200 (verifyJson result), s)
          else (writeJSON [] 409 (verifyJson result), s))"

definition handleLogs :: "Config \<Rightarrow> 's StoreOps \<Rightarrow> 's handler" where
  "handleLogs cfg store ctx r s =
     (if reqMethod r = ''POST'' then handleWriteLog cfg store ctx r s
      else if reqMethod r = ''GET'' then handleReadLogs cfg store ctx r s
      else (errorJSON 405 ''method not allowed'', s))"

definition newRouter :: "Config \<Rightarrow> 's StoreOps \<Rightarrow> (string \<Rightarrow> Principal result) \<Rightarrow> Request \<Rightarrow> 's \<Rightarrow> Response \<times> 's" where
  "newRouter cfg store authenticate r s =
     (if reqPath r = ''/v1/health'' then withMethod ''GET'' handleHealth None r s
      else if reqPath r = ''/v1/logs'' then requireAuth authenticate (handleLogs cfg store) None r s
      else if reqPath r = ''/v1/logs/search''
      then requireAuth authenticate (withMethod ''GET'' (handleReadLogs cfg store)) None r s
      else if reqPath r = ''/v1/verify''
      then requireAuth authenticate (withMethod ''GET'' (handleVerify store)) None r s
      else (notFound, s))"

section \<open>Facts about every request\<close>

lemma parseLogQuery_errors: "parseLogQuery r l = Inl e \<Longrightarrow> \<exists>m. e = ErrMsg m"
  by (auto simp: parseLogQuery_def Let_def parseCursorParam_def parseLimitParam_def parseOffsetParam_def
      split: if_splits sum.splits prod.splits dest: decodeCursor_errors)

definition protectedPath :: "string \<Rightarrow> bool" where
  "protectedPath p \<longleftrightarrow> p \<in> {''/v1/logs'', ''/v1/logs/search'', ''/v1/verify''}"

lemma newRouter_protected:
  assumes "protectedPath (reqPath r)"
  obtains h where "\<And>s. newRouter cfg store auth r s = requireAuth auth h None r s"
  using assms that by (auto simp: protectedPath_def newRouter_def)

lemma requireAuth_denied:
  "bearerToken r = [] \<or> auth (bearerToken r) = Inl ErrUnauthorized \<Longrightarrow>
   requireAuth auth h ctx r s = (writeUnauthorized, s)"
  by (auto simp: requireAuth_def Let_def)

lemma requireAuth_unavailable:
  "bearerToken r \<noteq> [] \<Longrightarrow> auth (bearerToken r) = Inl e \<Longrightarrow> e \<noteq> ErrUnauthorized \<Longrightarrow>
   requireAuth auth h ctx r s = (errorJSON 503 ''authentication unavailable'', s)"
  by (simp add: requireAuth_def Let_def)

lemma requireAuth_admitted:
  "bearerToken r \<noteq> [] \<Longrightarrow> auth (bearerToken r) = Inr p \<Longrightarrow> requireAuth auth h ctx r s = h (Some p) r s"
  by (simp add: requireAuth_def Let_def)

text \<open>The record a write stores.\<close>

definition stampedRecord :: "Principal \<Rightarrow> LogRecord \<Rightarrow> LogRecord" where
  "stampedRecord p input =
     \<lparr>recClientID = pClientID p, recApp = TrimSpace (recApp input), recLevel = TrimSpace (recLevel input),
      recMessage = TrimSpace (recMessage input),
      recMetadata = (if recMetadata input = None then Some [] else recMetadata input)\<rparr>"

definition completeRecord :: "LogRecord \<Rightarrow> bool" where
  "completeRecord r \<longleftrightarrow> recApp r \<noteq> [] \<and> recLevel r \<noteq> [] \<and> recMessage r \<noteq> []"

lemma handleWriteLog_eq:
  "handleWriteLog cfg store (Some p) r s =
     (case readBody (cfgMaxPayloadBytes cfg) r of
        None \<Rightarrow> (errorJSON 413 ''payload exceeds max size'', s)
      | Some body \<Rightarrow> (case unmarshalRecord body of
          None \<Rightarrow> (errorJSON 400 ''invalid JSON body'', s)
        | Some input \<Rightarrow>
            if pClientID p = [] then (errorJSON 500 ''principal missing client id'', s)
            else if \<not> completeRecord (stampedRecord p input)
            then (errorJSON 400 ''app, level, and message are required'', s)
            else (case soAppend store (stampedRecord p input) s of
                (Inl _, s') \<Rightarrow> (errorJSON 500 ''failed to append log entry'', s')
              | (Inr entry, s') \<Rightarrow>
                  (writeJSON [] 201 (JObj
                     [(''entryHash'', JStr (eEntryHash entry)), (''index'', uintJson (eIndex entry)),
                      (''prevHash'', JStr (ePrevHash entry)), (''timestamp'', JStr (eTimestamp entry))]), s'))))"
proof -
  let ?trim = "\<lambda>input. input\<lparr>recClientID := pClientID p, recApp := TrimSpace (recApp input),
      recLevel := TrimSpace (recLevel input), recMessage := TrimSpace (recMessage input)\<rparr>"
  have some: "recMetadata input \<noteq> None \<Longrightarrow> ?trim input = stampedRecord p input" for input
    by (cases input) (simp add: stampedRecord_def)
  have none: "recMetadata input = None \<Longrightarrow> (?trim input)\<lparr>recMetadata := Some []\<rparr> = stampedRecord p input" for input
    by (cases input) (simp add: stampedRecord_def)
  have complete: "completeRecord (stampedRecord p input) \<longleftrightarrow> \<not> (TrimSpace (recApp input) = [] \<or>
      TrimSpace (recLevel input) = [] \<or> TrimSpace (recMessage input) = [])" for input
    by (simp add: completeRecord_def stampedRecord_def)
  show ?thesis
    unfolding handleWriteLog_def complete Let_def
    by (simp add: some none split: option.split)
qed

lemma okRecord_stamped:
  "okRecord input \<Longrightarrow> validUtf8 (pClientID p) \<Longrightarrow> okRecord (stampedRecord p input)"
  by (auto simp: okRecord_def stampedRecord_def okGoMap_def sortedMap_def split: option.splits)

text \<open>The only state change any request can cause is one append of a record stamped with the caller.\<close>

lemma newRouter_state:
  assumes "newRouter cfg store auth r s = (resp, s')"
  shows "s' = s \<or> (\<exists>p input. reqMethod r = ''POST'' \<and> reqPath r = ''/v1/logs'' \<and> auth (bearerToken r) = Inr p \<and>
    pClientID p \<noteq> [] \<and> unmarshalRecord (reqBody r) = Some input \<and>
    int (length (reqBody r)) \<le> cfgMaxPayloadBytes cfg \<and>
    completeRecord (stampedRecord p input) \<and> s' = snd (soAppend store (stampedRecord p input) s))"
proof (cases "reqPath r = ''/v1/logs'' \<and> reqMethod r = ''POST'' \<and> bearerToken r \<noteq> [] \<and>
    (\<exists>p. auth (bearerToken r) = Inr p)")
  case True
  then obtain p where p: "auth (bearerToken r) = Inr p" by blast
  have "handleWriteLog cfg store (Some p) r s = (resp, s')"
    using assms True p by (simp add: newRouter_def requireAuth_admitted handleLogs_def)
  then show ?thesis
    using True p unfolding handleWriteLog_eq readBody_def
    by (auto split: option.splits if_splits prod.splits sum.splits)
next
  case False
  have "s' = s"
    using assms False
    by (auto simp: newRouter_def requireAuth_def withMethod_def handleHealth_def handleLogs_def
        handleVerify_def handleReadLogs_def Let_def split: if_splits sum.splits option.splits)
  then show ?thesis by simp
qed

lemma handleReadLogs_ok:
  assumes "parseLogQuery r (cfgQuery cfg) = Inr q" "pClientID p \<noteq> []"
    "soQueryLogs store (scopeQuery q p r) s = Inr result"
  shows "handleReadLogs cfg store (Some p) r s = (writeJSON [] 200 (queryJson result), s)"
  using assms by (simp add: handleReadLogs_def)

end
