(* ===== verification/Go_JsonCut.thy ===== *)
theory Go_JsonCut
  imports Go_JsonRound
begin

text \<open>
  A JSON text that was cut short and continued with another document.  The beginning of a printed document,
  glued to a printed object, is never accepted by the parser: wherever the cut falls, inside a string or a
  number, between two tokens or after the last byte, the parser meets a byte that cannot follow.
\<close>

section \<open>Cuts\<close>

lemma cut_append:
  assumes "p @ q = a @ b"
  obtains (left) q' where "p @ q' = a" "q = q' @ b" | (right) p' where "p = a @ p'" "p' @ q = b"
  using assms unfolding append_eq_append_conv2 by blast

section \<open>Where a string ends\<close>

text \<open>The closing quote, found by skipping escaped bytes.\<close>

fun strEnd :: "string \<Rightarrow> string option" where
  "strEnd [] = None"
| "strEnd [c] = (if c = CHR 0x22 then Some [] else None)"
| "strEnd (c # x # t) =
     (if c = CHR 0x22 then Some (x # t) else if c = CHR 0x5C then strEnd t else strEnd (x # t))"

lemma strEnd_skip: "c \<noteq> CHR 0x22 \<Longrightarrow> c \<noteq> CHR 0x5C \<Longrightarrow> strEnd (c # t) = strEnd t"
  by (cases t) simp_all

lemma strEnd_quote [simp]: "strEnd (CHR 0x22 # t) = Some t"
  by (cases t) simp_all

lemma strEnd_append: "strEnd p = Some r \<Longrightarrow> strEnd (p @ y) = Some (r @ y)"
  by (induction p rule: strEnd.induct) (auto split: if_splits simp: strEnd_skip)

lemma strEnd_open: "strEnd p = None \<Longrightarrow> c \<noteq> CHR 0x22 \<Longrightarrow> c \<noteq> CHR 0x5C \<Longrightarrow> strEnd (p @ c # CHR 0x22 # r) = Some r"
  by (induction p rule: strEnd.induct) (auto split: if_splits simp: strEnd_skip)

lemma hexVal_plain: "hexVal c = Some d \<Longrightarrow> c \<noteq> CHR 0x22 \<and> c \<noteq> CHR 0x5C"
  by (auto simp: hexVal_def byteVal_def)

lemma strEnd_getu4: "getu4 s = Some (n, r) \<Longrightarrow> strEnd s = strEnd r"
  by (induction s rule: getu4.induct) (auto simp: strEnd_skip hexVal_plain dest!: hexVal_plain split: option.splits)

lemma strEnd_decodeU: "decodeU s = Some (b, r) \<Longrightarrow> strEnd s = strEnd r"
  by (auto simp: decodeU_def strEnd_getu4 dest!: strEnd_getu4 split: option.splits if_splits list.splits)

lemma strEnd_escape: "decodeEscape s = Some (b, r) \<Longrightarrow> strEnd (CHR 0x5C # s) = strEnd r"
  by (auto simp: decodeEscape_def dest: strEnd_decodeU split: list.splits if_splits)

lemma byte_high: "128 \<le> byteVal c \<Longrightarrow> c \<noteq> CHR 0x22 \<and> c \<noteq> CHR 0x5C"
  by (auto simp: byteVal_def)

lemma strEnd_high: "\<forall>c\<in>set s. 128 \<le> byteVal c \<Longrightarrow> strEnd (s @ t) = strEnd t"
  by (induction s) (simp_all add: strEnd_skip byte_high)

lemma inRanges_bytes:
  "inRanges rs t \<Longrightarrow> (\<forall>(lo, hi)\<in>set rs. 128 \<le> lo \<and> hi \<le> 191) \<Longrightarrow> \<forall>c\<in>set (take (length rs) t). 128 \<le> byteVal c"
  by (induction rs t rule: inRanges.induct) (auto simp: byteIn_def)

lemma strEnd_rune:
  assumes "c \<noteq> CHR 0x22" "c \<noteq> CHR 0x5C" "utf8Size (c # t) \<noteq> 0"
  shows "strEnd (c # t) = strEnd (drop (utf8Size (c # t)) (c # t))"
proof -
  obtain rs where rs: "leadRanges (byteVal c) = Some rs" "inRanges rs t" "utf8Size (c # t) = Suc (length rs)"
    using assms(3) by (auto simp: utf8Size.simps split: option.splits if_splits)
  have "\<forall>x\<in>set (take (length rs) t). 128 \<le> byteVal x"
    using inRanges_bytes [OF rs(2)] leadRanges_cont [OF rs(1)] by blast
  from strEnd_high [OF this, of "drop (length rs) t"] show ?thesis using assms(1,2) rs(3) by (simp add: strEnd_skip)
qed

lemma decodeStr_strEnd: "decodeStr s = Some (t, r) \<Longrightarrow> strEnd s = Some r"
proof (induction s arbitrary: t rule: length_induct)
  case (1 s)
  show ?case
  proof (cases s)
    case (Cons c u)
    note eq = decodeStr.simps [of "c # u"]
    have IH: "strEnd x = Some r" if "prepend b (decodeStr x) = Some (t, r)" "length x < length s" for b x
      using "1.IH" that by (auto simp: prepend_def)
    consider (quote) "c = CHR 0x22" | (escape) "c = CHR 0x5C"
      | (bad) "c \<noteq> CHR 0x22" "c \<noteq> CHR 0x5C" "utf8Size s = 0"
      | (rune) "c \<noteq> CHR 0x22" "c \<noteq> CHR 0x5C" "utf8Size s \<noteq> 0" by blast
    then show ?thesis
    proof cases
      case quote
      with 1 Cons show ?thesis by simp
    next
      case escape
      then obtain b x where x: "decodeEscape u = Some (b, x)" "prepend b (decodeStr x) = Some (t, r)"
        using "1.prems" Cons by (auto simp: decodeStr_escape split: option.splits)
      then show ?thesis
        using IH [OF x(2)] decodeEscape_shorter [OF x(1)] strEnd_escape [OF x(1)] escape Cons by simp
    next
      case bad
      then show ?thesis using "1.prems" Cons IH [of _ u] by (auto simp: eq strEnd_skip split: if_splits)
    next
      case rune
      let ?d = "drop (utf8Size (c # u)) (c # u)"
      have "prepend (take (utf8Size (c # u)) (c # u)) (decodeStr ?d) = Some (t, r)"
        using "1.prems" Cons rune by (simp add: eq split: if_splits)
      from IH [OF this] show ?thesis using rune Cons strEnd_rune [of c u] by simp
    qed
  qed (use 1 in \<open>simp add: decodeStr.simps\<close>)
qed

lemma strEnd_encodeStr:
  assumes "validUtf8 s"
  shows "strEnd (encodeStr s) = None"
proof (rule ccontr)
  assume "strEnd (encodeStr s) \<noteq> None"
  then obtain r where "strEnd (encodeStr s) = Some r" by blast
  from strEnd_append [OF this, of "CHR 0x22 # []"] decodeStr_strEnd [OF decodeStr_encodeStr [OF assms, of "[]"]]
  show False by simp
qed

text \<open>A string body that was cut ends at the next quote.\<close>

lemma decodeStr_cut:
  assumes "validUtf8 s" "p @ q = encodeStr s" "decodeStr (p @ c # CHR 0x22 # r) = Some (t, r')" "c \<noteq> CHR 0x22" "c \<noteq> CHR 0x5C"
  shows "r' = r"
proof -
  have "strEnd p = None"
    using strEnd_encodeStr [OF assms(1)] strEnd_append [of p _ q] assms(2) by (cases "strEnd p") auto
  then show ?thesis using strEnd_open [OF _ assms(4,5)] decodeStr_strEnd [OF assms(3)] by simp
qed

section \<open>Numbers and keywords\<close>

definition numChar :: "char \<Rightarrow> bool" where
  "numChar c \<longleftrightarrow> isDigit c \<or> c \<in> set ''.eE+-''"

lemma numLit_chars: "isNumLit l \<Longrightarrow> \<forall>c\<in>set l. numChar c"
proof -
  assume "isNumLit l"
  then obtain sg i f e s1 s2 s3 u where l: "l = sg @ i @ f @ e" and sg: "scanSign l = (sg, s1)"
    and i: "scanInt s1 = Some (i, s2)" and f: "scanFrac s2 = Some (f, s3)" and e: "scanExp s3 = Some (e, u)"
    by (auto simp: isNumLit_def scanNumber_def scanParts_def split: option.splits prod.splits)
  have "sg = [] \<or> sg = ''-''" using sg by (auto simp: scanSign_def split: list.splits if_splits)
  with scanInt_shape [OF i] scanFrac_shape [OF f] scanExp_shape [OF e] show ?thesis
    by (auto simp: l numChar_def)
qed

text \<open>What a value may leave behind so that nothing around it can go on.\<close>

definition stuck :: "string \<Rightarrow> bool" where
  "stuck r \<longleftrightarrow> r = [] \<or> \<not> isWs (hd r) \<and> hd r \<notin> set '',:]}''"

lemma stuck_skip: "stuck r \<Longrightarrow> skipWs r = r"
  by (cases r) (auto simp: stuck_def skipWs_def)

lemma numChar_stuck: "numChar c \<Longrightarrow> stuck (c # r)"
  by (auto simp: numChar_def stuck_def isWs_def isDigit_def digitVal_def)

lemma numChar_value: "numChar c \<Longrightarrow> c \<notin> set ''[{tfn'' \<and> c \<noteq> CHR 0x22 \<and> \<not> isWs c"
  by (auto simp: numChar_def isWs_def isDigit_def digitVal_def)

lemma scanNumber_cut:
  assumes "\<forall>c\<in>set p. numChar c" "scanNumber (p @ c # r) = Some (t, r')" "\<not> numChar c" "stuck (c # r)"
  shows "stuck r'"
proof -
  have "p @ c # r = t @ r'"
    using assms(2) by (auto simp: scanNumber_def scanParts_def split: option.splits prod.splits dest!: scan_concat)
  then show ?thesis
  proof (cases rule: cut_append [of p "c # r" t r'])
    case (left q')
    have "c \<notin> set t" using numLit_chars [OF scanNumber_isNumLit [OF assms(2)]] assms(3) by blast
    with left assms(4) show ?thesis by (cases q') auto
  next
    case (right p')
    then show ?thesis using assms(1,4) numChar_stuck by (cases p') auto
  qed
qed

section \<open>Documents\<close>

text \<open>The text that follows the cut: an object whose first key starts with a letter.\<close>

definition follower :: "string \<Rightarrow> bool" where
  "follower x \<longleftrightarrow> (\<exists>u w. x = CHR ''{'' # CHR 0x22 # CHR ''i'' # u \<and> okDoc w \<and> encodeJson w = x)"

lemma follower_head:
  assumes "follower x"
  obtains u where "x = CHR ''{'' # CHR 0x22 # CHR ''i'' # u"
  using assms by (auto simp: follower_def)

lemma follower_stuck: "follower x \<Longrightarrow> stuck x" "follower x \<Longrightarrow> numStop x"
  by (auto simp: follower_def stuck_def numStop_def isDigit_def digitVal_def)

lemma stuck_elems:
  assumes "\<And>v r. parseVal n d s = Some (v, r) \<Longrightarrow> stuck r"
  shows "parseElems (Suc n) d s = None"
  using assms by (auto simp: parse_step stuck_skip stuck_def split: option.split list.split)

lemma parse_follower:
  assumes "follower x"
  shows "parseVal n d x = Some (v, r) \<Longrightarrow> r = []" "parseElems n d x = None" "parseMembers n d x = None"
proof -
  obtain w where w: "okDoc w" "encodeJson w = x" using assms by (auto simp: follower_def)
  have val: "parseVal m d x = Some (v, r) \<Longrightarrow> r = []" for m v r
    using parse_encode(1) [OF w(1), of "[]" m d] w(2) by (simp split: if_splits)
  then show "parseVal n d x = Some (v, r) \<Longrightarrow> r = []" .
  show "parseElems n d x = None" 
    using val by (cases n) (auto intro!: stuck_elems simp: stuck_def)
  show "parseMembers n d x = None" using assms by (cases n) (auto simp: follower_def parse_step)
qed

lemma keyword_cut:
  assumes "p @ q = w" "q \<noteq> []" "CHR ''{'' \<notin> set w"
  shows "parseKeyword w v (p @ CHR ''{'' # u) = None"
proof -
  have "take (length w) (p @ CHR ''{'' # u) \<noteq> w"
  proof
    assume eq: "take (length w) (p @ CHR ''{'' # u) = w"
    obtain k where k: "length w = length p + Suc k" using assms(1,2) by (cases q) auto
    then have "take (length w) (p @ CHR ''{'' # u) = p @ CHR ''{'' # take k u" by simp
    with eq assms(3) show False by (metis in_set_conv_decomp)
  qed
  then show ?thesis by (simp add: parseKeyword_def startsWith_def)
qed

lemma parse_cut_scalar:
  assumes "okDoc v" "p @ q = encodeJson v" "q \<noteq> []" "follower x" "parseVal n d (p @ x) = Some (t, r)"
    and "\<nexists>xs. v = JArr xs" "\<nexists>kvs. v = JObj kvs"
  shows "stuck r"
proof -
  obtain u where u: "x = CHR ''{'' # CHR 0x22 # CHR ''i'' # u" using follower_head [OF assms(4)] .
  show ?thesis
  proof (cases p)
    case Nil
    then show ?thesis using parse_follower(1) [OF assms(4)] assms(5) by (simp add: stuck_def)
  next
    case (Cons c p')
    obtain m where m: "n = Suc m" using assms(5) by (cases n) auto
    show ?thesis
    proof (cases v)
      case JNull
      then have "c = CHR ''n''" using assms(2) Cons by simp
      with keyword_cut [of p q "''null''"] JNull assms(2,3,5) m u Cons show ?thesis by (simp add: parse_step)
    next
      case (JBool b)
      then have "c = (if b then CHR ''t'' else CHR ''f'')" using assms(2) Cons by (simp split: if_splits)
      with keyword_cut [of p q "''true''"] keyword_cut [of p q "''false''"] JBool assms(2,3,5) m u Cons
      show ?thesis by (cases b) (simp_all add: parse_step)
    next
      case (JNum l)
      have chars: "\<forall>y\<in>set p. numChar y" using numLit_chars [of l] JNum assms(1,2) by auto
      then have "c \<notin> set ''[{tfn'' \<and> c \<noteq> CHR 0x22" "\<not> isWs c" using Cons numChar_value [of c] by simp_all
      then obtain t' where "scanNumber (p @ x) = Some (t', r)" using assms(5) m Cons by (auto simp: parse_step)
      moreover have "\<not> numChar CHR ''{''" by (simp add: numChar_def isDigit_def digitVal_def)
      ultimately show ?thesis using scanNumber_cut [OF chars] follower_stuck(1) [OF assms(4)] u by blast
    next
      case (JStr s)
      then have c: "c = CHR 0x22" "p' @ q = encodeStr s @ [CHR 0x22]" using assms(2) Cons by (simp_all add: quoteStr_def)
      then obtain q' where q': "p' @ q' = encodeStr s" using assms(3) by (cases q rule: rev_cases) auto
      obtain t' where "decodeStr (p' @ x) = Some (t', r)" using assms(5) m Cons c(1) by (auto simp: parse_step)
      then have "r = CHR ''i'' # u" using decodeStr_cut [OF _ q', of "CHR ''{''"] JStr assms(1) u by simp
      then show ?thesis by (simp add: stuck_def isWs_def)
    qed (use assms in blast)+
  qed
qed

lemma parse_after_value:
  assumes "okDoc v" "follower x" "numStop r"
  shows "parseVal n d (encodeJson v @ r) = Some (w, s) \<Longrightarrow> s = r"
  using parse_encode(1) [OF assms(1,3), of n d] by (simp split: if_splits)

lemma elems_solid:
  assumes "okDocs xs" "p @ q = encodeElems xs" "p \<noteq> []"
  shows "valueStart (hd p)"
proof -
  obtain y ys where xs: "xs = y # ys" using assms by (cases xs) auto
  obtain c t where c: "encodeJson y = c # t" "valueStart c" using encodeJson_head assms(1) xs by (metis okDocs.simps(2))
  then have "hd (p @ q) = c" using assms(2) xs by simp
  with assms(3) c(2) show ?thesis by simp
qed

text \<open>After a member name that was cut, or before its colon, nothing fits.\<close>

lemma members_cut_key:
  assumes "validUtf8 k" "p @ q = quoteStr k" "follower x"
  shows "parseMembers n d (p @ x) = None"
proof -
  obtain u where u: "x = CHR ''{'' # CHR 0x22 # CHR ''i'' # u" using follower_head [OF assms(3)] .
  show ?thesis
  proof (cases p; cases n)
    fix c p' m assume p: "p = c # p'" and n: "n = Suc m"
    then have c: "c = CHR 0x22" and q: "p' @ q = encodeStr k @ [CHR 0x22]" using assms(2) by (simp_all add: quoteStr_def)
    show ?thesis
    proof (cases q rule: rev_cases)
      case Nil
      then have "decodeStr (p' @ x) = Some (k, x)" using q decodeStr_encodeStr [OF assms(1), of x] by simp
      then show ?thesis using p n c u by (simp add: parse_step)
    next
      case (snoc q' y)
      then have "p' @ q' = encodeStr k" using q by simp
      from decodeStr_cut [OF assms(1) this, of "CHR ''{''"] u
      have "decodeStr (p' @ x) = Some (t, r) \<Longrightarrow> r = CHR ''i'' # u" for t r by simp
      then show ?thesis using p n c by (auto simp: parse_step isWs_def split: option.split)
    qed
  qed (use parse_follower(3) [OF assms(3)] in simp_all)
qed

text \<open>The steps of the induction below: an element or a member, the rest by hypothesis.\<close>

lemma value_cut:
  assumes "\<And>w r. q' \<noteq> [] \<Longrightarrow> parseVal m d (p @ x) = Some (w, r) \<Longrightarrow> stuck r" "okDoc y" "p @ q' = encodeJson y" "follower x"
    and "parseVal m d (p @ x) = Some (w, r)"
  shows "stuck r"
  using assms parse_after_value [of y x x m d w r] follower_stuck by (cases "q' = []") auto

lemma elems_cut_step:
  assumes "okDoc y" "follower x" "p @ q = encodeElems (y # ys)"
    and val: "\<And>p q w r. p @ q = encodeJson y \<Longrightarrow> q \<noteq> [] \<Longrightarrow> parseVal m d (p @ x) = Some (w, r) \<Longrightarrow> stuck r"
    and rest: "\<And>p. p @ q = encodeElems ys \<Longrightarrow> parseElems m d (p @ x) = None"
  shows "parseElems (Suc m) d (p @ x) = None"
proof -
  let ?tail = "if ys = [] then [] else CHR '','' # encodeElems ys"
  have bad: ?thesis if c: "p @ q' = encodeJson y" for q'
    by (rule stuck_elems) (rule value_cut [OF val [OF c] assms(1) c assms(2)])
  from assms(3) have "p @ q = encodeJson y @ ?tail" by simp
  then show ?thesis
  proof (cases rule: cut_append)
    case (left q')
    then show ?thesis by (intro bad)
  next
    case (right p')
    show ?thesis
    proof (cases p')
      case Nil
      then show ?thesis using right(1) by (intro bad [of "[]"]) simp
    next
      case (Cons c z)
      then have z: "c = CHR '',''" "z @ q = encodeElems ys" using right(2) by (simp_all split: if_splits)
      then show ?thesis
        using parse_encode(1) [of y "CHR '','' # z @ x" m d] rest [of z] assms(1) right(1) Cons by (simp add: parse_step)
    qed
  qed
qed

lemma members_head:
  assumes "validUtf8 k"
  shows "parseMembers (Suc m) d (quoteStr k @ CHR '':'' # s) = (case parseVal m d s of None \<Rightarrow> None | Some (v, r) \<Rightarrow>
    (case skipWs r of [] \<Rightarrow> None
     | c # r' \<Rightarrow> if c = CHR ''}'' then Some ([(k, v)], r')
         else if c = CHR '','' then map_option (\<lambda>(kvs, r''). ((k, v) # kvs, r'')) (parseMembers m d r') else None))"
  using decodeStr_encodeStr [OF assms, of "CHR '':'' # s"] by (simp add: parse_step quoteStr_def)

lemma stuck_members:
  assumes "validUtf8 k" "\<And>v r. parseVal m d s = Some (v, r) \<Longrightarrow> stuck r"
  shows "parseMembers (Suc m) d (quoteStr k @ CHR '':'' # s) = None"
  using assms(2) unfolding members_head [OF assms(1)]
  by (auto simp: stuck_skip stuck_def split: option.split list.split)

lemma members_cut_step:
  assumes "validUtf8 k" "okDoc v" "follower x" "p @ q = encodeMembers ((k, v) # kvs)"
    and val: "\<And>p q w r. p @ q = encodeJson v \<Longrightarrow> q \<noteq> [] \<Longrightarrow> parseVal m d (p @ x) = Some (w, r) \<Longrightarrow> stuck r"
    and rest: "\<And>p. p @ q = encodeMembers kvs \<Longrightarrow> parseMembers m d (p @ x) = None"
  shows "parseMembers (Suc m) d (p @ x) = None"
proof -
  let ?tail = "if kvs = [] then [] else CHR '','' # encodeMembers kvs"
  have bad: ?thesis if "p = quoteStr k @ CHR '':'' # p'" and c: "p' @ q' = encodeJson v" for p' q'
    using stuck_members [OF assms(1) value_cut [OF val [OF c] assms(2) c assms(3)]] that(1) by simp
  from assms(4) have "p @ q = (quoteStr k @ '':'') @ encodeJson v @ ?tail" by simp
  then show ?thesis
  proof (cases rule: cut_append)
    case (left q')
    show ?thesis
    proof (cases q' rule: rev_cases)
      case Nil
      then show ?thesis using left(1) by (intro bad [of "[]" "encodeJson v"]) simp_all
    next
      case (snoc q'' c)
      then show ?thesis using left(1) members_cut_key [OF assms(1) _ assms(3), of p q''] by simp
    qed
  next
    case (right p1)
    from right(2) show ?thesis
    proof (cases rule: cut_append)
      case (left q')
      then show ?thesis using right(1) by (intro bad [of p1 q']) simp_all
    next
      case (right p2)
      show ?thesis
      proof (cases p2)
        case Nil
        then show ?thesis using right(1) \<open>p = (quoteStr k @ '':'') @ p1\<close> by (intro bad [of p1 "[]"]) simp_all
      next
        case (Cons c z)
        then have z: "c = CHR '',''" "z @ q = encodeMembers kvs" using right(2) by (simp_all split: if_splits)
        then show ?thesis
          using parse_encode(1) [of v "CHR '','' # z @ x" m d] rest [of z] assms(2) right(1) Cons \<open>p = (quoteStr k @ '':'') @ p1\<close>
          by (simp add: members_head [OF assms(1)])
      qed
    qed
  qed
qed

lemma array_cut:
  assumes "p @ q = encodeElems xs @ '']''" "q \<noteq> []" "okDocs xs" "follower x"
    and "\<And>p q m e. p @ q = encodeElems xs \<Longrightarrow> parseElems m e (p @ x) = None"
  shows "parseVal n d (CHR ''['' # p @ x) = None"
proof -
  obtain q' where q': "p @ q' = encodeElems xs" using assms(1,2) by (cases q rule: rev_cases) auto
  obtain y z where "p @ x = y # z" "\<not> isWs y" "y \<noteq> CHR '']''"
    using elems_solid [OF assms(3) q'] valueStart_props assms(4) by (cases p) (auto elim: follower_head)
  then show ?thesis using assms(5) [OF q'] by (cases n) (auto simp: parse_step)
qed

lemma object_cut:
  assumes "p @ q = encodeMembers kvs @ ''}''" "q \<noteq> []" "follower x"
    and "\<And>p q m e. p @ q = encodeMembers kvs \<Longrightarrow> parseMembers m e (p @ x) = None"
  shows "parseVal n d (CHR ''{'' # p @ x) = None"
proof -
  obtain q' where q': "p @ q' = encodeMembers kvs" using assms(1,2) by (cases q rule: rev_cases) auto
  obtain y z where "p @ x = y # z" "y = CHR ''{'' \<or> y = CHR 0x22"
    using q' assms(3) by (cases p; cases kvs) (auto simp: quoteStr_def elim: follower_head)
  then show ?thesis using assms(4) [OF q'] by (cases n) (auto simp: parse_step)
qed

lemma parse_cut:
  "okDoc v \<Longrightarrow> p @ q = encodeJson v \<Longrightarrow> q \<noteq> [] \<Longrightarrow> follower x \<Longrightarrow> parseVal n d (p @ x) = Some (t, r) \<Longrightarrow> stuck r"
  "okDocs vs \<Longrightarrow> p @ q = encodeElems vs \<Longrightarrow> follower x \<Longrightarrow> parseElems n d (p @ x) = None"
  "okDocMembers kvs \<Longrightarrow> p @ q = encodeMembers kvs \<Longrightarrow> follower x \<Longrightarrow> parseMembers n d (p @ x) = None"
proof (induction v and vs and kvs arbitrary: p q n d t r and p q n d and p q n d
    rule: okDoc_okDocs_okDocMembers.induct)
  case 1 then show ?case using parse_cut_scalar [of JNull p q x n d t r] by simp
next
  case (2 b) then show ?case using parse_cut_scalar [of "JBool b" p q x n d t r] by simp
next
  case (3 l) then show ?case using parse_cut_scalar [of "JNum l" p q x n d t r] by simp
next
  case (4 s) then show ?case using parse_cut_scalar [of "JStr s" p q x n d t r] by simp
next
  case (5 xs)
  then show ?case
    using parse_follower(1) array_cut [of "tl p" q xs x n d] by (cases p) (auto simp: stuck_def)
next
  case (6 kvs)
  then show ?case
    using parse_follower(1) object_cut [of "tl p" q kvs x n d] by (cases p) (auto simp: stuck_def)
next
  case 7 then show ?case using parse_follower(2) by simp
next
  case (8 y ys)
  then show ?case using elems_cut_step [of y x p q ys _ d] by (cases n) auto
next
  case 9 then show ?case using parse_follower(3) by simp
next
  case (10 k v kvs)
  then show ?case using members_cut_step [of k v x p q kvs _ d] by (cases n) auto
qed

text \<open>An object that was cut anywhere after its first byte, or not cut at all, is no document once another one follows.\<close>

lemma parseJson_cut:
  assumes "okDoc (JObj kvs)" "p @ q = encodeJson (JObj kvs)" "p \<noteq> []" "follower x"
  shows "parseJson (p @ x) = None"
proof (cases "q = []")
  case True
  from parse_after_value [OF assms(1,4) follower_stuck(2) [OF assms(4)]]
  have "parseVal n d (p @ x) = Some (w, s) \<Longrightarrow> s = x" for n d w s using True assms(2) by simp
  moreover have "skipWs x \<noteq> []" using stuck_skip [OF follower_stuck(1)] assms(4) by (auto elim: follower_head)
  ultimately show ?thesis by (auto simp: parseJson_def split: option.split)
next
  case False
  obtain p' where p': "p = CHR ''{'' # p'" "p' @ q = encodeMembers kvs @ ''}''" using assms(2,3) by (cases p) auto
  have "parseVal n d (p @ x) = None" for n d
    using object_cut [OF p'(2) False assms(4)] parse_cut(3) assms(1,4) p'(1) by simp
  then show ?thesis by (simp add: parseJson_def)
qed

end
