(* ===== verification/Server_FileStore.thy ===== *)
theory Server_FileStore
  imports Server_Store Go_JsonCut
begin

text \<open>
  The append-only file backend (\<open>cmd/server/main.go\<close>: \<open>NewFileStore\<close>, \<open>FileStore.Append\<close>,
  \<open>Verify\<close>, \<open>QueryLogs\<close>, \<open>verifyChainUnsafe\<close>, \<open>matchesQuery\<close>).  The state is the file (absent or
  its bytes) and the last hash and index kept in memory; the mutex makes each operation one step.
  The clock and the outcome of each system call are inputs.
\<close>

section \<open>State and inputs\<close>

record FileStore =
  fsFile :: "string option"
  fsLastHash :: string
  fsLastIndex :: uint64

text \<open>How writing a line ends: all of it, an error before anything is written, or an error after the
  first bytes went out.\<close>

datatype writeOutcome = WriteOk | OpenFails string | WriteFails nat string

text \<open>The errors of the calls \<open>NewFileStore\<close> makes, \<open>None\<close> where the call succeeds.\<close>

record initFaults =
  ifMkdirAll :: "string option"
  ifStat :: "string option"
  ifWriteFile :: "string option"
  ifOpen :: "string option"

definition maxTokenSize :: nat where
  "maxTokenSize = 1024 * 1024"

section \<open>Verify\<close>

fun verifyLoop :: "string list \<Rightarrow> uint64 \<Rightarrow> string \<Rightarrow> uint64 \<Rightarrow> VerifyResult" where
  "verifyLoop [] expectedIndex previousHash n = validResult n previousHash"
| "verifyLoop (l # ls) expectedIndex previousHash n =
     (let line = TrimSpace l in
      if line = [] then verifyLoop ls expectedIndex previousHash n
      else (case unmarshalEntry line of
          None \<Rightarrow> invalidResult n previousHash expectedIndex ''invalid JSON line''
        | Some entry \<Rightarrow>
            (case marshalRecord (eRecord entry) of
               None \<Rightarrow> invalidResult n previousHash expectedIndex ''payload marshal failed''
             | Some payloadBytes \<Rightarrow>
                 (case checkEntry expectedIndex previousHash entry payloadBytes of
                    Some reason \<Rightarrow> invalidResult n previousHash expectedIndex reason
                  | None \<Rightarrow> verifyLoop ls (expectedIndex + 1) (eEntryHash entry) (n + 1)))))"

definition verifyContent :: "string \<Rightarrow> VerifyResult result" where
  "verifyContent content =
     (let (ls, tooLong) = scanLines maxTokenSize content;
          res = verifyLoop ls 1 genesis 0
      in if vValid res \<and> tooLong then Inl ErrTooLong else Inr res)"

definition verifyChainUnsafe :: "string option \<Rightarrow> FileStore \<Rightarrow> VerifyResult result" where
  "verifyChainUnsafe openErr st =
     (case openErr of
        Some e \<Rightarrow> Inl (ErrOS e)
      | None \<Rightarrow> (case fsFile st of
            None \<Rightarrow> Inl (ErrOS ''no such file or directory'')
          | Some content \<Rightarrow> verifyContent content))"

definition FileStore_Verify :: "string option \<Rightarrow> FileStore \<Rightarrow> VerifyResult result" where
  "FileStore_Verify openErr st = verifyChainUnsafe openErr st"

section \<open>Opening the store\<close>

definition NewFileStore :: "initFaults \<Rightarrow> string option \<Rightarrow> FileStore result" where
  "NewFileStore io file =
     (case ifMkdirAll io of
        Some e \<Rightarrow> Inl (ErrOS e)
      | None \<Rightarrow>
     (case (case ifStat io of
              Some e \<Rightarrow> Inl (ErrOS e)
            | None \<Rightarrow> (case file of
                  Some c \<Rightarrow> Inr c
                | None \<Rightarrow> (case ifWriteFile io of Some e \<Rightarrow> Inl (ErrOS e) | None \<Rightarrow> Inr []))) of
        Inl e \<Rightarrow> Inl e
      | Inr content \<Rightarrow>
          (let store = \<lparr>fsFile = Some content, fsLastHash = genesis, fsLastIndex = 0\<rparr> in
           case verifyChainUnsafe (ifOpen io) store of
             Inl e \<Rightarrow> Inl e
           | Inr verify \<Rightarrow>
               if \<not> vValid verify
               then Inl (ErrMsg (''invalid chain at index '' @ FormatUint (unat (derefUint64 (vInvalidAt verify)))))
               else Inr (store\<lparr>fsLastHash := vLastHash verify, fsLastIndex := vTotalEntries verify\<rparr>))))"

section \<open>Append\<close>

definition FileStore_Append :: "string \<Rightarrow> writeOutcome \<Rightarrow> LogRecord \<Rightarrow> FileStore \<Rightarrow> Entry result \<times> FileStore" where
  "FileStore_Append timestamp io record st =
     (let index = fsLastIndex st + 1 in
      case marshalRecord record of
        None \<Rightarrow> (Inl ErrJSON, st)
      | Some payloadBytes \<Rightarrow>
          (let entry = newEntry index timestamp (fsLastHash st) record payloadBytes in
           case marshalEntry entry of
             None \<Rightarrow> (Inl ErrJSON, st)
           | Some lineBytes \<Rightarrow>
               (let old = (case fsFile st of None \<Rightarrow> [] | Some c \<Rightarrow> c);
                    line = lineBytes @ [NL]
                in case io of
                     OpenFails e \<Rightarrow> (Inl (ErrOS e), st)
                   | WriteFails k e \<Rightarrow> (Inl (ErrOS e), st\<lparr>fsFile := Some (old @ take k line)\<rparr>)
                   | WriteOk \<Rightarrow>
                       (Inr entry, st\<lparr>fsFile := Some (old @ line), fsLastIndex := index,
                                      fsLastHash := eEntryHash entry\<rparr>))))"

section \<open>QueryLogs\<close>

definition metadataText :: "gomap option \<Rightarrow> string" where
  "metadataText md = (case md of
      None \<Rightarrow> ''null''
    | Some m \<Rightarrow> (case Marshal (JObj m) of None \<Rightarrow> [] | Some s \<Rightarrow> s))"

definition matchesQuery :: "unicode \<Rightarrow> Entry \<Rightarrow> LogQuery \<Rightarrow> bool" where
  "matchesQuery uc entry query =
     (if qClientID query \<noteq> [] \<and> recClientID (eRecord entry) \<noteq> qClientID query then False
      else if qApp query \<noteq> [] \<and> \<not> EqualFold uc (recApp (eRecord entry)) (qApp query) then False
      else if qLevel query \<noteq> [] \<and> \<not> EqualFold uc (recLevel (eRecord entry)) (qLevel query) then False
      else if qText query = [] then True
      else Contains
        (ToLower uc (Join [recApp (eRecord entry), recLevel (eRecord entry), recMessage (eRecord entry),
                           metadataText (recMetadata (eRecord entry)), eEntryHash entry] '' ''))
        (ToLower uc (qText query)))"

record queryState =
  qsItems :: "Entry list"
  qsTotal :: int
  qsSkipped :: int
  qsHasMore :: bool

text \<open>The scan: an error, or the counters and whether the loop was left by \<open>break\<close>.\<close>

fun queryLoop :: "unicode \<Rightarrow> LogQuery \<Rightarrow> string list \<Rightarrow> queryState \<Rightarrow> (queryState \<times> bool) result" where
  "queryLoop uc query [] s = Inr (s, False)"
| "queryLoop uc query (l # ls) s =
     (let line = TrimSpace l in
      if line = [] then queryLoop uc query ls s
      else (case unmarshalEntry line of
          None \<Rightarrow> Inl ErrJSON
        | Some entry \<Rightarrow>
            if \<not> matchesQuery uc entry query then queryLoop uc query ls s
            else (let s1 = s\<lparr>qsTotal := qsTotal s + 1\<rparr> in
              if eIndex entry \<le> qAfterIndex query then queryLoop uc query ls s1
              else if qsSkipped s1 < qOffset query
              then queryLoop uc query ls (s1\<lparr>qsSkipped := qsSkipped s1 + 1\<rparr>)
              else if int (length (qsItems s1)) < qLimit query
              then queryLoop uc query ls (s1\<lparr>qsItems := qsItems s1 @ [entry]\<rparr>)
              else if \<not> qWantTotal query then Inr (s1\<lparr>qsHasMore := True\<rparr>, True)
              else queryLoop uc query ls (s1\<lparr>qsHasMore := True\<rparr>))))"

definition queryResult :: "LogQuery \<Rightarrow> queryState \<Rightarrow> LogQueryResult" where
  "queryResult query s =
     \<lparr>qrItems = qsItems s, qrLimit = qLimit query,
      qrNextCursor = (if qsHasMore s \<and> qsItems s \<noteq> []
                      then Some (encodeCursor (eIndex (last (qsItems s)))) else None),
      qrTotal = (if qWantTotal query then Some (qsTotal s) else None),
      qrOffset = (if 0 < qOffset query then Some (qOffset query) else None)\<rparr>"

text \<open>\<open>make\<close> panics for a negative capacity, and for one beyond the address space or the memory of the process, which
  is not part of the model; a parsed query is within the configured maximum.\<close>

definition queryContent :: "unicode \<Rightarrow> LogQuery \<Rightarrow> string \<Rightarrow> LogQueryResult result" where
  "queryContent uc query content =
     (let (ls, tooLong) = scanLines maxTokenSize content in
      if qLimit query < 0 then Inl (ErrPanic ''makeslice: cap out of range'')
      else (case queryLoop uc query ls \<lparr>qsItems = [], qsTotal = 0, qsSkipped = 0, qsHasMore = False\<rparr> of
          Inl e \<Rightarrow> Inl e
        | Inr (s, broke) \<Rightarrow>
            if \<not> broke \<and> tooLong then Inl ErrTooLong else Inr (queryResult query s)))"

definition FileStore_QueryLogs :: "unicode \<Rightarrow> string option \<Rightarrow> LogQuery \<Rightarrow> FileStore \<Rightarrow> LogQueryResult result" where
  "FileStore_QueryLogs uc openErr query st =
     (case openErr of
        Some e \<Rightarrow> Inl (ErrOS e)
      | None \<Rightarrow> (case fsFile st of
            None \<Rightarrow> Inl (ErrOS ''no such file or directory'')
          | Some content \<Rightarrow> queryContent uc query content))"

section \<open>The file as a list of entries\<close>

definition logLine :: "Entry \<Rightarrow> string" where
  "logLine e = encodeJson (entryJson e)"

definition logText :: "Entry list \<Rightarrow> string" where
  "logText es = concat (map (\<lambda>e. logLine e @ [NL]) es)"

text \<open>What an entry must satisfy to be read back from its line.\<close>

definition readable :: "Entry \<Rightarrow> bool" where
  "readable e \<longleftrightarrow> okEntry e \<and> normEntry e = e \<and> recordDepth (eRecord e) < maxNestingDepth \<and>
     length (logLine e) < maxTokenSize"

definition fsRep :: "FileStore \<Rightarrow> Entry list \<Rightarrow> bool" where
  "fsRep st es \<longleftrightarrow> fsFile st = Some (logText es) \<and> fsLastHash st = lastHashOf es \<and>
     fsLastIndex st = word_of_nat (length es) \<and> chainLog es \<and> length es < 2 ^ 63 \<and> list_all readable es"

lemma edgeByte_brace: "edgeByte CHR ''{''" "edgeByte CHR ''}''"
  by (simp_all add: edgeByte_def goSpaces_def)

lemma logLine_shape: "\<exists>t. logLine e = CHR ''{'' # t @ ''}''"
  by (simp add: logLine_def entryJson_def)

lemma logLine_props:
  assumes "okEntry e"
  shows "TrimSpace (logLine e) = logLine e" "logLine e \<noteq> []" "NL \<notin> set (logLine e)"
    "dropCR (logLine e) = logLine e"
proof -
  obtain t where t: "logLine e = CHR ''{'' # t @ ''}''" using logLine_shape by blast
  show "TrimSpace (logLine e) = logLine e"
    by (rule TrimSpace_id) (simp_all add: t edgeByte_brace)
  show "logLine e \<noteq> []" by (simp add: t)
  have "printable (logLine e)"
    using okDoc_entryJson [OF assms] by (simp add: logLine_def encode_printable okDoc_numsOk)
  then show "NL \<notin> set (logLine e)" "dropCR (logLine e) = logLine e"
    using printable_no_newline by (blast, simp add: printable_no_newline)
qed

lemma splitLines_logText: "\<forall>e\<in>set es. okEntry e \<Longrightarrow> splitLines (logText es @ t) = map logLine es @ splitLines t"
  by (induction es) (simp_all add: logText_def splitLines_line logLine_props)

lemma logText_end: "logText es = [] \<or> last (logText es) = NL"
  by (cases es rule: rev_cases) (simp_all add: logText_def)

lemma logText_snoc [simp]: "logText (es @ [e]) = logText es @ logLine e @ [NL]" "logText [] = []"
  by (simp_all add: logText_def)

lemma scan_lines:
  assumes "\<forall>e\<in>set es. okEntry e \<and> length (logLine e) < maxTokenSize"
  shows "scanLines maxTokenSize (logText es @ t) =
    (map logLine es @ fst (scanLines maxTokenSize t), snd (scanLines maxTokenSize t))"
proof -
  have "splitLines (logText es @ t) = map logLine es @ splitLines t"
    using splitLines_logText assms by blast
  moreover have "takeWhile (\<lambda>l. length l < maxTokenSize) (map logLine es @ splitLines t) =
      map logLine es @ takeWhile (\<lambda>l. length l < maxTokenSize) (splitLines t)"
    using assms by (subst takeWhile_append2) auto
  moreover have "map dropCR (map logLine es) = map logLine es" using assms logLine_props(4) by simp
  ultimately have "scanLines maxTokenSize (logText es @ t) =
      (map logLine es @ map dropCR (takeWhile (\<lambda>l. length l < maxTokenSize) (splitLines t)),
       \<not> list_all (\<lambda>l. length l < maxTokenSize) (map logLine es @ splitLines t))"
    by (simp only: scanLines_def Let_def map_append)
  moreover have "list_all (\<lambda>l. length l < maxTokenSize) (map logLine es)"
    using assms by (simp add: list_all_iff)
  ultimately show ?thesis by (simp add: scanLines_def Let_def)
qed

lemma scan_logText:
  "list_all readable es \<Longrightarrow> scanLines maxTokenSize (logText es) = (map logLine es, False)"
  using scan_lines [of es "[]"] by (simp add: list_all_iff readable_def scanLines_def)

lemma unmarshal_logLine:
  "okEntry e \<Longrightarrow> unmarshalEntry (logLine e) =
     (if recordDepth (eRecord e) < maxNestingDepth then Some (normEntry e) else None)"
  using unmarshal_marshalEntry [of e] marshalEntry_ok [of e] by (simp add: logLine_def)

lemma readable_line:
  "readable e \<Longrightarrow> TrimSpace (logLine e) = logLine e \<and> logLine e \<noteq> [] \<and> unmarshalEntry (logLine e) = Some e"
  by (simp add: readable_def logLine_props unmarshal_logLine)

section \<open>Verify accepts what Append builds\<close>

lemma chainLog_snocD:
  assumes "chainLog (es @ [e])"
  shows "chainLog es" "okRecord (eRecord e)"
    "e = newEntry (word_of_nat (Suc (length es))) (eTimestamp e) (lastHashOf es) (eRecord e) (payloadOf e)"
  using assms by (auto elim: chainLog_snocE)

lemma verifyLoop_logText:
  "chainLog es \<Longrightarrow> list_all readable es \<Longrightarrow>
   verifyLoop (map logLine es @ ls) 1 genesis 0 =
   verifyLoop ls (word_of_nat (Suc (length es))) (lastHashOf es) (word_of_nat (length es))"
proof (induction arbitrary: ls rule: chainLog.induct)
  case (chain_snoc es e)
  have "readable e" using chain_snoc.prems by simp
  then have line: "TrimSpace (logLine e) = logLine e" "logLine e \<noteq> []" "unmarshalEntry (logLine e) = Some e"
    using readable_line by blast+
  have "checkEntry (word_of_nat (Suc (length es))) (lastHashOf es) e (payloadOf e) = None"
    using chain_snoc(4) checkEntry_None_iff by blast
  then have "verifyLoop (logLine e # ls) (word_of_nat (Suc (length es))) (lastHashOf es) (word_of_nat (length es)) =
      verifyLoop ls (word_of_nat (Suc (length es)) + 1) (eEntryHash e) (word_of_nat (length es) + 1)"
    using line chain_snoc(2) by (simp add: marshalRecord_ok payloadOf_def)
  with chain_snoc.IH [of "logLine e # ls"] chain_snoc.prems show ?case by (simp add: add.commute)
qed simp

lemma verifyContent_logText:
  "chainLog es \<Longrightarrow> list_all readable es \<Longrightarrow>
   verifyContent (logText es) = Inr (validResult (word_of_nat (length es)) (lastHashOf es))"
  using verifyLoop_logText [of es "[]"] by (simp add: verifyContent_def scan_logText)

lemma Verify_rep:
  "fsRep st es \<Longrightarrow> FileStore_Verify None st = Inr (validResult (word_of_nat (length es)) (lastHashOf es))"
  by (simp add: FileStore_Verify_def verifyChainUnsafe_def fsRep_def verifyContent_logText)

text \<open>Reopening the file restores the state that wrote it.\<close>

definition noFaults :: initFaults where
  "noFaults = \<lparr>ifMkdirAll = None, ifStat = None, ifWriteFile = None, ifOpen = None\<rparr>"

lemma NewFileStore_rep: "fsRep st es \<Longrightarrow> NewFileStore noFaults (fsFile st) = Inr st"
  by (cases st)
    (auto simp: NewFileStore_def noFaults_def verifyChainUnsafe_def fsRep_def verifyContent_logText validResult_def)

lemma fsRep_empty: "fsRep \<lparr>fsFile = Some [], fsLastHash = genesis, fsLastIndex = 0\<rparr> []"
  by (simp add: fsRep_def chain_nil)

lemma NewFileStore_fresh:
  "NewFileStore noFaults None = Inr \<lparr>fsFile = Some [], fsLastHash = genesis, fsLastIndex = 0\<rparr>"
  by (simp add: NewFileStore_def noFaults_def verifyChainUnsafe_def verifyContent_def scanLines_def validResult_def)

section \<open>Append\<close>

lemma validUtf8_hex: "list_all isHexChar s \<Longrightarrow> validUtf8 s"
proof (rule validUtf8_all_ASCII)
  have "list_all (\<lambda>c. byteVal c < 128) ''0123456789abcdef''" by (simp add: byteVal_def)
  then show "list_all isHexChar s \<Longrightarrow> list_all (\<lambda>c. byteVal c < 128) s"
    unfolding list_all_iff isHexChar_def by blast
qed

lemma validUtf8_sha256Hex [simp]: "validUtf8 (sha256Hex s)"
  using sha256Hex_chars [of _ s] by (intro validUtf8_hex) (simp add: list_all_iff)

lemma validUtf8_lastHashOf: "chainLog es \<Longrightarrow> validUtf8 (lastHashOf es)"
proof (induction rule: chainLog.induct)
  case (chain_snoc es e)
  then have "eEntryHash e = sha256Hex (hashInput (word_of_nat (Suc (length es))) (eTimestamp e)
      (sha256Hex (payloadOf e)) (lastHashOf es))" by (metis newEntry_simps(6))
  then show ?case by simp
qed (simp add: genesis_def byteVal_def)

text \<open>The entry the next \<open>Append\<close> builds.\<close>

definition nextEntry :: "Entry list \<Rightarrow> string \<Rightarrow> LogRecord \<Rightarrow> Entry" where
  "nextEntry es ts r =
     newEntry (word_of_nat (Suc (length es))) ts (lastHashOf es) r (encodeJson (recordJson r))"

definition fsFits :: "Entry list \<Rightarrow> string \<Rightarrow> LogRecord \<Rightarrow> bool" where
  "fsFits es ts r \<longleftrightarrow> Suc (length es) < 2 ^ 63 \<and> recordDepth r < maxNestingDepth \<and>
     length (logLine (nextEntry es ts r)) < maxTokenSize"

lemma okEntry_nextEntry:
  "chainLog es \<Longrightarrow> okRecord r \<Longrightarrow> validUtf8 ts \<Longrightarrow> okEntry (nextEntry es ts r)"
  by (simp add: nextEntry_def okEntry_def validUtf8_lastHashOf)

lemma normEntry_next:
  "logLine (normEntry e) = logLine e" "eEntryHash (normEntry e) = eEntryHash e" "payloadOf (normEntry e) = payloadOf e"
  "normEntry (normEntry e) = normEntry e" "eTimestamp (normEntry e) = eTimestamp e"
  "eRecord (normEntry e) = normRecord (eRecord e)" "recordDepth (eRecord (normEntry e)) = recordDepth (eRecord e)"
  by (simp_all add: logLine_def entryJson_def normEntry_def payloadOf_def recordDepth_def)

lemma okRecord_norm [simp]: "okRecord (normRecord r) \<longleftrightarrow> okRecord r"
  by (auto simp: okRecord_def normRecord_def okGoMap_def sortedMap_def split: option.splits)

lemma chainLog_next:
  assumes "chainLog es" "okRecord r" "validUtf8 ts"
  shows "chainLog (es @ [normEntry (nextEntry es ts r)])"
proof (rule chain_snoc)
  show "normEntry (nextEntry es ts r) = newEntry (word_of_nat (Suc (length es)))
      (eTimestamp (normEntry (nextEntry es ts r))) (lastHashOf es) (eRecord (normEntry (nextEntry es ts r)))
      (payloadOf (normEntry (nextEntry es ts r)))"
    by (simp add: nextEntry_def normEntry_newEntry payloadOf_def)
qed (use assms in \<open>simp_all add: normEntry_next nextEntry_def\<close>)

text \<open>Every outcome of \<open>Append\<close> on a store that holds a log.\<close>

lemma Append_cases:
  assumes "fsRep st es" "okRecord r" "validUtf8 ts"
  shows "FileStore_Append ts io r st = (case io of
      OpenFails e \<Rightarrow> (Inl (ErrOS e), st)
    | WriteFails k e \<Rightarrow>
        (Inl (ErrOS e), st\<lparr>fsFile := Some (logText es @ take k (logLine (nextEntry es ts r) @ [NL]))\<rparr>)
    | WriteOk \<Rightarrow>
        (Inr (nextEntry es ts r),
         \<lparr>fsFile = Some (logText es @ logLine (nextEntry es ts r) @ [NL]),
          fsLastHash = eEntryHash (nextEntry es ts r), fsLastIndex = word_of_nat (Suc (length es))\<rparr>))"
proof -
  have e: "newEntry (fsLastIndex st + 1) ts (fsLastHash st) r (encodeJson (recordJson r)) = nextEntry es ts r"
    using assms(1) by (simp add: fsRep_def nextEntry_def add.commute)
  have "okEntry (nextEntry es ts r)" using assms by (intro okEntry_nextEntry) (auto simp: fsRep_def)
  then have "marshalEntry (nextEntry es ts r) = Some (logLine (nextEntry es ts r))"
    by (simp add: marshalEntry_ok logLine_def)
  with e assms show ?thesis
    by (cases st; cases io) (simp_all add: FileStore_Append_def marshalRecord_ok fsRep_def Let_def add.commute)
qed

lemma Append_rep:
  assumes "fsRep st es" "okRecord r" "validUtf8 ts" "fsFits es ts r"
  shows "\<exists>st'. FileStore_Append ts WriteOk r st = (Inr (nextEntry es ts r), st') \<and>
    fsRep st' (es @ [normEntry (nextEntry es ts r)])"
proof -
  let ?e = "nextEntry es ts r"
  have "chainLog es" using assms(1) by (simp add: fsRep_def)
  then have "okEntry ?e" "chainLog (es @ [normEntry ?e])"
    using assms by (auto intro: okEntry_nextEntry chainLog_next)
  moreover have "readable (normEntry ?e)"
    using calculation(1) assms(4)
    by (simp add: readable_def normEntry_next fsFits_def okEntry_def nextEntry_def normEntry_newEntry
        recordDepth_def) (simp add: normEntry_newEntry [symmetric] normEntry_next)
  ultimately show ?thesis
    using assms Append_cases [OF assms(1-3), of WriteOk]
    by (simp add: fsRep_def normEntry_next fsFits_def)
qed

section \<open>QueryLogs returns the page of the contract\<close>

text \<open>What the scan leaves behind when it starts in the state \<open>s\<close> on the entries \<open>es\<close>.\<close>

definition queryPost :: "unicode \<Rightarrow> LogQuery \<Rightarrow> queryState \<Rightarrow> Entry list \<Rightarrow> queryState \<Rightarrow> bool" where
  "queryPost uc q s es s' \<longleftrightarrow>
     (let rest = queryRest (\<lambda>q e. matchesQuery uc e q) q es;
          off = nat (qOffset q - qsSkipped s);
          lim = nat (qLimit q) - length (qsItems s)
      in qsItems s' = qsItems s @ take lim (drop off rest) \<and>
         qsHasMore s' = (qsHasMore s \<or> off + lim < length rest) \<and>
         (qWantTotal q \<longrightarrow> qsTotal s' = qsTotal s + int (length (filter (\<lambda>e. matchesQuery uc e q) es))))"

lemma queryLoop_spec:
  assumes "list_all readable es"
  shows "\<exists>s' b. queryLoop uc q (map logLine es) s = Inr (s', b) \<and> queryPost uc q s es s'"
  using assms
proof (induction es arbitrary: s)
  case Nil
  then show ?case by (auto simp: queryPost_def queryRest_def)
next
  case (Cons e es)
  have line: "TrimSpace (logLine e) = logLine e" "logLine e \<noteq> []" "unmarshalEntry (logLine e) = Some e"
    using Cons.prems readable_line by auto
  have continue: ?case
    if "queryLoop uc q (map logLine (e # es)) s = queryLoop uc q (map logLine es) s2"
      "\<And>s'. queryPost uc q s2 es s' \<Longrightarrow> queryPost uc q s (e # es) s'" for s2
    using Cons.IH [of s2] Cons.prems that by auto
  note post = queryPost_def queryRest_def Let_def
  have after: "qAfterIndex q < eIndex e \<longleftrightarrow> \<not> eIndex e \<le> qAfterIndex q" by (simp add: not_le)
  let ?s1 = "s\<lparr>qsTotal := qsTotal s + 1\<rparr>"
  consider (nomatch) "\<not> matchesQuery uc e q"
    | (before) "matchesQuery uc e q" "eIndex e \<le> qAfterIndex q"
    | (skip) "matchesQuery uc e q" "\<not> eIndex e \<le> qAfterIndex q" "qsSkipped s < qOffset q"
    | (page) "matchesQuery uc e q" "\<not> eIndex e \<le> qAfterIndex q" "\<not> qsSkipped s < qOffset q"
        "int (length (qsItems s)) < qLimit q"
    | (full) "matchesQuery uc e q" "\<not> eIndex e \<le> qAfterIndex q" "\<not> qsSkipped s < qOffset q"
        "\<not> int (length (qsItems s)) < qLimit q" by linarith
  then show ?case
  proof cases
    case nomatch
    then show ?thesis by (intro continue [of s]) (simp_all add: line post)
  next
    case before
    then show ?thesis by (intro continue [of ?s1]) (simp_all add: line post after del: not_le)
  next
    case skip
    then have "nat (qOffset q - qsSkipped s) = Suc (nat (qOffset q - (qsSkipped s + 1)))" by linarith
    with skip show ?thesis
      by (intro continue [of "?s1\<lparr>qsSkipped := qsSkipped s + 1\<rparr>"]) (simp_all add: line post after del: not_le)
  next
    case page
    then have "nat (qLimit q) - length (qsItems s) = Suc (nat (qLimit q) - Suc (length (qsItems s)))"
      "nat (qOffset q - qsSkipped s) = 0" by linarith+
    with page show ?thesis
      by (intro continue [of "?s1\<lparr>qsItems := qsItems s @ [e]\<rparr>"]) (simp_all add: line post after del: not_le)
  next
    case full
    then have n: "nat (qLimit q) - length (qsItems s) = 0" "nat (qOffset q - qsSkipped s) = 0" by linarith+
    show ?thesis
    proof (cases "qWantTotal q")
      case True
      with full n show ?thesis
        by (intro continue [of "?s1\<lparr>qsHasMore := True\<rparr>"]) (simp_all add: line post after del: not_le)
    next
      case False
      with full n show ?thesis by (auto simp: line post after simp del: not_le)
    qed
  qed
qed

lemma QueryLogs_rep:
  assumes "fsRep st es" "0 \<le> qLimit q"
  shows "FileStore_QueryLogs uc None q st = Inr (querySpec (\<lambda>q e. matchesQuery uc e q) q es)"
proof -
  let ?s0 = "\<lparr>qsItems = [], qsTotal = 0, qsSkipped = 0, qsHasMore = False\<rparr>"
  have r: "list_all readable es" using assms(1) by (simp add: fsRep_def)
  obtain s' b where s': "queryLoop uc q (map logLine es) ?s0 = Inr (s', b)"
    "qsItems s' = take (nat (qLimit q)) (drop (nat (qOffset q)) (queryRest (\<lambda>q e. matchesQuery uc e q) q es))"
    "qsHasMore s' = (nat (qOffset q) + nat (qLimit q) < length (queryRest (\<lambda>q e. matchesQuery uc e q) q es))"
    "qWantTotal q \<Longrightarrow> qsTotal s' = int (length (filter (\<lambda>e. matchesQuery uc e q) es))"
    using queryLoop_spec [OF r, of uc q ?s0] by (auto simp: queryPost_def Let_def)
  have "queryContent uc q (logText es) = Inr (queryResult q s')"
    using s'(1) assms(2) by (simp add: queryContent_def scan_logText [OF r])
  moreover have "queryResult q s' = querySpec (\<lambda>q e. matchesQuery uc e q) q es"
    using s'(2-4) by (simp add: queryResult_def querySpec_def Let_def)
  ultimately show ?thesis using assms(1) by (simp add: FileStore_QueryLogs_def fsRep_def)
qed

lemma matchesQuery_after: "matchesQuery uc e (q\<lparr>qAfterIndex := i, qOffset := n\<rparr>) = matchesQuery uc e q"
  by (simp add: matchesQuery_def)

section \<open>The file store keeps the contract\<close>

interpretation fstore: log_store "\<lambda>ts. FileStore_Append ts WriteOk" "FileStore_Verify None"
    "FileStore_QueryLogs uc None" "\<lambda>q e. matchesQuery uc e q" fsRep fsFits
  for uc
proof unfold_locales
  show "chainLog es \<and> length es < 2 ^ 63" if "fsRep s es" for s es using that by (simp add: fsRep_def)
  show "\<exists>s'. FileStore_Append ts WriteOk r s = (Inr e, s') \<and> fsRep s' (es @ [normEntry e])"
    if "fsRep s es" "okRecord r" "validUtf8 ts" "fsFits es ts r"
      "e = newEntry (word_of_nat (Suc (length es))) ts (lastHashOf es) r (encodeJson (recordJson r))"
    for s es r ts e
    using Append_rep [OF that(1-4)] that(5) by (simp add: nextEntry_def)
qed (simp_all add: matchesQuery_after Verify_rep QueryLogs_rep)

section \<open>What an accepted file contains\<close>

fun decodeLines :: "string list \<Rightarrow> Entry list" where
  "decodeLines [] = []"
| "decodeLines (l # ls) =
     (let line = TrimSpace l in
      if line = [] then decodeLines ls
      else (case unmarshalEntry line of None \<Rightarrow> [] | Some e \<Rightarrow> e # decodeLines ls))"

definition entriesIn :: "string \<Rightarrow> Entry list" where
  "entriesIn content = decodeLines (fst (scanLines maxTokenSize content))"

lemma invalidResult_valid [simp]: "vValid (invalidResult n h i r) = False" "vValid (validResult n h)"
  by (simp_all add: invalidResult_def validResult_def)

lemma verifyLoop_sound:
  assumes "vValid (verifyLoop ls (word_of_nat (Suc (length es))) (lastHashOf es) (word_of_nat (length es)))"
    and "chainLog es"
  shows "chainLog (es @ decodeLines ls) \<and>
    verifyLoop ls (word_of_nat (Suc (length es))) (lastHashOf es) (word_of_nat (length es)) =
    validResult (word_of_nat (length (es @ decodeLines ls))) (lastHashOf (es @ decodeLines ls))"
  using assms
proof (induction ls arbitrary: es)
  case (Cons l ls)
  show ?case
  proof (cases "TrimSpace l = []")
    case True
    then show ?thesis using Cons by simp
  next
    case False
    let ?i = "word_of_nat (Suc (length es)) :: uint64"
    obtain e p where e: "unmarshalEntry (TrimSpace l) = Some e" "marshalRecord (eRecord e) = Some p"
      "checkEntry ?i (lastHashOf es) e p = None"
      using Cons.prems(1) False by (auto simp: Let_def simp del: of_nat_Suc split: option.splits)
    have ok: "okEntry e" using unmarshalEntry_ok e(1) by blast
    have p: "p = payloadOf e" using e(2) ok by (simp add: okEntry_def marshalRecord_ok payloadOf_def)
    have chain: "chainLog (es @ [e])"
      using Cons.prems(2) ok e(3) p checkEntry_None_iff by (intro chain_snoc) (auto simp: okEntry_def)
    have step: "verifyLoop (l # ls) ?i (lastHashOf es) (word_of_nat (length es)) =
        verifyLoop ls (word_of_nat (Suc (length (es @ [e])))) (lastHashOf (es @ [e])) (word_of_nat (length (es @ [e])))"
      using False e by (simp add: Let_def add.commute)
    with Cons.IH [of "es @ [e]"] Cons.prems(1) chain show ?thesis
      using False e(1) by (simp add: Let_def)
  qed
qed simp

lemma verifyContent_sound:
  assumes "verifyContent content = Inr v" "vValid v"
  shows "chainLog (entriesIn content) \<and>
    v = validResult (word_of_nat (length (entriesIn content))) (lastHashOf (entriesIn content))"
  using assms verifyLoop_sound [of "fst (scanLines maxTokenSize content)" "[]"]
  by (auto simp: verifyContent_def entriesIn_def chain_nil Let_def split: prod.splits if_splits)

lemma verifyContent_tamper_evident:
  assumes "verifyContent c = Inr v" "vValid v" "verifyContent d = Inr w" "vValid w"
    and "vLastHash v = vLastHash w"
  shows "map normEntry (entriesIn c) = map normEntry (entriesIn d) \<or>
    (\<exists>x\<in>set (sha.hashed (linksOf (entriesIn c))). \<exists>y\<in>set (sha.hashed (linksOf (entriesIn d))).
       x \<noteq> y \<and> sha256Hex x = sha256Hex y)"
proof (rule chain_tamper_evident)
  show "lastHashOf (entriesIn c) = lastHashOf (entriesIn d)"
    using assms verifyContent_sound by (metis VerifyResult.select_convs(3) validResult_def)
qed (use assms verifyContent_sound in blast)+

lemma entriesIn_logText: "list_all readable es \<Longrightarrow> entriesIn (logText es) = es"
proof -
  assume r: "list_all readable es"
  have "decodeLines (map logLine es) = es" using r by (induction es) (auto simp: Let_def dest: readable_line)
  then show ?thesis by (simp add: entriesIn_def scan_logText [OF r])
qed

section \<open>Entries the store accepts and cannot read back\<close>

lemma fsRep_lines: "fsRep st es \<Longrightarrow> \<forall>e\<in>set es. okEntry e \<and> length (logLine e) < maxTokenSize"
  by (simp add: fsRep_def list_all_iff readable_def)

lemma scan_single:
  assumes "okEntry e"
  shows "scanLines maxTokenSize (logLine e @ [NL]) =
    (if length (logLine e) < maxTokenSize then ([logLine e], False) else ([], True))"
  using logLine_props [OF assms] splitLines_line [of "logLine e" "[]"] by (simp add: scanLines_def)

text \<open>A record that fills the decoder's nesting limit is appended, and its line, one level deeper,
  makes every later \<open>Verify\<close> report the log as broken at that entry.\<close>

lemma Append_deep:
  assumes "fsRep st es" "okRecord r" "validUtf8 ts" "maxNestingDepth \<le> recordDepth r"
    and "length (logLine (nextEntry es ts r)) < maxTokenSize"
    and "FileStore_Append ts WriteOk r st = (res, st')"
  shows "res = Inr (nextEntry es ts r) \<and> FileStore_Verify None st' =
    Inr (invalidResult (word_of_nat (length es)) (lastHashOf es) (word_of_nat (Suc (length es)))
      ''invalid JSON line'')"
proof -
  let ?e = "nextEntry es ts r"
  have ok: "okEntry ?e" using assms by (intro okEntry_nextEntry) (auto simp: fsRep_def)
  have "unmarshalEntry (logLine ?e) = None"
    using assms(4) unmarshal_logLine [OF ok] by (simp add: nextEntry_def)
  then have "verifyLoop (map logLine es @ [logLine ?e]) 1 genesis 0 =
      invalidResult (word_of_nat (length es)) (lastHashOf es) (word_of_nat (Suc (length es))) ''invalid JSON line''"
    using verifyLoop_logText [of es "[logLine ?e]"] assms(1) logLine_props [OF ok] by (simp add: fsRep_def)
  then have "verifyContent (logText es @ logLine ?e @ [NL]) =
      Inr (invalidResult (word_of_nat (length es)) (lastHashOf es) (word_of_nat (Suc (length es))) ''invalid JSON line'')"
    using scan_lines [OF fsRep_lines [OF assms(1)]] scan_single [OF ok] assms(5) by (simp add: verifyContent_def)
  then show ?thesis
    using assms(6) Append_cases [OF assms(1-3), of WriteOk]
    by (auto simp: FileStore_Verify_def verifyChainUnsafe_def)
qed

text \<open>A line of a mebibyte or more is appended, and no later scan gets past it.  A query is answered only if its
  page is full, and no total is asked for, before the scan comes to that line.\<close>

lemma queryLoop_broke:
  "queryLoop uc q ls s = Inr (s', b) \<Longrightarrow> (b \<longrightarrow> \<not> qWantTotal q) \<and> (\<not> qsHasMore s \<longrightarrow> \<not> qWantTotal q \<longrightarrow> b = qsHasMore s')"
  by (induction ls arbitrary: s) (auto simp: Let_def split: if_splits option.splits)

lemma query_long:
  assumes "fsRep st es" "okEntry e" "maxTokenSize \<le> length (logLine e)" "0 \<le> qLimit q"
  shows "queryContent uc q (logText es @ logLine e @ [NL]) =
    (if \<not> qWantTotal q \<and> nat (qOffset q) + nat (qLimit q) < length (queryRest (\<lambda>q e. matchesQuery uc e q) q es)
     then Inr (querySpec (\<lambda>q e. matchesQuery uc e q) q es) else Inl ErrTooLong)"
proof -
  let ?s0 = "\<lparr>qsItems = [], qsTotal = 0, qsSkipped = 0, qsHasMore = False\<rparr>"
  have r: "list_all readable es" using assms(1) by (simp add: fsRep_def)
  obtain s' b where s': "queryLoop uc q (map logLine es) ?s0 = Inr (s', b)"
    "qsItems s' = take (nat (qLimit q)) (drop (nat (qOffset q)) (queryRest (\<lambda>q e. matchesQuery uc e q) q es))"
    "qsHasMore s' = (nat (qOffset q) + nat (qLimit q) < length (queryRest (\<lambda>q e. matchesQuery uc e q) q es))"
    using queryLoop_spec [OF r, of uc q ?s0] by (auto simp: queryPost_def Let_def)
  have "scanLines maxTokenSize (logText es @ logLine e @ [NL]) = (map logLine es, True)"
    using scan_lines [OF fsRep_lines [OF assms(1)]] scan_single [OF assms(2)] assms(3) by simp
  moreover have "\<not> qWantTotal q \<Longrightarrow> queryResult q s' = querySpec (\<lambda>q e. matchesQuery uc e q) q es"
    using s'(2,3) by (simp add: queryResult_def querySpec_def Let_def)
  ultimately show ?thesis
    using s'(1,3) queryLoop_broke [OF s'(1)] assms(4) by (auto simp: queryContent_def)
qed

lemma Append_long:
  assumes "fsRep st es" "okRecord r" "validUtf8 ts"
    and "maxTokenSize \<le> length (logLine (nextEntry es ts r))"
    and "FileStore_Append ts WriteOk r st = (res, st')"
  shows "res = Inr (nextEntry es ts r)" "FileStore_Verify None st' = Inl ErrTooLong"
    "NewFileStore noFaults (fsFile st') = Inl ErrTooLong"
    "0 \<le> qLimit q \<Longrightarrow> FileStore_QueryLogs uc None q st' =
      (if \<not> qWantTotal q \<and> nat (qOffset q) + nat (qLimit q) < length (queryRest (\<lambda>q e. matchesQuery uc e q) q es)
       then Inr (querySpec (\<lambda>q e. matchesQuery uc e q) q es) else Inl ErrTooLong)"
proof -
  let ?e = "nextEntry es ts r"
  have ok: "okEntry ?e" using assms by (intro okEntry_nextEntry) (auto simp: fsRep_def)
  have "verifyContent (logText es @ logLine ?e @ [NL]) = Inl ErrTooLong"
    using scan_lines [OF fsRep_lines [OF assms(1)]] scan_single [OF ok] assms(1,4)
      verifyLoop_logText [of es "[]"] by (simp add: verifyContent_def fsRep_def)
  moreover have "res = Inr ?e" "fsFile st' = Some (logText es @ logLine ?e @ [NL])"
    using assms(5) Append_cases [OF assms(1-3), of WriteOk] by auto
  ultimately show "res = Inr ?e" "FileStore_Verify None st' = Inl ErrTooLong" "NewFileStore noFaults (fsFile st') = Inl ErrTooLong"
    "0 \<le> qLimit q \<Longrightarrow> FileStore_QueryLogs uc None q st' =
      (if \<not> qWantTotal q \<and> nat (qOffset q) + nat (qLimit q) < length (queryRest (\<lambda>q e. matchesQuery uc e q) q es)
       then Inr (querySpec (\<lambda>q e. matchesQuery uc e q) q es) else Inl ErrTooLong)"
    using query_long [OF assms(1) ok assms(4)]
    by (simp_all add: FileStore_Verify_def verifyChainUnsafe_def NewFileStore_def noFaults_def FileStore_QueryLogs_def)
qed

text \<open>A write that fails after its first byte leaves the beginning of a line.  The next append succeeds and lands
  on the same line, and the log no longer verifies.  If the failed write did get all its bytes out, the two
  lines carry the same index, and the log does not verify either.\<close>

lemma logLine_follower: "okEntry e \<Longrightarrow> follower (logLine e)"
proof -
  assume ok: "okEntry e"
  have "encodeStr ''index'' = ''index''"
    by (simp add: encodeStr.simps escapeByte_def jsonSafe_def byteVal_def)
  then have "\<exists>u. logLine e = CHR ''{'' # CHR 0x22 # CHR ''i'' # u"
    by (simp add: logLine_def entryJson_def quoteStr_def)
  then show ?thesis using okDoc_entryJson [OF ok] by (auto simp: follower_def logLine_def)
qed

lemma unmarshal_glued:
  assumes "okEntry e" "okEntry e'" "0 < k"
  shows "unmarshalEntry (take k (logLine e) @ logLine e') = None"
proof -
  have "take k (logLine e) @ drop k (logLine e) = encodeJson (entryJson e)" by (simp add: logLine_def)
  moreover have "take k (logLine e) \<noteq> []" using assms(3) logLine_props(2) [OF assms(1)] by simp
  moreover obtain kvs where "entryJson e = JObj kvs" by (simp add: entryJson_def)
  ultimately have "parseJson (take k (logLine e) @ logLine e') = None"
    using parseJson_cut [of kvs "take k (logLine e)" "drop k (logLine e)"] okDoc_entryJson [OF assms(1)]
      logLine_follower [OF assms(2)] by simp
  then show ?thesis by (simp add: unmarshalEntry_def)
qed

lemma verify_glued:
  assumes "fsRep st es" "okEntry e" "okEntry e'" "0 < k" "length (logLine e) + length (logLine e') < maxTokenSize"
  shows "verifyContent (logText es @ take k (logLine e) @ logLine e' @ [NL]) = Inr (invalidResult (word_of_nat (length es))
    (lastHashOf es) (word_of_nat (Suc (length es))) ''invalid JSON line'')"
proof -
  let ?l = "take k (logLine e) @ logLine e'"
  have "printable (logLine e)" "printable (logLine e')"
    using okDoc_entryJson [OF assms(2)] okDoc_entryJson [OF assms(3)] by (simp_all add: logLine_def encode_printable okDoc_numsOk)
  then have nl: "NL \<notin> set ?l" "CR \<notin> set ?l" using printable_no_newline by (auto dest: in_set_takeD)
  have "length ?l < maxTokenSize" using assms(5) by (simp add: min_def)
  then have scan: "scanLines maxTokenSize (?l @ [NL]) = ([?l], False)"
    using splitLines_line [OF nl(1), of "[]"] nl(2) by (simp add: scanLines_def)
  obtain t t' where t: "logLine e = CHR ''{'' # t" "logLine e' = CHR ''{'' # t' @ ''}''" using logLine_shape by meson
  have "TrimSpace ?l = ?l"
    by (rule TrimSpace_id) (use assms(4) in \<open>cases k; simp_all add: t edgeByte_brace\<close>)+
  with unmarshal_glued [OF assms(2-4)] t have "verifyLoop (map logLine es @ [?l]) 1 genesis 0 =
      invalidResult (word_of_nat (length es)) (lastHashOf es) (word_of_nat (Suc (length es))) ''invalid JSON line''"
    using verifyLoop_logText [of es "[?l]"] assms(1) by (simp add: fsRep_def)
  with scan show ?thesis
    using scan_lines [OF fsRep_lines [OF assms(1)], of "?l @ [NL]"] by (simp add: verifyContent_def)
qed

lemma verify_repeated:
  assumes "fsRep st es" "okRecord r" "validUtf8 ts" "okRecord r'" "validUtf8 ts'" "fsFits es ts r" "fsFits es ts' r'"
  shows "verifyContent (logText es @ (logLine (nextEntry es ts r) @ [NL]) @ logLine (nextEntry es ts' r') @ [NL]) =
    Inr (invalidResult (word_of_nat (Suc (length es))) (eEntryHash (nextEntry es ts r)) (word_of_nat (Suc (Suc (length es))))
      ''index sequence broken'')"
proof -
  let ?e = "nextEntry es ts r" and ?e' = "nextEntry es ts' r'"
  obtain st' where st': "fsRep st' (es @ [normEntry ?e])" using Append_rep [OF assms(1-3,6)] by blast
  have ok: "okEntry ?e'" using assms by (intro okEntry_nextEntry) (auto simp: fsRep_def)
  have un: "unmarshalEntry (logLine ?e') = Some (normEntry ?e')"
    using unmarshal_logLine [OF ok] assms(7) by (simp add: fsFits_def nextEntry_def)
  have "eIndex (normEntry ?e') \<noteq> word_of_nat (Suc (Suc (length es)))" by (simp add: nextEntry_def normEntry_newEntry)
  then have "checkEntry (word_of_nat (Suc (Suc (length es)))) h (normEntry ?e') b = Some ''index sequence broken''" for h b
    by (simp add: checkEntry_def checkLink_def del: of_nat_Suc)
  moreover have "marshalRecord (eRecord (normEntry ?e')) \<noteq> None"
    using assms(4) by (simp add: marshalRecord_ok nextEntry_def normEntry_newEntry)
  ultimately have "verifyLoop (map logLine (es @ [normEntry ?e]) @ [logLine ?e']) 1 genesis 0 =
      invalidResult (word_of_nat (Suc (length es))) (eEntryHash ?e) (word_of_nat (Suc (Suc (length es)))) ''index sequence broken''"
    using verifyLoop_logText [of "es @ [normEntry ?e]" "[logLine ?e']"] st' un logLine_props [OF ok]
    by (auto simp: fsRep_def normEntry_next simp del: of_nat_Suc)
  then show ?thesis
    using scan_lines [OF fsRep_lines [OF st'], of "logLine ?e' @ [NL]"] scan_single [OF ok] assms(7)
    by (simp add: verifyContent_def normEntry_next fsFits_def)
qed

lemma Append_after_partial_write:
  assumes "fsRep st es" "okRecord r" "validUtf8 ts" "okRecord r'" "validUtf8 ts'" "fsFits es ts r" "fsFits es ts' r'"
    and "length (logLine (nextEntry es ts r)) + length (logLine (nextEntry es ts' r')) < maxTokenSize" "0 < k"
    and "FileStore_Append ts (WriteFails k err) r st = (res, st')"
    and "FileStore_Append ts' WriteOk r' st' = (res', st'')"
  shows "res = Inl (ErrOS err) \<and> res' = Inr (nextEntry es ts' r') \<and> FileStore_Verify None st'' =
    Inr (if k \<le> length (logLine (nextEntry es ts r))
         then invalidResult (word_of_nat (length es)) (lastHashOf es) (word_of_nat (Suc (length es))) ''invalid JSON line''
         else invalidResult (word_of_nat (Suc (length es))) (eEntryHash (nextEntry es ts r)) (word_of_nat (Suc (Suc (length es))))
           ''index sequence broken'')"
proof -
  let ?e = "nextEntry es ts r" and ?e' = "nextEntry es ts' r'"
  have ok: "okEntry ?e" "okEntry ?e'" using assms by (auto intro!: okEntry_nextEntry simp: fsRep_def)
  have st': "res = Inl (ErrOS err)" "st' = st\<lparr>fsFile := Some (logText es @ take k (logLine ?e @ [NL]))\<rparr>"
    using assms(10) Append_cases [OF assms(1-3), of "WriteFails k err"] by simp_all
  have "newEntry (fsLastIndex st + 1) ts' (fsLastHash st) r' (encodeJson (recordJson r')) = ?e'"
    using assms(1) by (simp add: fsRep_def nextEntry_def add.commute)
  then have st'': "res' = Inr ?e'" "fsFile st'' = Some (logText es @ take k (logLine ?e @ [NL]) @ logLine ?e' @ [NL])"
    using assms(11) assms(4) marshalEntry_ok [OF ok(2)]
    by (auto simp: FileStore_Append_def marshalRecord_ok st' Let_def logLine_def)
  have "FileStore_Verify None st'' = verifyContent (logText es @ take k (logLine ?e @ [NL]) @ logLine ?e' @ [NL])"
    using st'' by (simp add: FileStore_Verify_def verifyChainUnsafe_def)
  with st' st'' show ?thesis
    using verify_glued [OF assms(1) ok assms(9,8)] verify_repeated [OF assms(1-7)] by simp
qed

end
