(* ===== verification/Server_ClientStore.thy ===== *)
theory Server_ClientStore
  imports Server_Auth "HOL-Library.AList"
begin

text \<open>
  \<open>cmd/server/clientstore_postgres.go\<close>: the client registry.  The database is a parameter: a
  record with one function per SQL statement of the file, on a state of any type.  What the
  registry relies on is the locale \<open>clients_db\<close>, the documented meaning of those statements on
  the table \<open>audit_clients\<close> (a statement that fails changes nothing); every call may fail.  The
  table semantics at the end is an instance.
\<close>

section \<open>The database as a parameter\<close>

record ClientRow =
  crId :: string
  crName :: string
  crTokenHash :: string
  crRole :: string
  crCreatedAt :: int
  crRevokedAt :: "int option"

text \<open>The statements: \<open>SELECT\<close> by id (\<open>Inr None\<close> is \<open>sql.ErrNoRows\<close>), \<open>INSERT\<close>, the two \<open>UPDATE\<close>s,
  each giving the result of \<open>Exec\<close> and then of \<open>RowsAffected\<close>, and the listing.\<close>

record 's ClientsDB =
  cdbSelect :: "string \<Rightarrow> 's \<Rightarrow> ClientRow option result"
  cdbInsert :: "string \<Rightarrow> string \<Rightarrow> string \<Rightarrow> string \<Rightarrow> 's \<Rightarrow> unit result \<times> 's"
  cdbSetHash :: "string \<Rightarrow> string \<Rightarrow> 's \<Rightarrow> nat result result \<times> 's"
  cdbRevoke :: "string \<Rightarrow> 's \<Rightarrow> nat result result \<times> 's"
  cdbList :: "'s \<Rightarrow> ClientRow list result"

record ClientSummary =
  csClientID :: string
  csName :: string
  csRole :: string
  csCreatedAt :: int
  csRevoked :: bool

section \<open>Operations\<close>

definition dummyTokenHash :: string where
  "dummyTokenHash = replicate 64 CHR ''0''"

text \<open>\<open>subtle.ConstantTimeCompare(x, y) == 1\<close>\<close>

definition ConstantTimeCompare :: "string \<Rightarrow> string \<Rightarrow> bool" where
  "ConstantTimeCompare x y = (if length x \<noteq> length y then False else x = y)"

definition Authenticate :: "'s ClientsDB \<Rightarrow> string \<Rightarrow> 's \<Rightarrow> Principal result" where
  "Authenticate db token s =
     (case parseToken token of
        Inl _ \<Rightarrow> Inl ErrUnauthorized
      | Inr (clientID, secret) \<Rightarrow>
          (case cdbSelect db clientID s of
             Inl e \<Rightarrow> Inl e
           | Inr row \<Rightarrow>
               (let found = (row \<noteq> None);
                    revoked = (case row of None \<Rightarrow> False | Some r \<Rightarrow> crRevokedAt r \<noteq> None);
                    compareHash = (case row of None \<Rightarrow> dummyTokenHash | Some r \<Rightarrow> crTokenHash r);
                    match = ConstantTimeCompare (hashSecret secret) compareHash
                in if \<not> found \<or> revoked \<or> \<not> match then Inl ErrUnauthorized
                   else (case row of
                       None \<Rightarrow> Inl ErrUnauthorized
                     | Some r \<Rightarrow> Inr \<lparr>pClientID = clientID, pName = crName r, pRole = crRole r\<rparr>))))"

definition Register :: "'s ClientsDB \<Rightarrow> string result \<Rightarrow> string result \<Rightarrow> string \<Rightarrow> string \<Rightarrow> 's
    \<Rightarrow> (string \<times> string) result \<times> 's" where
  "Register db rndId rndSecret name0 role0 s =
     (let name = TrimSpace name0 in
      if name = [] then (Inl (ErrMsg ''client name is required''), s)
      else (let role1 = TrimSpace role0;
                role = (if role1 = [] then RoleClient else role1)
            in if \<not> validRole role
               then (Inl (ErrFmt ''invalid role %q: must be %q or %q'' [role, RoleClient, RoleAdmin]), s)
               else (case newClientID rndId of
                   Inl e \<Rightarrow> (Inl e, s)
                 | Inr clientID \<Rightarrow>
                     (case newSecret rndSecret of
                        Inl e \<Rightarrow> (Inl e, s)
                      | Inr secret \<Rightarrow>
                          (case cdbInsert db clientID name (hashSecret secret) role s of
                             (Inl e, s') \<Rightarrow> (Inl e, s')
                           | (Inr _, s') \<Rightarrow> (Inr (clientID, formatToken clientID secret), s'))))))"

definition Rotate :: "'s ClientsDB \<Rightarrow> string result \<Rightarrow> string \<Rightarrow> 's \<Rightarrow> string result \<times> 's" where
  "Rotate db rndSecret clientID0 s =
     (let clientID = TrimSpace clientID0 in
      if clientID = [] then (Inl (ErrMsg ''client id is required''), s)
      else (case newSecret rndSecret of
          Inl e \<Rightarrow> (Inl e, s)
        | Inr secret \<Rightarrow>
            (case cdbSetHash db (hashSecret secret) clientID s of
               (Inl e, s') \<Rightarrow> (Inl e, s')
             | (Inr (Inl e), s') \<Rightarrow> (Inl e, s')
             | (Inr (Inr affected), s') \<Rightarrow>
                 if affected = 0 then (Inl (ErrFmt ''no active client with id %q'' [clientID]), s')
                 else (Inr (formatToken clientID secret), s'))))"

definition Revoke :: "'s ClientsDB \<Rightarrow> string \<Rightarrow> 's \<Rightarrow> unit result \<times> 's" where
  "Revoke db clientID0 s =
     (let clientID = TrimSpace clientID0 in
      if clientID = [] then (Inl (ErrMsg ''client id is required''), s)
      else (case cdbRevoke db clientID s of
          (Inl e, s') \<Rightarrow> (Inl e, s')
        | (Inr (Inl e), s') \<Rightarrow> (Inl e, s')
        | (Inr (Inr affected), s') \<Rightarrow>
            if affected = 0 then (Inl (ErrFmt ''no active client with id %q'' [clientID]), s')
            else (Inr (), s')))"

definition summaryOf :: "ClientRow \<Rightarrow> ClientSummary" where
  "summaryOf r = \<lparr>csClientID = crId r, csName = crName r, csRole = crRole r,
     csCreatedAt = crCreatedAt r, csRevoked = (crRevokedAt r \<noteq> None)\<rparr>"

definition ListClients :: "'s ClientsDB \<Rightarrow> 's \<Rightarrow> ClientSummary list result" where
  "ListClients db s = (case cdbList db s of Inl e \<Rightarrow> Inl e | Inr rs \<Rightarrow> Inr (map summaryOf rs))"

section \<open>What the statements mean\<close>

definition activeRow :: "ClientRow option \<Rightarrow> bool" where
  "activeRow r \<longleftrightarrow> (case r of None \<Rightarrow> False | Some c \<Rightarrow> crRevokedAt c = None)"

text \<open>The registry as the statements see it.  A statement that returned an error is taken to have changed nothing: a
  connection that is lost after the server committed, and before the answer arrived, is not covered.\<close>

locale clients_db =
  fixes db :: "'s ClientsDB"
    and rows :: "'s \<Rightarrow> string \<Rightarrow> ClientRow option"
  assumes select_row: "cdbSelect db cid s = Inr r \<Longrightarrow> r = rows s cid"
    and select_err: "cdbSelect db cid s = Inl e \<Longrightarrow> e \<noteq> ErrUnauthorized"
    and insert_ok: "cdbInsert db cid n h ro s = (Inr u, s') \<Longrightarrow> rows s cid = None \<and>
      (\<exists>t. rows s' = (rows s)(cid \<mapsto> \<lparr>crId = cid, crName = n, crTokenHash = h, crRole = ro,
        crCreatedAt = t, crRevokedAt = None\<rparr>))"
    and insert_err: "cdbInsert db cid n h ro s = (Inl e, s') \<Longrightarrow> rows s' = rows s"
    and setHash_ok: "cdbSetHash db h cid s = (Inr k, s') \<Longrightarrow>
      rows s' = (if activeRow (rows s cid)
                 then (rows s)(cid := map_option (\<lambda>r. r\<lparr>crTokenHash := h\<rparr>) (rows s cid)) else rows s) \<and>
      (\<forall>n. k = Inr n \<longrightarrow> (n = 0) = (\<not> activeRow (rows s cid)))"
    and setHash_err: "cdbSetHash db h cid s = (Inl e, s') \<Longrightarrow> rows s' = rows s"
    and revoke_ok: "cdbRevoke db cid s = (Inr k, s') \<Longrightarrow>
      (\<exists>t. rows s' = (if activeRow (rows s cid)
                 then (rows s)(cid := map_option (\<lambda>r. r\<lparr>crRevokedAt := Some t\<rparr>) (rows s cid)) else rows s)) \<and>
      (\<forall>n. k = Inr n \<longrightarrow> (n = 0) = (\<not> activeRow (rows s cid)))"
    and revoke_err: "cdbRevoke db cid s = (Inl e, s') \<Longrightarrow> rows s' = rows s"
begin

text \<open>Who is let in: exactly the holders of the current secret of a client that is not revoked.\<close>

lemma Authenticate_iff:
  assumes "parseToken token = Inr (cid, sec)" "cdbSelect db cid s = Inr row"
  shows "Authenticate db token s = Inr p \<longleftrightarrow>
    (\<exists>r. rows s cid = Some r \<and> crRevokedAt r = None \<and> crTokenHash r = sha256Hex sec \<and>
       p = \<lparr>pClientID = cid, pName = crName r, pRole = crRole r\<rparr>)"
  using assms select_row [OF assms(2)]
  by (cases row)
    (auto simp: Authenticate_def ConstantTimeCompare_def hashSecret_def Let_def
      dest!: sym [of "Some _" "rows s cid"] sym [of None "rows s cid"] split: if_splits)

lemma Authenticate_sound:
  assumes "Authenticate db token s = Inr p"
  shows "\<exists>r sec. rows s (pClientID p) = Some r \<and> crRevokedAt r = None \<and> crTokenHash r = sha256Hex sec \<and>
    parseToken token = Inr (pClientID p, sec) \<and> pName p = crName r \<and> pRole p = crRole r"
proof -
  obtain cid sec row where t: "parseToken token = Inr (cid, sec)" "cdbSelect db cid s = Inr row"
    using assms by (auto simp: Authenticate_def split: sum.splits prod.splits)
  then show ?thesis using assms Authenticate_iff [OF t, of p] by auto
qed

lemma Authenticate_errors:
  assumes "Authenticate db token s = Inl e"
  shows "e = ErrUnauthorized \<or>
    (\<exists>cid sec. parseToken token = Inr (cid, sec) \<and> cdbSelect db cid s = Inl e \<and> e \<noteq> ErrUnauthorized)"
  using assms select_err
  by (fastforce simp: Authenticate_def Let_def split: sum.splits option.splits if_splits prod.splits)

text \<open>Failed calls change no row.\<close>

lemma Register_err: "Register db a b n r s = (Inl e, s') \<Longrightarrow> rows s' = rows s"
  by (auto simp: Register_def Let_def insert_err split: if_splits sum.splits prod.splits)

lemma Register_cases:
  assumes "Register db a b n0 r0 s = (Inr (cid, token), s')"
  obtains ab bb sec ro t where "a = Inr ab" "b = Inr bb" "cid = hexEncode ab" "sec = base64Encode bb"
    "token = formatToken cid sec" "TrimSpace n0 \<noteq> []" "validRole ro"
    "ro = (if TrimSpace r0 = [] then RoleClient else TrimSpace r0)" "rows s cid = None"
    "rows s' = (rows s)(cid \<mapsto> \<lparr>crId = cid, crName = TrimSpace n0, crTokenHash = sha256Hex sec, crRole = ro,
        crCreatedAt = t, crRevokedAt = None\<rparr>)"
  using assms
  by (auto simp: Register_def Let_def newClientID_def newSecret_def hashSecret_def
      split: if_splits sum.splits prod.splits dest!: insert_ok)

lemma Register_authenticates:
  assumes "Register db (Inr idb) (Inr secb) n0 r0 s = (Inr (cid, token), s')"
    "idb \<noteq> []" "secb \<noteq> []" "cdbSelect db cid s' = Inr row"
  shows "Authenticate db token s' = Inr \<lparr>pClientID = cid, pName = TrimSpace n0,
    pRole = (if TrimSpace r0 = [] then RoleClient else TrimSpace r0)\<rparr>"
proof -
  obtain ab bb sec ro t where R: "Inr idb = Inr ab" "Inr secb = Inr bb" "cid = hexEncode ab"
    "sec = base64Encode bb" "token = formatToken cid sec"
    "ro = (if TrimSpace r0 = [] then RoleClient else TrimSpace r0)"
    "rows s' = (rows s)(cid \<mapsto> \<lparr>crId = cid, crName = TrimSpace n0, crTokenHash = sha256Hex sec, crRole = ro,
        crCreatedAt = t, crRevokedAt = None\<rparr>)"
    using assms(1) by (rule Register_cases) blast
  have "parseToken token = Inr (cid, sec)"
    using R assms(2,3) parse_formatToken [of idb cid secb sec] by (simp add: newClientID_def newSecret_def)
  then show ?thesis using Authenticate_iff [OF _ assms(4)] R by simp
qed

lemma Rotate_cases:
  assumes "Rotate db b cid0 s = (Inr token, s')"
  obtains bb r where "b = Inr bb" "token = formatToken (TrimSpace cid0) (base64Encode bb)"
    "TrimSpace cid0 \<noteq> []" "rows s (TrimSpace cid0) = Some r" "crRevokedAt r = None"
    "rows s' = (rows s)(TrimSpace cid0 \<mapsto> r\<lparr>crTokenHash := sha256Hex (base64Encode bb)\<rparr>)"
  using assms
  by (auto simp: Rotate_def Let_def newSecret_def hashSecret_def activeRow_def
      split: if_splits sum.splits prod.splits option.splits dest!: setHash_ok)

lemma Revoke_cases:
  assumes "Revoke db cid0 s = (Inr u, s')"
  obtains r t where "TrimSpace cid0 \<noteq> []" "rows s (TrimSpace cid0) = Some r" "crRevokedAt r = None"
    "rows s' = (rows s)(TrimSpace cid0 \<mapsto> r\<lparr>crRevokedAt := Some t\<rparr>)"
  using assms
  by (auto simp: Revoke_def Let_def activeRow_def
      split: if_splits sum.splits prod.splits option.splits dest!: revoke_ok)

text \<open>After a rotation exactly the secrets with the new hash are accepted.\<close>

lemma Rotate_tokens:
  assumes "Rotate db (Inr secb) cid0 s = (Inr token, s')" "parseToken tok = Inr (TrimSpace cid0, sec)"
    "cdbSelect db (TrimSpace cid0) s' = Inr row"
  shows "(\<exists>p. Authenticate db tok s' = Inr p) \<longleftrightarrow> sha256Hex sec = sha256Hex (base64Encode secb)"
  using assms(1)
proof (rule Rotate_cases)
  fix bb r assume "Inr secb = Inr bb" "crRevokedAt r = None"
    "rows s' = (rows s)(TrimSpace cid0 \<mapsto> r\<lparr>crTokenHash := sha256Hex (base64Encode bb)\<rparr>)"
  then show ?thesis
    by (simp add: Authenticate_iff [OF assms(2,3)] eq_commute [of "sha256Hex sec"])
qed

end

section \<open>Operation sequences\<close>

text \<open>One call of the registry, with its random bytes as part of the call.\<close>

datatype registryOp = OpRegister "string result" "string result" string string
  | OpRotate "string result" string | OpRevoke string | OpAuthenticate string | OpList

fun registryStep :: "'s ClientsDB \<Rightarrow> registryOp \<Rightarrow> 's \<Rightarrow> 's" where
  "registryStep db (OpRegister a b n r) s = snd (Register db a b n r s)"
| "registryStep db (OpRotate b c) s = snd (Rotate db b c s)"
| "registryStep db (OpRevoke c) s = snd (Revoke db c s)"
| "registryStep db (OpAuthenticate t) s = s"
| "registryStep db OpList s = s"

definition revokedRow :: "ClientRow option \<Rightarrow> bool" where
  "revokedRow r \<longleftrightarrow> (case r of None \<Rightarrow> False | Some c \<Rightarrow> crRevokedAt c \<noteq> None)"

context clients_db begin

text \<open>A revoked client stays revoked, and a client keeps its name and role for ever.\<close>

lemma Register_rows:
  "rows (snd (Register db a b n r s)) = rows s \<or>
   (\<exists>cid row. rows s cid = None \<and> rows (snd (Register db a b n r s)) = (rows s)(cid \<mapsto> row))"
proof (cases "Register db a b n r s")
  case (Pair res s')
  show ?thesis
  proof (cases res)
    case (Inl e)
    then show ?thesis using Pair Register_err by simp
  next
    case (Inr ct)
    then obtain cid token where "Register db a b n r s = (Inr (cid, token), s')"
      using Pair by (cases ct) auto
    then show ?thesis by (rule Register_cases) (use Pair in auto)
  qed
qed

lemma Rotate_rows:
  "rows (snd (Rotate db b c s)) = rows s \<or>
   (\<exists>cid r h. rows s cid = Some r \<and> rows (snd (Rotate db b c s)) = (rows s)(cid \<mapsto> r\<lparr>crTokenHash := h\<rparr>))"
  by (fastforce simp: Rotate_def Let_def activeRow_def setHash_err
      split: sum.splits prod.splits option.splits if_splits dest!: setHash_ok)

lemma Revoke_rows:
  "rows (snd (Revoke db c s)) = rows s \<or>
   (\<exists>cid r t. rows s cid = Some r \<and> rows (snd (Revoke db c s)) = (rows s)(cid \<mapsto> r\<lparr>crRevokedAt := Some t\<rparr>))"
  by (fastforce simp: Revoke_def Let_def activeRow_def revoke_err
      split: sum.splits prod.splits option.splits if_splits dest!: revoke_ok)

lemma registryStep_keeps:
  assumes "rows s cid = Some r"
  shows "\<exists>r'. rows (registryStep db op s) cid = Some r' \<and> crName r' = crName r \<and> crRole r' = crRole r \<and>
    (crRevokedAt r \<noteq> None \<longrightarrow> crRevokedAt r' \<noteq> None)"
proof (cases op)
  case (OpRegister a b n ro)
  then show ?thesis using Register_rows [of a b n ro s] assms by auto
next
  case (OpRotate b c)
  then show ?thesis using Rotate_rows [of b c s] assms by auto
next
  case (OpRevoke c)
  then show ?thesis using Revoke_rows [of c s] assms by auto
qed (use assms in auto)

lemma registrySteps_keep:
  assumes "rows s cid = Some r"
  shows "\<exists>r'. rows (fold (registryStep db) ops s) cid = Some r' \<and> crName r' = crName r \<and> crRole r' = crRole r \<and>
    (crRevokedAt r \<noteq> None \<longrightarrow> crRevokedAt r' \<noteq> None)"
  using assms
proof (induction ops arbitrary: s r)
  case (Cons op ops)
  obtain r1 where r1: "rows (registryStep db op s) cid = Some r1" "crName r1 = crName r" "crRole r1 = crRole r"
    "crRevokedAt r \<noteq> None \<longrightarrow> crRevokedAt r1 \<noteq> None"
    using registryStep_keeps [OF Cons.prems, of op] by blast
  then show ?case using Cons.IH [OF r1(1)] by auto
qed simp

lemma revoked_for_ever:
  assumes "Revoke db cid0 s = (Inr u, s')" "Authenticate db token (fold (registryStep db) ops s') = Inr p"
  shows "pClientID p \<noteq> TrimSpace cid0"
proof
  assume eq: "pClientID p = TrimSpace cid0"
  obtain r t where "rows s' (TrimSpace cid0) = Some (r\<lparr>crRevokedAt := Some t\<rparr>)"
    using assms(1) by (rule Revoke_cases) auto
  from registrySteps_keep [OF this, of ops] Authenticate_sound [OF assms(2)] eq show False by auto
qed

end

section \<open>The table\<close>

text \<open>The table as its rows by primary key in order of insertion, the clock of \<open>now()\<close>, and whether
  the server answers.  A \<open>TEXT\<close> value has to be valid UTF-8 without a zero byte; the server refuses
  any other parameter.\<close>

record ClientsTable =
  tbRows :: "(string \<times> ClientRow) list"
  tbNow :: int
  tbDown :: bool

definition dbText :: "string \<Rightarrow> bool" where
  "dbText s \<longleftrightarrow> validUtf8 s \<and> CHR 0x00 \<notin> set s"

definition dbGuard :: "ClientsTable \<Rightarrow> string list \<Rightarrow> string option" where
  "dbGuard t params =
     (if tbDown t then Some ''connection refused''
      else if \<not> list_all dbText params then Some ''invalid byte sequence for encoding UTF8''
      else None)"

definition tableUpdate :: "(ClientRow \<Rightarrow> ClientRow) \<Rightarrow> string list \<Rightarrow> string \<Rightarrow> ClientsTable
    \<Rightarrow> nat result result \<times> ClientsTable" where
  "tableUpdate f params cid t = (case dbGuard t params of
      Some e \<Rightarrow> (Inl (ErrDB e), t)
    | None \<Rightarrow> if activeRow (map_of (tbRows t) cid)
              then (Inr (Inr 1), t\<lparr>tbRows := AList.map_entry cid f (tbRows t)\<rparr>)
              else (Inr (Inr 0), t))"

definition tableDB :: "ClientsTable ClientsDB" where
  "tableDB =
     \<lparr>cdbSelect = (\<lambda>cid t. case dbGuard t [cid] of
          Some e \<Rightarrow> Inl (ErrDB e) | None \<Rightarrow> Inr (map_of (tbRows t) cid)),
      cdbInsert = (\<lambda>cid n h ro t. case dbGuard t [cid, n, h, ro] of
          Some e \<Rightarrow> (Inl (ErrDB e), t)
        | None \<Rightarrow> if map_of (tbRows t) cid \<noteq> None then (Inl (ErrDB ''duplicate key value''), t)
                  else (Inr (), t\<lparr>tbRows := tbRows t @ [(cid, \<lparr>crId = cid, crName = n, crTokenHash = h,
                          crRole = ro, crCreatedAt = tbNow t, crRevokedAt = None\<rparr>)]\<rparr>)),
      cdbSetHash = (\<lambda>h cid t. tableUpdate (\<lambda>r. r\<lparr>crTokenHash := h\<rparr>) [h, cid] cid t),
      cdbRevoke = (\<lambda>cid t. tableUpdate (\<lambda>r. r\<lparr>crRevokedAt := Some (tbNow t)\<rparr>) [cid] cid t),
      cdbList = (\<lambda>t. case dbGuard t [] of
          Some e \<Rightarrow> Inl (ErrDB e) | None \<Rightarrow> Inr (sort_key crCreatedAt (map snd (tbRows t))))\<rparr>"

interpretation table: clients_db tableDB "\<lambda>t. map_of (tbRows t)"
proof unfold_locales
  fix cid n h ro s u s'
  assume "cdbInsert tableDB cid n h ro s = (Inr u, s')"
  then show "map_of (tbRows s) cid = None \<and>
      (\<exists>t. map_of (tbRows s') = (map_of (tbRows s))(cid \<mapsto> \<lparr>crId = cid, crName = n, crTokenHash = h,
        crRole = ro, crCreatedAt = t, crRevokedAt = None\<rparr>))"
    by (auto simp: tableDB_def map_of_append map_add_def fun_eq_iff split: option.splits if_splits)
qed (auto simp: tableDB_def tableUpdate_def AList.map_of_map_entry fun_eq_iff split: option.splits if_splits)

end
