(* ===== verification/Server_System.thy ===== *)
theory Server_System
  imports Server_Router Server_FileStore Server_ClientStore
begin

text \<open>
  The server put together as \<open>main\<close> does for the file backend: the router over the file store and
  the PostgreSQL registry.  The properties that span the parts are stated here: what a request can
  change, who may read what, and the log staying a valid chain through any run of requests.
\<close>

section \<open>The file backend behind the router\<close>

text \<open>The store of one request: the clock reading and the outcome of the write are the request's.\<close>

definition fileOps :: "unicode \<Rightarrow> string \<Rightarrow> writeOutcome \<Rightarrow> string option \<Rightarrow> FileStore StoreOps" where
  "fileOps uc ts io openErr =
     \<lparr>soAppend = FileStore_Append ts io, soVerify = FileStore_Verify openErr,
      soQueryLogs = FileStore_QueryLogs uc openErr\<rparr>"

lemma fileOps_simps [simp]:
  "soAppend (fileOps uc ts io oe) = FileStore_Append ts io" "soVerify (fileOps uc ts io oe) = FileStore_Verify oe"
  "soQueryLogs (fileOps uc ts io oe) = FileStore_QueryLogs uc oe"
  by (simp_all add: fileOps_def)

section \<open>Reads\<close>

lemma matchesQuery_client:
  "matchesQuery uc e q \<Longrightarrow> qClientID q \<noteq> [] \<Longrightarrow> recClientID (eRecord e) = qClientID q"
  by (auto simp: matchesQuery_def split: if_splits)

lemma set_querySpec: "e \<in> set (qrItems (querySpec m q es)) \<Longrightarrow> e \<in> set es \<and> m q e \<and> qAfterIndex q < eIndex e"
  by (auto simp: querySpec_def Let_def queryRest_def dest!: in_set_takeD in_set_dropD)

lemma length_querySpec: "int (length (qrItems (querySpec m q es))) \<le> max 0 (qLimit q)"
  by (auto simp: querySpec_def Let_def)

lemma scopeQuery_fields [simp]:
  "qLimit (scopeQuery q p r) = qLimit q" "qOffset (scopeQuery q p r) = qOffset q"
  "qAfterIndex (scopeQuery q p r) = qAfterIndex q" "qWantTotal (scopeQuery q p r) = qWantTotal q"
  by (simp_all add: scopeQuery_def)

lemma parseLogQuery_limits:
  assumes "parseLogQuery r l = Inr q" "okLimits l"
  shows "0 < qLimit q \<and> qLimit q \<le> limMax l \<and> 0 \<le> qOffset q \<and> qOffset q \<le> limMaxOffset l \<and>
    qAfterIndex q \<le> 9223372036854775807 \<and> (qAfterIndex q = 0 \<or> qOffset q = 0) \<and> qClientID q = []"
  using assms(1)
proof (rule parseLogQuery_cases)
  fix i lim off t
  assume h: "parseCursorParam (TrimSpace (reqQuery r ''cursor'')) = Inr i"
    "parseOffsetParam (TrimSpace (reqQuery r ''offset'')) l = Inr off"
    "TrimSpace (reqQuery r ''cursor'') = [] \<or> TrimSpace (reqQuery r ''offset'') = []"
    "q = normalizeLogQuery \<lparr>qClientID = [], qApp = reqQuery r ''app'', qLevel = reqQuery r ''level'',
       qText = t, qLimit = lim, qOffset = off, qAfterIndex = i,
       qWantTotal = foldASCII (TrimSpace (reqQuery r ''count'')) ''true''\<rparr> l"
  have i: "i \<le> 9223372036854775807"
    using h(1) decodeCursor_bound by (auto simp: parseCursorParam_def split: if_splits)
  have off: "off \<le> limMaxOffset l" using h(2) assms(2) by (rule parseOffsetParam_bound)
  have "i = 0 \<or> off = 0" using h by (auto simp: parseCursorParam_def parseOffsetParam_def split: if_splits)
  moreover have "0 \<le> qOffset q \<and> (qOffset q = off \<or> qOffset q = 0)"
    using h(4) by (auto simp: normalizeLogQuery_def Let_def)
  ultimately show ?thesis
    using i off normalize_limit [OF assms(2)] assms(2) by (auto simp: h(4) okLimits_def)
qed

text \<open>A read through the router on a store that holds \<open>es\<close>.\<close>

lemma read_response:
  assumes "fsRep st es" "parseLogQuery r (cfgQuery cfg) = Inr q" "okLimits (cfgQuery cfg)" "pClientID p \<noteq> []"
  shows "handleReadLogs cfg (fileOps uc ts io None) (Some p) r st =
    (writeJSON [] 200 (queryJson (querySpec (\<lambda>q e. matchesQuery uc e q) (scopeQuery q p r) es)), st)"
proof (rule handleReadLogs_ok [OF assms(2,4)])
  have "0 \<le> qLimit (scopeQuery q p r)" using parseLogQuery_limits [OF assms(2,3)] by simp
  then show "soQueryLogs (fileOps uc ts io None) (scopeQuery q p r) st =
      Inr (querySpec (\<lambda>q e. matchesQuery uc e q) (scopeQuery q p r) es)"
    using QueryLogs_rep [OF assms(1)] by simp
qed

section \<open>Runs of requests\<close>

record Arrival =
  arRequest :: Request
  arTimestamp :: string
  arWrite :: writeOutcome

definition serveFile :: "Config \<Rightarrow> unicode \<Rightarrow> (string \<Rightarrow> Principal result) \<Rightarrow> Arrival \<Rightarrow> FileStore \<Rightarrow> Response \<times> FileStore" where
  "serveFile cfg uc auth a st =
     newRouter cfg (fileOps uc (arTimestamp a) (arWrite a) None) auth (arRequest a) st"

definition serveAll :: "Config \<Rightarrow> unicode \<Rightarrow> (string \<Rightarrow> Principal result) \<Rightarrow> Arrival list \<Rightarrow> FileStore \<Rightarrow> FileStore" where
  "serveAll cfg uc auth as st = fold (\<lambda>a st. snd (serveFile cfg uc auth a st)) as st"

text \<open>What an arrival must satisfy for the log to stay readable: a timestamp in UTF-8, a write that
  is not cut short, and a record that fits after any log of at most the size reached so far.\<close>

definition sane :: "(string \<Rightarrow> Principal result) \<Rightarrow> nat \<Rightarrow> Arrival \<Rightarrow> bool" where
  "sane auth n a \<longleftrightarrow> validUtf8 (arTimestamp a) \<and> (\<forall>k e. arWrite a \<noteq> WriteFails k e) \<and>
     (\<forall>p input es. auth (bearerToken (arRequest a)) = Inr p \<longrightarrow>
        unmarshalRecord (reqBody (arRequest a)) = Some input \<longrightarrow> chainLog es \<longrightarrow> length es \<le> n \<longrightarrow>
        validUtf8 (pClientID p) \<and> fsFits es (arTimestamp a) (stampedRecord p input))"

lemma serveFile_rep:
  assumes "fsRep st es" "sane auth (length es) a"
  shows "\<exists>fs. fsRep (snd (serveFile cfg uc auth a st)) (es @ fs) \<and> length fs \<le> 1"
proof -
  obtain resp st' where step: "serveFile cfg uc auth a st = (resp, st')" by fastforce
  let ?ops = "fileOps uc (arTimestamp a) (arWrite a) None"
  from newRouter_state [OF step [unfolded serveFile_def]]
  consider "st' = st"
    | (append) p input where "auth (bearerToken (arRequest a)) = Inr p"
        "unmarshalRecord (reqBody (arRequest a)) = Some input"
        "st' = snd (soAppend ?ops (stampedRecord p input) st)" by blast
  then show ?thesis
  proof cases
    case 1
    then show ?thesis using assms(1) step by (intro exI [of _ "[]"]) simp
  next
    case append
    have chain: "chainLog es" using assms(1) by (simp add: fsRep_def)
    have s: "validUtf8 (arTimestamp a)" "validUtf8 (pClientID p)"
      "fsFits es (arTimestamp a) (stampedRecord p input)" "\<And>k e. arWrite a \<noteq> WriteFails k e"
      using assms(2) append(1,2) chain by (auto simp: sane_def)
    have ok: "okRecord (stampedRecord p input)"
      using okRecord_stamped unmarshalRecord_ok append(2) s(2) by blast
    show ?thesis
    proof (cases "arWrite a")
      case WriteOk
      then have "fsRep st' (es @ [normEntry (nextEntry es (arTimestamp a) (stampedRecord p input))])"
        using Append_rep [OF assms(1) ok s(1,3)] append(3) by auto
      then show ?thesis using step by (intro exI) auto
    next
      case (OpenFails e)
      then have "st' = st"
        using Append_cases [OF assms(1) ok s(1), of "arWrite a"] append(3) by simp
      then show ?thesis using assms(1) step by (intro exI [of _ "[]"]) simp
    qed (use s(4) in blast)
  qed
qed

lemma serveAll_rep:
  assumes "fsRep st es" "\<And>a. a \<in> set as \<Longrightarrow> sane auth (length es + length as) a"
  shows "\<exists>fs. fsRep (serveAll cfg uc auth as st) (es @ fs) \<and> length fs \<le> length as"
  using assms
proof (induction as arbitrary: st es)
  case Nil
  then show ?case by (intro exI [of _ "[]"]) (simp add: serveAll_def)
next
  case (Cons a as)
  have mono: "sane auth n b \<Longrightarrow> m \<le> n \<Longrightarrow> sane auth m b" for m n b
    unfolding sane_def by (meson le_trans)
  have "sane auth (length es) a" by (rule mono [OF Cons.prems(2)]) simp_all
  then obtain fs where fs: "fsRep (snd (serveFile cfg uc auth a st)) (es @ fs)" "length fs \<le> 1"
    using serveFile_rep [OF Cons.prems(1)] by blast
  have "\<exists>gs. fsRep (serveAll cfg uc auth as (snd (serveFile cfg uc auth a st))) ((es @ fs) @ gs) \<and>
      length gs \<le> length as"
  proof (rule Cons.IH [OF fs(1)])
    fix b assume b: "b \<in> set as"
    show "sane auth (length (es @ fs) + length as) b"
      by (rule mono [OF Cons.prems(2)]) (use b fs(2) in simp_all)
  qed
  then obtain gs where "fsRep (serveAll cfg uc auth (a # as) st) (es @ fs @ gs)" "length gs \<le> length as"
    by (auto simp: serveAll_def)
  then show ?case using fs(2) by (intro exI [of _ "fs @ gs"]) simp
qed

end
