(* ===== verification/Server_Properties.thy ===== *)
theory Server_Properties
  imports Server_System
begin

text \<open>
  The properties of the server, each with a concrete instance where it has hypotheses: the hash
  chain and the file store, cursors and queries, tokens and the registry, the HTTP surface, and
  three ways in which an accepted write leaves a log that no longer verifies.
\<close>

section \<open>Sample data\<close>

definition sampleRecord :: LogRecord where
  "sampleRecord = \<lparr>recClientID = ''c1'', recApp = ''app'', recLevel = ''info'', recMessage = ''hi'',
     recMetadata = Some [(''k'', JStr ''v'')]\<rparr>"

definition sampleTime :: string where
  "sampleTime = ''2024-01-02T03:04:05Z''"

definition emptyStore :: FileStore where
  "emptyStore = \<lparr>fsFile = Some [], fsLastHash = genesis, fsLastIndex = 0\<rparr>"

definition asciiUnicode :: unicode where
  "asciiUnicode = \<lparr>uniLower = map lowerByte, uniUpper = map upperByte, uniFold = foldASCII\<rparr>"

definition sampleQuery :: LogQuery where
  "sampleQuery = \<lparr>qClientID = [], qApp = [], qLevel = [], qText = [], qLimit = 1, qOffset = 0,
     qAfterIndex = 0, qWantTotal = False\<rparr>"

lemma validUtf8_lit [simp]: "list_all (\<lambda>c. byteVal c < 128) s \<Longrightarrow> validUtf8 s"
  by (rule validUtf8_all_ASCII)

lemma sample_ok: "okRecord sampleRecord" "validUtf8 sampleTime" "normRecord sampleRecord = sampleRecord"
  "fsRep emptyStore []"
  using fsRep_empty
  by (simp_all add: okRecord_def sampleRecord_def sampleTime_def byteVal_def okGoMap_def sortedMap_def
      normRecord_def emptyStore_def)

lemma default_payload_limit: "cfgMaxPayloadBytes (loadConfig asciiUnicode (\<lambda>_. [])) = 32768"
  by (simp add: loadConfig_def Let_def getEnv_def ParseInt_def parseNat_def digitVal_def)

lemma sampleRecord_text: "encodeJson (recordJson sampleRecord) =
  ''{'' @ quoteStr ''clientId'' @ '':'' @ quoteStr ''c1'' @ '','' @ quoteStr ''app'' @ '':'' @ quoteStr ''app''
  @ '','' @ quoteStr ''level'' @ '':'' @ quoteStr ''info'' @ '','' @ quoteStr ''message'' @ '':'' @ quoteStr ''hi''
  @ '','' @ quoteStr ''metadata'' @ '':{'' @ quoteStr ''k'' @ '':'' @ quoteStr ''v'' @ ''}}''"
  by (simp add: recordJson_def sampleRecord_def metadataMembers_def)

text \<open>The size of a line, from the sizes of its parts.\<close>

lemma length_encodeStr_safe: "list_all jsonSafe s \<Longrightarrow> encodeStr s = s"
  by (induction s) (auto simp: encodeStr.simps escapeByte_def jsonSafe_def)

lemma hex_jsonSafe: "isHexChar c \<Longrightarrow> jsonSafe c"
proof -
  have "list_all jsonSafe ''0123456789abcdef''" by (simp add: jsonSafe_def byteVal_def)
  then show "isHexChar c \<Longrightarrow> jsonSafe c" unfolding isHexChar_def list_all_iff by blast
qed

lemma length_quote_sha [simp]: "length (quoteStr (sha256Hex s)) = 66"
proof -
  have "list_all jsonSafe (sha256Hex s)" using sha256Hex_chars hex_jsonSafe by (auto simp: list_all_iff)
  then show ?thesis by (simp add: quoteStr_def length_encodeStr_safe)
qed

lemma length_FormatUint: "0 < k \<Longrightarrow> n < 10 ^ k \<Longrightarrow> length (FormatUint n) \<le> k"
proof (induction n arbitrary: k rule: FormatUint.induct)
  case (1 n)
  show ?case
  proof (cases "n < 10")
    case True
    then show ?thesis using "1.prems" by (simp add: FormatUint.simps [of n])
  next
    case False
    then obtain j where j: "k = Suc j" "0 < j"
      using "1.prems" by (cases k; cases "k - 1") (auto simp: not_less)
    have "n div 10 < 10 ^ j" using "1.prems"(2) j by (simp add: less_mult_imp_div_less)
    then show ?thesis using "1.IH" [of j] False j by (simp add: FormatUint.simps [of n])
  qed
qed

lemma length_index: "length (FormatUint (unat (w :: uint64))) \<le> 20"
proof (rule length_FormatUint)
  have "unat w < 2 ^ LENGTH(64)" by (rule unsigned_less)
  then show "unat w < 10 ^ 20" by simp
qed simp

lemma length_quote_lastHash: "chainLog es \<Longrightarrow> length (quoteStr (lastHashOf es)) \<le> 66"
proof (induction rule: chainLog.induct)
  case chain_nil
  then show ?case
    by (simp add: quoteStr_def genesis_def length_encodeStr_safe jsonSafe_def byteVal_def)
next
  case (chain_snoc es e)
  then have "eEntryHash e = sha256Hex (hashInput (word_of_nat (Suc (length es))) (eTimestamp e)
      (sha256Hex (payloadOf e)) (lastHashOf es))" by (metis newEntry_simps(6))
  then show ?case by simp
qed

lemma length_quote_key [simp]: "list_all jsonSafe s \<Longrightarrow> length (quoteStr s) = length s + 2"
  by (simp add: quoteStr_def length_encodeStr_safe)

lemma logLine_length:
  assumes "chainLog es"
  shows "length (logLine (nextEntry es ts r)) \<le> 400 + length (quoteStr ts) + length (encodeJson (recordJson r))"
proof -
  define i where "i = (word_of_nat (Suc (length es)) :: uint64)"
  have "jsonSafe c" if "c \<in> set ''indextimestamprevHashpayloadHashentryHashrecord''" for c
  proof -
    have "list_all jsonSafe ''indextimestamprevHashpayloadHashentryHashrecord''"
      by (simp add: jsonSafe_def byteVal_def)
    then show ?thesis using that unfolding list_all_iff by blast
  qed
  then show ?thesis
    using length_index [of i] length_quote_lastHash [OF assms]
    by (simp add: logLine_def entryJson_def nextEntry_def i_def [symmetric] del: of_nat_Suc)
qed

lemma sample_fits: "chainLog es \<Longrightarrow> Suc (length es) < 2 ^ 63 \<Longrightarrow> fsFits es sampleTime sampleRecord"
proof -
  assume "chainLog es" and n: "Suc (length es) < 2 ^ 63"
  have "length (encodeJson (recordJson sampleRecord)) = 80"
    by (simp add: sampleRecord_text jsonSafe_def byteVal_def)
  moreover have "length (quoteStr sampleTime) = 22"
    by (simp add: sampleTime_def jsonSafe_def byteVal_def)
  moreover have "recordDepth sampleRecord = 2"
    by (simp add: recordDepth_def recordJson_def sampleRecord_def metadataMembers_def)
  ultimately show ?thesis
    using logLine_length [OF \<open>chainLog es\<close>, of sampleTime sampleRecord] n
    by (simp add: fsFits_def maxNestingDepth_def maxTokenSize_def)
qed

text \<open>A store with two entries, built by two appends.\<close>

definition sampleStore :: FileStore where
  "sampleStore = fold (\<lambda>_ s. snd (FileStore_Append sampleTime WriteOk sampleRecord s)) [(), ()] emptyStore"

definition sampleLog :: "Entry list" where
  "sampleLog = (let e = nextEntry [] sampleTime sampleRecord in [e, nextEntry [e] sampleTime sampleRecord])"

lemma normEntry_sample: "normEntry (nextEntry es sampleTime sampleRecord) = nextEntry es sampleTime sampleRecord"
  by (simp add: nextEntry_def normEntry_newEntry sample_ok)

lemma sampleStore_rep: "fsRep sampleStore sampleLog"
proof -
  let ?e = "nextEntry [] sampleTime sampleRecord"
  obtain s1 where s1: "FileStore_Append sampleTime WriteOk sampleRecord emptyStore = (Inr ?e, s1)" "fsRep s1 [?e]"
    using Append_rep [OF sample_ok(4,1,2) sample_fits] chain_nil by (auto simp: normEntry_sample)
  have "chainLog [?e]" using s1(2) by (simp add: fsRep_def)
  then obtain s2 where "FileStore_Append sampleTime WriteOk sampleRecord s1 =
      (Inr (nextEntry [?e] sampleTime sampleRecord), s2)" "fsRep s2 [?e, nextEntry [?e] sampleTime sampleRecord]"
    using Append_rep [OF s1(2) sample_ok(1,2) sample_fits] by (auto simp: normEntry_sample)
  then show ?thesis using s1 by (simp add: sampleStore_def sampleLog_def Let_def)
qed

section \<open>The hash chain and the file store\<close>

text \<open>C1: an append to a store that holds a log extends the log by exactly the entry it returns; the
  grown log verifies with one entry more and that entry's hash as its head, and reopening the file
  gives back the same store.\<close>

theorem append_extends_log:
  assumes "fsRep st es" "okRecord r" "validUtf8 ts" "fsFits es ts r"
  shows "\<exists>st'. FileStore_Append ts WriteOk r st = (Inr (nextEntry es ts r), st') \<and>
    fsRep st' (es @ [normEntry (nextEntry es ts r)]) \<and>
    FileStore_Verify None st' =
      Inr (validResult (word_of_nat (Suc (length es))) (eEntryHash (nextEntry es ts r))) \<and>
    NewFileStore noFaults (fsFile st') = Inr st'"
proof -
  obtain st' where st': "FileStore_Append ts WriteOk r st = (Inr (nextEntry es ts r), st')"
    "fsRep st' (es @ [normEntry (nextEntry es ts r)])" using Append_rep [OF assms] by blast
  then show ?thesis
    using fstore.verify_rep [OF st'(2)] NewFileStore_rep [OF st'(2)] by (simp add: normEntry_next)
qed

theorem append_extends_log_witness:
  "\<exists>st'. FileStore_Append sampleTime WriteOk sampleRecord emptyStore = (Inr (nextEntry [] sampleTime sampleRecord), st') \<and>
    NewFileStore noFaults (fsFile st') = Inr st'"
  using append_extends_log [OF sample_ok(4) sample_ok(1,2) sample_fits] chain_nil by auto

text \<open>C2: the head hash of an accepted file commits to all of it.  Two files that both verify and
  report one head hash hold the same entries, or among the strings hashed for them are two different
  ones with the same SHA-256 hash.\<close>

theorem verify_tamper_evident:
  assumes "verifyContent c = Inr v" "vValid v" "verifyContent d = Inr w" "vValid w" "vLastHash v = vLastHash w"
  shows "map normEntry (entriesIn c) = map normEntry (entriesIn d) \<or>
    (\<exists>x\<in>set (sha.hashed (linksOf (entriesIn c))). \<exists>y\<in>set (sha.hashed (linksOf (entriesIn d))).
       x \<noteq> y \<and> sha256Hex x = sha256Hex y)"
  by (rule verifyContent_tamper_evident [OF assms])

lemma verify_blank: "verifyContent [] = Inr (validResult 0 genesis)" "verifyContent [NL] = Inr (validResult 0 genesis)"
  "entriesIn [] = []" "entriesIn [NL] = []"
  by (simp_all add: verifyContent_def entriesIn_def scanLines_def splitLines.simps [of "[NL]"] maxTokenSize_def
      dropCR_def TrimSuffix_id)

theorem verify_tamper_evident_witness:
  "map normEntry (entriesIn []) = map normEntry (entriesIn [NL]) \<or>
    (\<exists>x\<in>set (sha.hashed (linksOf (entriesIn []))). \<exists>y\<in>set (sha.hashed (linksOf (entriesIn [NL]))).
       x \<noteq> y \<and> sha256Hex x = sha256Hex y)"
  by (rule verify_tamper_evident [OF verify_blank(1) _ verify_blank(2)]) (simp_all add: validResult_def)

text \<open>C3: \<open>Verify\<close> accepts chains only.  Whatever bytes the file holds, if it is reported valid then its
  lines decode to entries that \<open>Append\<close> could have written in that order from the genesis marker, and
  the reported size and head are theirs.\<close>

theorem verify_accepts_chains_only:
  assumes "FileStore_Verify None st = Inr v" "vValid v"
  shows "\<exists>content. fsFile st = Some content \<and> chainLog (entriesIn content) \<and>
    v = validResult (word_of_nat (length (entriesIn content))) (lastHashOf (entriesIn content))"
  using assms verifyContent_sound
  by (auto simp: FileStore_Verify_def verifyChainUnsafe_def split: option.splits)

theorem verify_accepts_chains_only_witness:
  "\<exists>content. fsFile emptyStore = Some content \<and> chainLog (entriesIn content) \<and>
    validResult 0 genesis = validResult (word_of_nat (length (entriesIn content))) (lastHashOf (entriesIn content))"
  by (rule verify_accepts_chains_only)
    (simp_all add: FileStore_Verify_def verifyChainUnsafe_def emptyStore_def verify_blank validResult_def)

text \<open>C4: a failed append leaves the index and the hash in memory as they were, and an append that
  cannot open the file leaves the file as it was.\<close>

theorem failed_append_keeps_memory:
  assumes "FileStore_Append ts io r st = (Inl e, st')"
  shows "fsLastIndex st' = fsLastIndex st \<and> fsLastHash st' = fsLastHash st \<and>
    ((\<forall>k m. io \<noteq> WriteFails k m) \<longrightarrow> st' = st)"
  using assms
  by (auto simp: FileStore_Append_def Let_def split: option.splits writeOutcome.splits)

theorem failed_append_keeps_memory_witness:
  "fsLastIndex (snd (FileStore_Append sampleTime (OpenFails ''denied'') sampleRecord emptyStore)) = 0"
  using failed_append_keeps_memory [of sampleTime "OpenFails ''denied''" sampleRecord emptyStore]
    Append_cases [OF sample_ok(4) sample_ok(1,2), of "OpenFails ''denied''"]
  by (simp add: emptyStore_def)

text \<open>Any run of appends to a store that holds a log leaves a store that verifies, with as many
  entries more as there were appends.\<close>

lemma appends_verify:
  assumes "fsRep st es"
    and "\<And>ts r es'. (ts, r) \<in> set xs \<Longrightarrow> chainLog es' \<Longrightarrow> length es' < length es + length xs \<Longrightarrow>
      okRecord r \<and> validUtf8 ts \<and> fsFits es' ts r"
  shows "\<exists>h. FileStore_Verify None (fold (\<lambda>(ts, r) s. snd (FileStore_Append ts WriteOk r s)) xs st) =
    Inr (validResult (word_of_nat (length es + length xs)) h)"
proof -
  have "fstore.appendAll ys s = fold (\<lambda>(ts, r) s. snd (FileStore_Append ts WriteOk r s)) ys s" for ys s
    by (induction ys arbitrary: s) auto
  then show ?thesis using fstore.verify_appendAll [OF assms] by simp
qed

section \<open>Queries and cursors\<close>

text \<open>C5: a query on a store that holds a log returns the page the log defines: the matching entries
  after the cursor, less the offset, at most the limit; a cursor exactly when entries remain; the
  total and the offset only when asked for.\<close>

theorem query_returns_page:
  assumes "fsRep st es" "0 \<le> qLimit q"
  shows "FileStore_QueryLogs uc None q st = Inr (querySpec (\<lambda>q e. matchesQuery uc e q) q es)"
  by (rule QueryLogs_rep [OF assms])

theorem query_returns_page_witness:
  "\<exists>res. FileStore_QueryLogs asciiUnicode None sampleQuery sampleStore = Inr res \<and>
     qrItems res = [nextEntry [] sampleTime sampleRecord] \<and> qrNextCursor res = Some (encodeCursor 1)"
  using query_returns_page [OF sampleStore_rep, of sampleQuery asciiUnicode]
  by (simp add: querySpec_def queryRest_def sampleLog_def nextEntry_def matchesQuery_def sampleQuery_def Let_def)

text \<open>C6: a client that starts without an offset and follows \<open>nextCursor\<close> to the end receives every
  matching entry after its starting cursor exactly once and in order, and one request more than there
  are such entries always suffices.\<close>

theorem paging_is_complete:
  assumes "fsRep st es" "0 < qLimit q" "qLimit q < maxInt64" "qAfterIndex q \<le> 9223372036854775807" "qOffset q = 0"
  shows "fstore.walk uc (Suc (length es)) q st =
    filter (\<lambda>e. qAfterIndex q < eIndex e) (filter (\<lambda>e. matchesQuery uc e q) es)"
proof -
  have "length (queryRest (\<lambda>q e. matchesQuery uc e q) q es) < Suc (length es)"
    by (simp add: queryRest_def le_imp_less_Suc)
  from fstore.walk_complete [OF assms this] show ?thesis by (simp only: queryRest_def)
qed

theorem paging_is_complete_witness: "fstore.walk asciiUnicode 3 sampleQuery sampleStore = sampleLog"
proof -
  have "fstore.walk asciiUnicode (Suc (length sampleLog)) sampleQuery sampleStore =
      filter (\<lambda>e. qAfterIndex sampleQuery < eIndex e) (filter (\<lambda>e. matchesQuery asciiUnicode e sampleQuery) sampleLog)"
    by (rule paging_is_complete [OF sampleStore_rep]) (simp_all add: sampleQuery_def)
  moreover have "Suc (length sampleLog) = 3" by (simp add: sampleLog_def Let_def)
  moreover have "filter (\<lambda>e. qAfterIndex sampleQuery < eIndex e)
      (filter (\<lambda>e. matchesQuery asciiUnicode e sampleQuery) sampleLog) = sampleLog"
    by (simp add: sampleLog_def nextEntry_def matchesQuery_def sampleQuery_def Let_def)
  ultimately show ?thesis by simp
qed

text \<open>C12: a cursor decodes to the index it was made from when that index is at most \<open>MaxInt64\<close>, and
  is refused otherwise.\<close>

theorem cursor_round_trip:
  "decodeCursor (encodeCursor i) =
     (if i \<le> 9223372036854775807 then Inr i else Inl (ErrMsg ''invalid cursor''))"
  by (rule decode_encodeCursor_iff)

text \<open>The conversion the PostgreSQL store applies to an accepted cursor, \<open>int64(index)\<close>, never
  turns it negative: its signed value is its unsigned value.\<close>

lemma accepted_cursor_fits_bigint:
  assumes "decodeCursor raw = Inr i"
  shows "sint i = uint i \<and> 0 \<le> sint i"
  using cursor_as_int64 [OF decodeCursor_bound [OF assms]] by simp

text \<open>C13: every accepted query is bounded by the configured limits, never combines a cursor with an
  offset, and names no client: the limit is positive and at most the maximum, the offset is between
  zero and the maximum.\<close>

theorem parsed_query_is_bounded:
  assumes "parseLogQuery r (cfgQuery (loadConfig uc env)) = Inr q"
  shows "0 < qLimit q \<and> qLimit q \<le> limMax (cfgQuery (loadConfig uc env)) \<and> 0 \<le> qOffset q \<and>
    qOffset q \<le> limMaxOffset (cfgQuery (loadConfig uc env)) \<and> qAfterIndex q \<le> 9223372036854775807 \<and>
    (qAfterIndex q = 0 \<or> qOffset q = 0) \<and> qClientID q = []"
  by (rule parseLogQuery_limits [OF assms loadConfig_bounds(3)])

definition plainRequest :: Request where
  "plainRequest = \<lparr>reqMethod = ''GET'', reqPath = ''/v1/logs'', reqQuery = (\<lambda>_. []), reqHeader = (\<lambda>_. []),
     reqBody = [], reqBodyErr = False\<rparr>"

theorem parsed_query_is_bounded_witness:
  "\<exists>q. parseLogQuery plainRequest (cfgQuery (loadConfig asciiUnicode (\<lambda>_. []))) = Inr q \<and> 0 < qLimit q"
proof -
  obtain q where q: "parseLogQuery plainRequest (cfgQuery (loadConfig asciiUnicode (\<lambda>_. []))) = Inr q"
    by (simp add: parseLogQuery_def plainRequest_def parseCursorParam_def parseLimitParam_def parseOffsetParam_def Let_def)
  then show ?thesis using parsed_query_is_bounded by blast
qed

section \<open>Tokens and the registry\<close>

text \<open>C14: the token made from a fresh id and a fresh secret parses back to exactly that id and that
  secret, whatever the random bytes are, also where the secret contains the separator.\<close>

theorem token_round_trip:
  assumes "newClientID (Inr idb) = Inr cid" "newSecret (Inr secb) = Inr sec" "idb \<noteq> []" "secb \<noteq> []"
  shows "parseToken (formatToken cid sec) = Inr (cid, sec)"
  by (rule parse_formatToken [OF assms])

theorem token_round_trip_witness:
  "parseToken (formatToken (hexEncode [CHR 0x0A]) (base64Encode [CHR 0xFF, CHR 0xFF, CHR 0xFF])) =
     Inr (hexEncode [CHR 0x0A], base64Encode [CHR 0xFF, CHR 0xFF, CHR 0xFF])"
  by (rule token_round_trip [of "[CHR 0x0A]" _ "[CHR 0xFF, CHR 0xFF, CHR 0xFF]"])
    (simp_all add: newClientID_def newSecret_def)

text \<open>C15: authentication is sound.  For any database that keeps the meaning of the statements, a token
  is accepted only if it names a registered client that is not revoked and its secret hashes to the
  stored hash; the principal carries that client's id, name and role.\<close>

theorem authenticate_sound:
  assumes "clients_db db rows" "Authenticate db token s = Inr p"
  shows "\<exists>r sec. rows s (pClientID p) = Some r \<and> crRevokedAt r = None \<and> crTokenHash r = sha256Hex sec \<and>
    TrimSpace token = formatToken (pClientID p) sec \<and> pClientID p \<noteq> [] \<and> pName p = crName r \<and> pRole p = crRole r"
  using clients_db.Authenticate_sound [OF assms] by (auto simp: parseToken_iff)

definition sampleClient :: ClientRow where
  "sampleClient = \<lparr>crId = ''0a'', crName = ''billing'', crTokenHash = sha256Hex ''s_1'', crRole = ''client'',
     crCreatedAt = 0, crRevokedAt = None\<rparr>"

definition sampleTable :: ClientsTable where
  "sampleTable = \<lparr>tbRows = [(''0a'', sampleClient)], tbNow = 7, tbDown = False\<rparr>"

lemma sample_token: "parseToken ''alog_0a_s_1'' = Inr (''0a'', ''s_1'')"
proof -
  have "TrimSpace ''alog_0a_s_1'' = ''alog_0a_s_1''"
    by (rule TrimSpace_id) (simp_all add: edgeByte_def goSpaces_def)
  then show ?thesis by (simp add: parseToken_iff formatToken_def tokenPrefix_def tokenSeparator_def)
qed

lemma sample_select: "cdbSelect tableDB ''0a'' sampleTable = Inr (Some sampleClient)"
  by (simp add: tableDB_def dbGuard_def sampleTable_def dbText_def byteVal_def)

lemma sample_authenticates:
  "Authenticate tableDB ''alog_0a_s_1'' sampleTable = Inr \<lparr>pClientID = ''0a'', pName = ''billing'', pRole = ''client''\<rparr>"
  using table.Authenticate_iff [OF sample_token sample_select]
  by (simp add: sampleTable_def sampleClient_def)

theorem authenticate_sound_witness:
  "\<exists>r sec. map_of (tbRows sampleTable) ''0a'' = Some r \<and> crRevokedAt r = None \<and> crTokenHash r = sha256Hex sec \<and>
    TrimSpace ''alog_0a_s_1'' = formatToken ''0a'' sec"
  using authenticate_sound [OF table.clients_db_axioms sample_authenticates] by auto

text \<open>C16: a token from \<open>Register\<close> is accepted at once, as the client it was issued for, with the
  trimmed name and the requested role or the default one.\<close>

theorem register_then_authenticate:
  assumes "clients_db db rows" "Register db (Inr idb) (Inr secb) name role s = (Inr (cid, token), s')"
    "idb \<noteq> []" "secb \<noteq> []" "cdbSelect db cid s' = Inr row"
  shows "Authenticate db token s' = Inr \<lparr>pClientID = cid, pName = TrimSpace name,
    pRole = (if TrimSpace role = [] then RoleClient else TrimSpace role)\<rparr>"
  by (rule clients_db.Register_authenticates [OF assms])

definition blankTable :: ClientsTable where
  "blankTable = \<lparr>tbRows = [], tbNow = 7, tbDown = False\<rparr>"

lemma TrimSpace_sample: "TrimSpace ''billing'' = ''billing''" "TrimSpace ''0a'' = ''0a''" "TrimSpace ''admin'' = ''admin''"
  by (rule TrimSpace_id, simp_all add: edgeByte_def goSpaces_def)+

lemma dbText_hex: "list_all isHexChar s \<Longrightarrow> dbText s"
proof -
  have "\<not> isHexChar CHR 0x00" by (simp add: isHexChar_def)
  then show "list_all isHexChar s \<Longrightarrow> dbText s" by (auto simp: dbText_def validUtf8_hex list_all_iff)
qed

lemma dbText_hash [simp]: "dbText (sha256Hex s)"
  using sha256Hex_chars by (auto intro!: dbText_hex simp: list_all_iff)

lemma sample_register:
  "Register tableDB (Inr [CHR 0x0A]) (Inr [CHR 0xFF]) ''billing'' [] blankTable =
     (Inr (hexEncode [CHR 0x0A], formatToken (hexEncode [CHR 0x0A]) (base64Encode [CHR 0xFF])),
      blankTable\<lparr>tbRows := [(hexEncode [CHR 0x0A], \<lparr>crId = hexEncode [CHR 0x0A], crName = ''billing'',
        crTokenHash = sha256Hex (base64Encode [CHR 0xFF]), crRole = RoleClient, crCreatedAt = 7, crRevokedAt = None\<rparr>)]\<rparr>)"
  using dbText_hex [OF hexEncode_chars]
  by (simp add: Register_def TrimSpace_sample validRole_def newClientID_def newSecret_def tableDB_def dbGuard_def
      blankTable_def hashSecret_def RoleClient_def RoleAdmin_def Let_def) (simp add: dbText_def byteVal_def)

theorem register_then_authenticate_witness:
  "\<exists>token t. Register tableDB (Inr [CHR 0x0A]) (Inr [CHR 0xFF]) ''billing'' [] blankTable =
      (Inr (hexEncode [CHR 0x0A], token), t) \<and>
    Authenticate tableDB token t = Inr \<lparr>pClientID = hexEncode [CHR 0x0A], pName = ''billing'', pRole = RoleClient\<rparr>"
  using register_then_authenticate [OF table.clients_db_axioms sample_register]
    dbText_hex [OF hexEncode_chars, of "[CHR 0x0A]"] sample_register
  by (simp add: tableDB_def dbGuard_def blankTable_def TrimSpace_sample)

text \<open>C17: a rotation replaces the secret.  Afterwards a token of that client is accepted if and only
  if its secret has the hash of the new one, so every earlier token stops working and the new one
  works.\<close>

theorem rotate_replaces_secret:
  assumes "clients_db db rows" "Rotate db (Inr secb) cid0 s = (Inr token, s')"
    "parseToken tok = Inr (TrimSpace cid0, sec)" "cdbSelect db (TrimSpace cid0) s' = Inr row"
  shows "(\<exists>p. Authenticate db tok s' = Inr p) \<longleftrightarrow> sha256Hex sec = sha256Hex (base64Encode secb)"
  by (rule clients_db.Rotate_tokens [OF assms])

definition rotatedTable :: ClientsTable where
  "rotatedTable = sampleTable\<lparr>tbRows := [(''0a'', sampleClient\<lparr>crTokenHash := sha256Hex (base64Encode [CHR 0xFF])\<rparr>)]\<rparr>"

lemma sample_dbText: "dbText ''0a''"
  by (simp add: dbText_def byteVal_def)

lemma sample_rotate:
  "Rotate tableDB (Inr [CHR 0xFF]) ''0a'' sampleTable = (Inr (formatToken ''0a'' (base64Encode [CHR 0xFF])), rotatedTable)"
  by (simp add: Rotate_def TrimSpace_sample newSecret_def tableDB_def tableUpdate_def dbGuard_def sampleTable_def
      activeRow_def sampleClient_def sample_dbText hashSecret_def rotatedTable_def Let_def)

theorem rotate_replaces_secret_witness:
  "(\<exists>p. Authenticate tableDB ''alog_0a_s_1'' rotatedTable = Inr p) \<longleftrightarrow>
     sha256Hex ''s_1'' = sha256Hex (base64Encode [CHR 0xFF])"
  by (rule rotate_replaces_secret [OF table.clients_db_axioms sample_rotate])
    (simp_all add: sample_token TrimSpace_sample tableDB_def dbGuard_def rotatedTable_def sampleTable_def sample_dbText)

text \<open>C18: a revoked client never authenticates again, whatever calls follow: registrations,
  rotations, further revocations and logins cannot bring its id back.\<close>

theorem revoked_stays_out:
  assumes "clients_db db rows" "Revoke db cid0 s = (Inr u, s')"
    "Authenticate db token (fold (registryStep db) ops s') = Inr p"
  shows "pClientID p \<noteq> TrimSpace cid0"
  by (rule clients_db.revoked_for_ever [OF assms])

definition twoClients :: ClientsTable where
  "twoClients = sampleTable\<lparr>tbRows := tbRows sampleTable @ [(''0b'', sampleClient\<lparr>crId := ''0b''\<rparr>)]\<rparr>"

lemma sample_revoke:
  "Revoke tableDB ''0b'' twoClients = (Inr (), twoClients\<lparr>tbRows := tbRows sampleTable @
     [(''0b'', sampleClient\<lparr>crId := ''0b'', crRevokedAt := Some 7\<rparr>)]\<rparr>)"
proof -
  have "TrimSpace ''0b'' = ''0b''" by (rule TrimSpace_id) (simp_all add: edgeByte_def goSpaces_def)
  moreover have "dbText ''0b''" by (simp add: dbText_def byteVal_def)
  ultimately show ?thesis
    by (simp add: Revoke_def tableDB_def tableUpdate_def dbGuard_def twoClients_def sampleTable_def activeRow_def
        sampleClient_def Let_def)
qed

text \<open>One client revoked, a listing, and the other client still gets in.\<close>

theorem revoked_stays_out_witness:
  "\<exists>t p. Revoke tableDB ''0b'' twoClients = (Inr (), t) \<and>
     Authenticate tableDB ''alog_0a_s_1'' (fold (registryStep tableDB) [OpList] t) = Inr p \<and>
     pClientID p = ''0a'' \<and> pClientID p \<noteq> TrimSpace ''0b''"
proof -
  let ?t = "twoClients\<lparr>tbRows := tbRows sampleTable @
     [(''0b'', sampleClient\<lparr>crId := ''0b'', crRevokedAt := Some 7\<rparr>)]\<rparr>"
  have sel: "cdbSelect tableDB ''0a'' ?t = Inr (Some sampleClient)"
    by (simp add: tableDB_def dbGuard_def twoClients_def sampleTable_def sample_dbText)
  have auth: "Authenticate tableDB ''alog_0a_s_1'' (fold (registryStep tableDB) [OpList] ?t) =
      Inr \<lparr>pClientID = ''0a'', pName = ''billing'', pRole = ''client''\<rparr>"
    using table.Authenticate_iff [OF sample_token sel] by (simp add: sampleTable_def sampleClient_def)
  from revoked_stays_out [OF table.clients_db_axioms sample_revoke auth] sample_revoke auth show ?thesis by auto
qed

text \<open>When the registry answers, every credential problem is the same error: a malformed token,
  an unknown client, a revoked client and a wrong secret all give \<open>ErrUnauthorized\<close>.\<close>

lemma credential_failures_look_alike:
  assumes "clients_db db rows" "Authenticate db token s = Inl e"
    and "\<And>cid sec. parseToken token = Inr (cid, sec) \<Longrightarrow> \<exists>row. cdbSelect db cid s = Inr row"
  shows "e = ErrUnauthorized"
  using clients_db.Authenticate_errors [OF assms(1,2)] assms(3) by fastforce

end
