(* ===== verification/Server_HttpProperties.thy ===== *)
theory Server_HttpProperties
  imports Server_Properties
begin

text \<open>
  The properties of the HTTP surface over the file store: what an unauthenticated caller sees, what
  a request can change, what a reader can see, that the log stays a chain through any run of
  requests, and the writes that are accepted and leave a log that no longer verifies.
\<close>

section \<open>Requests\<close>

text \<open>C19: without an accepted token, every protected path gives one and the same response, the 401
  with its challenge header, and changes nothing; this holds for every method, body and query.\<close>

theorem unauthenticated_requests_look_alike:
  assumes "protectedPath (reqPath r)"
    and "bearerToken r = [] \<or> authenticate (bearerToken r) = Inl ErrUnauthorized"
  shows "newRouter cfg store authenticate r s = (writeUnauthorized, s)"
proof -
  obtain h where "\<And>s. newRouter cfg store authenticate r s = requireAuth authenticate h None r s"
    using newRouter_protected [OF assms(1)] by blast
  then show ?thesis using requireAuth_denied [of r authenticate] assms(2) by simp
qed

definition sampleConfig :: Config where
  "sampleConfig = loadConfig asciiUnicode (\<lambda>_. [])"

theorem unauthenticated_requests_look_alike_witness:
  "newRouter sampleConfig (fileOps asciiUnicode sampleTime WriteOk None) (\<lambda>_. Inl ErrUnauthorized) plainRequest sampleStore =
     (writeUnauthorized, sampleStore)"
  by (rule unauthenticated_requests_look_alike) (simp_all add: plainRequest_def protectedPath_def)

text \<open>C20: the only way a request changes the store is one append, for a POST to \<open>/v1/logs\<close> by an
  authenticated caller with a body within the limit, and the record appended carries the caller's own
  client id, whatever the body claimed, and non-empty app, level and message.\<close>

theorem writes_are_attributed:
  assumes "newRouter cfg store authenticate r s = (resp, s')"
  shows "s' = s \<or> (\<exists>p input. reqMethod r = ''POST'' \<and> reqPath r = ''/v1/logs'' \<and>
    authenticate (bearerToken r) = Inr p \<and> pClientID p \<noteq> [] \<and> unmarshalRecord (reqBody r) = Some input \<and>
    int (length (reqBody r)) \<le> cfgMaxPayloadBytes cfg \<and>
    recClientID (stampedRecord p input) = pClientID p \<and> completeRecord (stampedRecord p input) \<and>
    s' = snd (soAppend store (stampedRecord p input) s))"
  using newRouter_state [OF assms] by (auto simp: stampedRecord_def)

definition postRequest :: "string \<Rightarrow> Request" where
  "postRequest body = \<lparr>reqMethod = ''POST'', reqPath = ''/v1/logs'', reqQuery = (\<lambda>_. []),
     reqHeader = (\<lambda>h. if h = ''authorization'' then ''Bearer t'' else []), reqBody = body, reqBodyErr = False\<rparr>"

definition samplePrincipal :: Principal where
  "samplePrincipal = \<lparr>pClientID = ''0a'', pName = ''billing'', pRole = ''client''\<rparr>"

lemma bearer_sample: "bearerToken (postRequest body) = ''t''"
proof -
  have "TrimSpace ''Bearer t'' = ''Bearer t''" "TrimSpace ''t'' = ''t''"
    by (rule TrimSpace_id, simp_all add: edgeByte_def goSpaces_def)+
  then show ?thesis
    by (simp add: bearerToken_def postRequest_def bearerScheme_def foldASCII_def lowerByte_def char_of_def bit_iff_odd)
qed

definition sampleBody :: string where
  "sampleBody = encodeJson (recordJson sampleRecord)"

theorem writes_are_attributed_witness:
  "\<exists>s'. s' = snd (newRouter sampleConfig (fileOps asciiUnicode sampleTime WriteOk None) (\<lambda>_. Inr samplePrincipal)
     (postRequest sampleBody) sampleStore) \<and>
   (s' = sampleStore \<or> (\<exists>input. unmarshalRecord sampleBody = Some input \<and>
      recClientID (stampedRecord samplePrincipal input) = ''0a'' \<and>
      s' = snd (FileStore_Append sampleTime WriteOk (stampedRecord samplePrincipal input) sampleStore)))"
proof -
  obtain resp s' where step: "newRouter sampleConfig (fileOps asciiUnicode sampleTime WriteOk None)
      (\<lambda>_. Inr samplePrincipal) (postRequest sampleBody) sampleStore = (resp, s')" by fastforce
  from writes_are_attributed [OF step] show ?thesis
    using step by (auto simp: postRequest_def) (simp add: samplePrincipal_def)
qed

text \<open>C21: a reader who is not an admin receives only entries that carry its own client id, at most the
  configured maximum of them, whatever \<open>clientId\<close>, filters or cursor the request names.\<close>

theorem reads_are_scoped:
  assumes "fsRep st es" "okLimits (cfgQuery cfg)" "\<not> IsAdmin p"
    and "handleReadLogs cfg (fileOps uc ts io None) (Some p) r st = (resp, st')" "rsStatus resp = 200"
  shows "st' = st \<and> (\<exists>result. resp = writeJSON [] 200 (queryJson result) \<and>
    int (length (qrItems result)) \<le> limMax (cfgQuery cfg) \<and>
    (\<forall>e\<in>set (qrItems result). e \<in> set es \<and> recClientID (eRecord e) = pClientID p))"
proof -
  have id: "pClientID p \<noteq> []" using assms(4,5)
    by (auto simp: handleReadLogs_def errorJSON_def writeJSON_def split: sum.splits)
  obtain q where q: "parseLogQuery r (cfgQuery cfg) = Inr q"
    using assms(4,5) by (auto simp: handleReadLogs_def errorJSON_def writeJSON_def split: sum.splits)
  let ?q = "scopeQuery q p r" and ?m = "\<lambda>q e. matchesQuery uc e q"
  have resp: "resp = writeJSON [] 200 (queryJson (querySpec ?m ?q es))" "st' = st"
    using read_response [OF assms(1) q assms(2) id] assms(4) by auto
  have c: "qClientID ?q = pClientID p" using assms(3) by (simp add: scopeQuery_def)
  have "int (length (qrItems (querySpec ?m ?q es))) \<le> limMax (cfgQuery cfg)"
    using length_querySpec [of ?m ?q es] parseLogQuery_limits [OF q assms(2)] by simp
  moreover have "e \<in> set es \<and> recClientID (eRecord e) = pClientID p" if "e \<in> set (qrItems (querySpec ?m ?q es))" for e
    using set_querySpec [OF that] matchesQuery_client [of uc e ?q] c id by auto
  ultimately show ?thesis using resp by blast
qed

theorem reads_are_scoped_witness:
  "\<exists>resp st'. handleReadLogs sampleConfig (fileOps asciiUnicode sampleTime WriteOk None) (Some samplePrincipal)
     plainRequest sampleStore = (resp, st') \<and> st' = sampleStore"
proof -
  let ?read = "handleReadLogs sampleConfig (fileOps asciiUnicode sampleTime WriteOk None) (Some samplePrincipal)
     plainRequest sampleStore"
  have ok: "okLimits (cfgQuery sampleConfig)" by (simp add: sampleConfig_def loadConfig_bounds)
  obtain q where "parseLogQuery plainRequest (cfgQuery sampleConfig) = Inr q"
    by (simp add: parseLogQuery_def plainRequest_def parseCursorParam_def parseLimitParam_def parseOffsetParam_def Let_def)
  then have "\<exists>j. ?read = (writeJSON [] 200 j, sampleStore)"
    using read_response [OF sampleStore_rep _ ok] by (auto simp: samplePrincipal_def)
  then obtain j where j: "?read = (writeJSON [] 200 j, sampleStore)" by blast
  have "\<not> IsAdmin samplePrincipal" by (simp add: IsAdmin_def samplePrincipal_def RoleAdmin_def)
  from reads_are_scoped [OF sampleStore_rep ok this j] j show ?thesis by (auto simp: writeJSON_def)
qed

text \<open>C22: the log stays a chain through any run of requests.  From a store that holds a log, after any
  sequence of arrivals whose records fit and whose writes are not cut short, the store holds that log
  extended by at most one entry per arrival, and it verifies.\<close>

theorem run_keeps_chain:
  assumes "fsRep st es" "\<And>a. a \<in> set as \<Longrightarrow> sane authenticate (length es + length as) a"
  shows "\<exists>fs. fsRep (serveAll cfg uc authenticate as st) (es @ fs) \<and> length fs \<le> length as \<and>
    FileStore_Verify None (serveAll cfg uc authenticate as st) =
      Inr (validResult (word_of_nat (length es + length fs)) (lastHashOf (es @ fs)))"
proof -
  obtain fs where fs: "fsRep (serveAll cfg uc authenticate as st) (es @ fs)" "length fs \<le> length as"
    using serveAll_rep [OF assms] by blast
  then show ?thesis using fstore.verify_rep [OF fs(1)] by auto
qed

definition sampleWriter :: Principal where
  "sampleWriter = samplePrincipal\<lparr>pClientID := ''c1''\<rparr>"

definition sampleArrival :: Arrival where
  "sampleArrival = \<lparr>arRequest = postRequest sampleBody, arTimestamp = sampleTime, arWrite = WriteOk\<rparr>"

lemma sampleBody_record:
  "unmarshalRecord sampleBody = Some sampleRecord" "stampedRecord sampleWriter sampleRecord = sampleRecord"
proof -
  have "recordDepth sampleRecord \<le> maxNestingDepth"
    by (simp add: recordDepth_def recordJson_def sampleRecord_def metadataMembers_def maxNestingDepth_def)
  then show "unmarshalRecord sampleBody = Some sampleRecord"
    using unmarshal_marshalRecord [OF sample_ok(1) marshalRecord_ok [OF sample_ok(1)]] sample_ok(3) by (simp add: sampleBody_def)
  have "TrimSpace ''app'' = ''app''" "TrimSpace ''info'' = ''info''" "TrimSpace ''hi'' = ''hi''"
    by (rule TrimSpace_id, simp_all add: edgeByte_def goSpaces_def)+
  then show "stampedRecord sampleWriter sampleRecord = sampleRecord"
    by (simp add: stampedRecord_def sampleWriter_def sampleRecord_def)
qed

lemma sampleArrival_sane: "n < 1000 \<Longrightarrow> sane (\<lambda>_. Inr sampleWriter) n sampleArrival"
  using sample_ok(2) sample_fits by (simp add: sane_def sampleArrival_def sampleBody_record postRequest_def) (simp add: sampleWriter_def byteVal_def)

lemma sampleArrival_appends:
  assumes "fsRep st es" "length es < 1000"
  shows "fsRep (snd (serveFile sampleConfig asciiUnicode (\<lambda>_. Inr sampleWriter) sampleArrival st))
    (es @ [nextEntry es sampleTime sampleRecord])"
proof -
  have fits: "fsFits es sampleTime sampleRecord" using assms by (intro sample_fits) (simp_all add: fsRep_def)
  from Append_rep [OF assms(1) sample_ok(1,2) fits] normEntry_sample obtain st' where
    st': "FileStore_Append sampleTime WriteOk sampleRecord st = (Inr (nextEntry es sampleTime sampleRecord), st')"
    "fsRep st' (es @ [nextEntry es sampleTime sampleRecord])" by auto
  have len: "int (length sampleBody) \<le> cfgMaxPayloadBytes sampleConfig"
    by (simp add: sampleBody_def sampleRecord_text jsonSafe_def byteVal_def sampleConfig_def default_payload_limit)
  have w: "completeRecord sampleRecord" "pClientID sampleWriter \<noteq> []"
    by (simp_all add: completeRecord_def sampleRecord_def sampleWriter_def)
  have "snd (serveFile sampleConfig asciiUnicode (\<lambda>_. Inr sampleWriter) sampleArrival st) = st'"
    using bearer_sample [of sampleBody] st'(1) len w
    by (simp add: serveFile_def sampleArrival_def newRouter_def requireAuth_admitted handleLogs_def handleWriteLog_eq readBody_def
        sampleBody_record) (simp add: postRequest_def sampleBody_record)
  with st'(2) show ?thesis by simp
qed

text \<open>Two writes that are accepted: the log has two entries more.\<close>

theorem run_keeps_chain_witness:
  "\<exists>fs. fsRep (serveAll sampleConfig asciiUnicode (\<lambda>_. Inr sampleWriter) [sampleArrival, sampleArrival] sampleStore) (sampleLog @ fs) \<and>
     length fs = 2 \<and>
     FileStore_Verify None (serveAll sampleConfig asciiUnicode (\<lambda>_. Inr sampleWriter) [sampleArrival, sampleArrival] sampleStore) =
       Inr (validResult 4 (lastHashOf (sampleLog @ fs)))"
proof -
  let ?st = "serveAll sampleConfig asciiUnicode (\<lambda>_. Inr sampleWriter) [sampleArrival, sampleArrival] sampleStore"
  have n: "length sampleLog = 2" by (simp add: sampleLog_def Let_def)
  let ?e = "nextEntry sampleLog sampleTime sampleRecord"
  have "fsRep ?st ((sampleLog @ [?e]) @ [nextEntry (sampleLog @ [?e]) sampleTime sampleRecord])"
    using sampleArrival_appends [OF sampleArrival_appends [OF sampleStore_rep]] n by (simp add: serveAll_def)
  then have "fsLastIndex ?st = 4" using n by (simp add: fsRep_def)
  moreover obtain fs where fs: "fsRep ?st (sampleLog @ fs)" "length fs \<le> 2"
    "FileStore_Verify None ?st = Inr (validResult (word_of_nat (length sampleLog + length fs)) (lastHashOf (sampleLog @ fs)))"
    using run_keeps_chain [OF sampleStore_rep, of "[sampleArrival, sampleArrival]" "\<lambda>_. Inr sampleWriter" sampleConfig asciiUnicode]
      sampleArrival_sane n by auto
  ultimately have "word_of_nat (2 + length fs) = (4 :: uint64)" using n by (simp add: fsRep_def)
  moreover have "length fs = 0 \<or> length fs = 1 \<or> length fs = 2" using fs(2) by linarith
  ultimately have "length fs = 2" by (elim disjE) simp_all
  with fs n show ?thesis by auto
qed

section \<open>Accepted writes that break the log\<close>

text \<open>C38: a record that fills the nesting limit of the JSON decoder is accepted, but its line in the
  log is one level deeper than its request and cannot be read back: from then on \<open>Verify\<close> reports
  the log invalid at that entry, although nobody tampered with it.\<close>

theorem deep_record_breaks_log:
  assumes "fsRep st es" "okRecord r" "validUtf8 ts" "maxNestingDepth \<le> recordDepth r"
    and "length (logLine (nextEntry es ts r)) < maxTokenSize"
    and "FileStore_Append ts WriteOk r st = (res, st')"
  shows "res = Inr (nextEntry es ts r) \<and> FileStore_Verify None st' =
    Inr (invalidResult (word_of_nat (length es)) (lastHashOf es) (word_of_nat (Suc (length es)))
      ''invalid JSON line'')"
  by (rule Append_deep [OF assms])

fun nest :: "nat \<Rightarrow> json" where
  "nest 0 = JArr []"
| "nest (Suc n) = JArr [nest n]"

lemma nest_facts: "okAny (nest n)" "jdepth (nest n) = Suc n" "length (encodeJson (nest n)) = 2 * n + 2"
  by (induction n) auto

definition deepRecord :: LogRecord where
  "deepRecord = sampleRecord\<lparr>recMetadata := Some [(''k'', nest 9997)]\<rparr>"

lemma deepRecord_ok: "okRecord deepRecord"
  using sample_ok(1) nest_facts(1) [of 9997]
  by (simp add: deepRecord_def okRecord_def sampleRecord_def okGoMap_def sortedMap_def byteVal_def)

lemma deepRecord_depth: "recordDepth deepRecord = 10000"
  by (simp add: deepRecord_def sampleRecord_def recordDepth_def recordJson_def metadataMembers_def nest_facts)

lemma deepRecord_length: "length (encodeJson (recordJson deepRecord)) = 20073"
  by (simp add: deepRecord_def sampleRecord_def recordJson_def metadataMembers_def nest_facts jsonSafe_def byteVal_def)

theorem deep_record_breaks_log_witness:
  "\<exists>st'. FileStore_Append sampleTime WriteOk deepRecord sampleStore =
      (Inr (nextEntry sampleLog sampleTime deepRecord), st') \<and>
    FileStore_Verify None st' = Inr (invalidResult 2 (lastHashOf sampleLog) 3 ''invalid JSON line'')"
proof -
  obtain res st' where step: "FileStore_Append sampleTime WriteOk deepRecord sampleStore = (res, st')" by fastforce
  have "chainLog sampleLog" using sampleStore_rep by (simp add: fsRep_def)
  then have "length (logLine (nextEntry sampleLog sampleTime deepRecord)) < maxTokenSize"
    using logLine_length [of sampleLog sampleTime deepRecord]
    by (simp add: deepRecord_length maxTokenSize_def sampleTime_def jsonSafe_def byteVal_def)
  from deep_record_breaks_log [OF sampleStore_rep deepRecord_ok sample_ok(2) _ this step]
  show ?thesis using step by (simp add: deepRecord_depth maxNestingDepth_def sampleLog_def Let_def)
qed





text \<open>C40: a write that fails after its first byte, wherever it stops.  The append reports the failure, the
  next append reports success, and the log no longer verifies: either the new line was glued to the part
  of the failed one, which is no JSON wherever it was cut, or, if all bytes had gone out before the
  error, the new line carries the index of the line before it.\<close>

theorem partial_write_breaks_log:
  assumes "fsRep st es" "okRecord r" "validUtf8 ts" "okRecord r'" "validUtf8 ts'" "fsFits es ts r" "fsFits es ts' r'"
    and "length (logLine (nextEntry es ts r)) + length (logLine (nextEntry es ts' r')) < maxTokenSize" "0 < k"
    and "FileStore_Append ts (WriteFails k err) r st = (res, st')"
    and "FileStore_Append ts' WriteOk r' st' = (res', st'')"
  shows "res = Inl (ErrOS err) \<and> res' = Inr (nextEntry es ts' r') \<and> FileStore_Verify None st'' =
    Inr (if k \<le> length (logLine (nextEntry es ts r))
         then invalidResult (word_of_nat (length es)) (lastHashOf es) (word_of_nat (Suc (length es))) ''invalid JSON line''
         else invalidResult (word_of_nat (Suc (length es))) (eEntryHash (nextEntry es ts r)) (word_of_nat (Suc (Suc (length es))))
           ''index sequence broken'')"
  by (rule Append_after_partial_write [OF assms])

theorem partial_write_breaks_log_witness:
  "\<exists>st' st''. FileStore_Append sampleTime (WriteFails 9 ''disk full'') sampleRecord emptyStore = (Inl (ErrOS ''disk full''), st') \<and>
    FileStore_Append sampleTime WriteOk sampleRecord st' = (Inr (nextEntry [] sampleTime sampleRecord), st'') \<and>
    FileStore_Verify None st'' = Inr (invalidResult 0 genesis 1 ''invalid JSON line'')"
proof -
  obtain res st' where s1: "FileStore_Append sampleTime (WriteFails 9 ''disk full'') sampleRecord emptyStore = (res, st')"
    by fastforce
  obtain res' st'' where s2: "FileStore_Append sampleTime WriteOk sampleRecord st' = (res', st'')" by fastforce
  have fits: "fsFits [] sampleTime sampleRecord" using sample_fits chain_nil by simp
  have "length (encodeJson (recordJson sampleRecord)) = 80"
    by (simp add: sampleRecord_text jsonSafe_def byteVal_def)
  then have len: "length (logLine (nextEntry [] sampleTime sampleRecord)) < 1000"
    "80 \<le> length (logLine (nextEntry [] sampleTime sampleRecord))"
    using logLine_length [OF chain_nil, of sampleTime sampleRecord]
    by (simp_all add: sampleTime_def jsonSafe_def byteVal_def) (simp add: logLine_def entryJson_def nextEntry_def)
  then have "length (logLine (nextEntry [] sampleTime sampleRecord)) + length (logLine (nextEntry [] sampleTime sampleRecord)) < maxTokenSize"
    by (simp add: maxTokenSize_def)
  from partial_write_breaks_log [OF sample_ok(4) sample_ok(1,2) sample_ok(1,2) fits fits this _ s1 s2]
  show ?thesis using s1 s2 len(2) by simp
qed

end
