(* ===== verification/Server_Sql.thy ===== *)
theory Server_Sql
  imports Server_Model
begin

text \<open>
  The fragment of SQL in which \<open>PostgresStore.QueryLogs\<close> writes its statements: the text is split into
  tokens, the tokens are parsed into a statement, the placeholders \<open>$n\<close> are replaced by the arguments, and
  the statement is run on the rows of \<open>audit_log_entries\<close>.  \<open>record_json::jsonb->>'field'\<close> and \<open>ILIKE\<close> are
  the parameters \<open>jf\<close> and \<open>ilike\<close>.  A comparison with NULL is not true; the fragment has no negation, so
  not true and false need not be told apart.
\<close>

section \<open>Tokens\<close>

datatype sqlToken = TWord string | TParam nat | TLit string | TSym char

definition wordChar :: "char \<Rightarrow> bool" where
  "wordChar c \<longleftrightarrow> (let n = byteVal c in
     (97 \<le> n \<and> n \<le> 122) \<or> (65 \<le> n \<and> n \<le> 90) \<or> (48 \<le> n \<and> n \<le> 57) \<or> n = 95)"

abbreviation (input) Quote :: char where "Quote \<equiv> CHR 0x27"

function sqlTokens :: "string \<Rightarrow> sqlToken list" where
  "sqlTokens [] = []"
| "sqlTokens (c # s) =
     (if c = CHR '' '' then sqlTokens s
      else if c = CHR ''$'' \<and> takeWhile isDigit s \<noteq> []
      then TParam (the (parseNat (takeWhile isDigit s))) # sqlTokens (dropWhile isDigit s)
      else if c = Quote \<and> Quote \<in> set s
      then TLit (takeWhile (\<lambda>x. x \<noteq> Quote) s) # sqlTokens (tl (dropWhile (\<lambda>x. x \<noteq> Quote) s))
      else if wordChar c then TWord (c # takeWhile wordChar s) # sqlTokens (dropWhile wordChar s)
      else TSym c # sqlTokens s)"
  by pat_completeness auto
termination
  by (relation "measure length") (auto simp: le_imp_less_Suc length_dropWhile_le intro: le_less_trans [OF diff_le_self])

section \<open>Statements\<close>

datatype sqlArg = ArgText string | ArgInt int

datatype sqlOperand = Col string | JsonText string string | Param nat | Lit sqlArg

datatype sqlOp = EqOp | GtOp | ILikeOp

datatype sqlCond = Cmp sqlOp sqlOperand sqlOperand | SqlAnd sqlCond sqlCond | SqlOr sqlCond sqlCond

datatype sqlTarget = CountAll | Columns "string list"

record sqlStmt =
  ssTarget :: sqlTarget
  ssTable :: string
  ssWhere :: "sqlCond option"
  ssOrder :: "(string \<times> bool) option"
  ssLimit :: "sqlOperand option"
  ssOffset :: "sqlOperand option"

type_synonym 'a sqlParsed = "('a \<times> sqlToken list) option"

definition keyword :: "string \<Rightarrow> sqlToken list \<Rightarrow> sqlToken list option" where
  "keyword w ts = (case ts of TWord v # r \<Rightarrow> if v = w then Some r else None | _ \<Rightarrow> None)"

definition jsonArrow :: "sqlToken list" where
  "jsonArrow = [TSym CHR '':'', TSym CHR '':'', TWord ''jsonb'', TSym CHR ''-'', TSym CHR ''>'', TSym CHR ''>'']"

definition parseOperand :: "sqlToken list \<Rightarrow> sqlOperand sqlParsed" where
  "parseOperand ts =
     (case ts of
        TParam n # r \<Rightarrow> Some (Param n, r)
      | TWord c # r \<Rightarrow>
          if take 6 r = jsonArrow then (case drop 6 r of TLit f # r' \<Rightarrow> Some (JsonText c f, r') | _ \<Rightarrow> None)
          else Some (Col c, r)
      | _ \<Rightarrow> None)"

definition parseOp :: "sqlToken list \<Rightarrow> sqlOp sqlParsed" where
  "parseOp ts =
     (case ts of
        TSym c # r \<Rightarrow> if c = CHR ''='' then Some (EqOp, r) else if c = CHR ''>'' then Some (GtOp, r) else None
      | TWord w # r \<Rightarrow> if w = ''ILIKE'' then Some (ILikeOp, r) else None
      | _ \<Rightarrow> None)"

definition parseCmp :: "sqlToken list \<Rightarrow> sqlCond sqlParsed" where
  "parseCmp ts =
     (case parseOperand ts of None \<Rightarrow> None | Some (a, r1) \<Rightarrow>
     (case parseOp r1 of None \<Rightarrow> None | Some (op, r2) \<Rightarrow>
     (case parseOperand r2 of None \<Rightarrow> None | Some (b, r3) \<Rightarrow> Some (Cmp op a b, r3))))"

text \<open>Conditions: \<open>AND\<close> binds tighter than \<open>OR\<close>.  The number bounds the depth of the recursion.\<close>

fun parseOr :: "nat \<Rightarrow> sqlToken list \<Rightarrow> sqlCond sqlParsed"
  and parseAnd :: "nat \<Rightarrow> sqlToken list \<Rightarrow> sqlCond sqlParsed"
  and parseAtom :: "nat \<Rightarrow> sqlToken list \<Rightarrow> sqlCond sqlParsed" where
  "parseOr 0 ts = None"
| "parseOr (Suc n) ts =
     (case parseAnd n ts of None \<Rightarrow> None | Some (c, r) \<Rightarrow>
     (case keyword ''OR'' r of None \<Rightarrow> Some (c, r) | Some r' \<Rightarrow> map_option (\<lambda>(d, t). (SqlOr c d, t)) (parseOr n r')))"
| "parseAnd 0 ts = None"
| "parseAnd (Suc n) ts =
     (case parseAtom n ts of None \<Rightarrow> None | Some (c, r) \<Rightarrow>
     (case keyword ''AND'' r of None \<Rightarrow> Some (c, r) | Some r' \<Rightarrow> map_option (\<lambda>(d, t). (SqlAnd c d, t)) (parseAnd n r')))"
| "parseAtom 0 ts = None"
| "parseAtom (Suc n) ts =
     (case ts of
        TSym s # r \<Rightarrow>
          if s = CHR ''('' then
            (case parseOr n r of
               Some (c, TSym s' # t) \<Rightarrow> if s' = CHR '')'' then Some (c, t) else None
             | _ \<Rightarrow> None)
          else None
      | _ \<Rightarrow> parseCmp ts)"

fun parseColumns :: "sqlToken list \<Rightarrow> string list sqlParsed" where
  "parseColumns (TWord c # r) =
     (case r of
        TSym s # r' \<Rightarrow> if s = CHR '','' then map_option (\<lambda>(cs, t). (c # cs, t)) (parseColumns r') else Some ([c], r)
      | _ \<Rightarrow> Some ([c], r))"
| "parseColumns _ = None"

definition parseTarget :: "sqlToken list \<Rightarrow> sqlTarget sqlParsed" where
  "parseTarget ts =
     (if take 4 ts = [TWord ''COUNT'', TSym CHR ''('', TSym CHR ''*'', TSym CHR '')''] then Some (CountAll, drop 4 ts)
      else map_option (\<lambda>(cs, r). (Columns cs, r)) (parseColumns ts))"

definition parseWhere :: "sqlToken list \<Rightarrow> sqlCond option sqlParsed" where
  "parseWhere ts =
     (case keyword ''WHERE'' ts of
        None \<Rightarrow> Some (None, ts)
      | Some r \<Rightarrow> map_option (\<lambda>(c, t). (Some c, t)) (parseOr (3 * length r + 6) r))"

definition parseOrder :: "sqlToken list \<Rightarrow> (string \<times> bool) option sqlParsed" where
  "parseOrder ts =
     (case keyword ''ORDER'' ts of
        None \<Rightarrow> Some (None, ts)
      | Some r \<Rightarrow>
          (case r of
             TWord b # TWord c # TWord d # t \<Rightarrow>
               if b = ''BY'' \<and> d = ''ASC'' then Some (Some (c, True), t)
               else if b = ''BY'' \<and> d = ''DESC'' then Some (Some (c, False), t)
               else None
           | _ \<Rightarrow> None))"

definition parseBound :: "string \<Rightarrow> sqlToken list \<Rightarrow> sqlOperand option sqlParsed" where
  "parseBound w ts =
     (case keyword w ts of
        None \<Rightarrow> Some (None, ts)
      | Some r \<Rightarrow> map_option (\<lambda>(p, t). (Some p, t)) (parseOperand r))"

definition parseSelect :: "sqlToken list \<Rightarrow> sqlStmt option" where
  "parseSelect ts0 =
     (case keyword ''SELECT'' ts0 of None \<Rightarrow> None | Some ts1 \<Rightarrow>
     (case parseTarget ts1 of None \<Rightarrow> None | Some (target, ts2) \<Rightarrow>
     (case keyword ''FROM'' ts2 of None \<Rightarrow> None | Some ts3 \<Rightarrow>
     (case ts3 of TWord tab # ts4 \<Rightarrow>
       (case parseWhere ts4 of None \<Rightarrow> None | Some (cond, ts5) \<Rightarrow>
       (case parseOrder ts5 of None \<Rightarrow> None | Some (order, ts6) \<Rightarrow>
       (case parseBound ''LIMIT'' ts6 of None \<Rightarrow> None | Some (limit, ts7) \<Rightarrow>
       (case parseBound ''OFFSET'' ts7 of None \<Rightarrow> None | Some (offset, ts8) \<Rightarrow>
          if ts8 = [] then Some \<lparr>ssTarget = target, ssTable = tab, ssWhere = cond, ssOrder = order, ssLimit = limit,
            ssOffset = offset\<rparr> else None))))
      | _ \<Rightarrow> None))))"

section \<open>Arguments\<close>

fun bindOperand :: "sqlArg list \<Rightarrow> sqlOperand \<Rightarrow> sqlOperand option" where
  "bindOperand args (Param n) = (if 1 \<le> n \<and> n \<le> length args then Some (Lit (args ! (n - 1))) else None)"
| "bindOperand args op = Some op"

fun bindCond :: "sqlArg list \<Rightarrow> sqlCond \<Rightarrow> sqlCond option" where
  "bindCond args (Cmp op a b) =
     (case (bindOperand args a, bindOperand args b) of (Some x, Some y) \<Rightarrow> Some (Cmp op x y) | _ \<Rightarrow> None)"
| "bindCond args (SqlAnd c d) =
     (case (bindCond args c, bindCond args d) of (Some x, Some y) \<Rightarrow> Some (SqlAnd x y) | _ \<Rightarrow> None)"
| "bindCond args (SqlOr c d) =
     (case (bindCond args c, bindCond args d) of (Some x, Some y) \<Rightarrow> Some (SqlOr x y) | _ \<Rightarrow> None)"

definition bindOpt :: "('a \<Rightarrow> 'a option) \<Rightarrow> 'a option \<Rightarrow> 'a option option" where
  "bindOpt b x = (case x of None \<Rightarrow> Some None | Some y \<Rightarrow> map_option Some (b y))"

definition bindStmt :: "sqlArg list \<Rightarrow> sqlStmt \<Rightarrow> sqlStmt option" where
  "bindStmt args st =
     (case (bindOpt (bindCond args) (ssWhere st), bindOpt (bindOperand args) (ssLimit st),
            bindOpt (bindOperand args) (ssOffset st)) of
        (Some w, Some l, Some n) \<Rightarrow> Some (st\<lparr>ssWhere := w, ssLimit := l, ssOffset := n\<rparr>)
      | _ \<Rightarrow> None)"

section \<open>Rows\<close>

record EntryRow =
  erIndex :: int
  erTs :: string
  erPrevHash :: string
  erPayloadHash :: string
  erEntryHash :: string
  erRecordJson :: string

definition colVal :: "EntryRow \<Rightarrow> string \<Rightarrow> sqlArg option" where
  "colVal r c =
     (if c = ''entry_index'' then Some (ArgInt (erIndex r))
      else if c = ''ts'' then Some (ArgText (erTs r))
      else if c = ''prev_hash'' then Some (ArgText (erPrevHash r))
      else if c = ''payload_hash'' then Some (ArgText (erPayloadHash r))
      else if c = ''entry_hash'' then Some (ArgText (erEntryHash r))
      else if c = ''record_json'' then Some (ArgText (erRecordJson r))
      else None)"

type_synonym jsonField = "string \<Rightarrow> string \<Rightarrow> string option"
type_synonym likeOp = "string \<Rightarrow> string \<Rightarrow> bool"

text \<open>The value of an operand in a row; \<open>None\<close> is NULL.\<close>

fun evalOperand :: "jsonField \<Rightarrow> EntryRow \<Rightarrow> sqlOperand \<Rightarrow> sqlArg option" where
  "evalOperand jf r (Col c) = colVal r c"
| "evalOperand jf r (JsonText c f) =
     (case colVal r c of Some (ArgText t) \<Rightarrow> map_option ArgText (jf t f) | _ \<Rightarrow> None)"
| "evalOperand jf r (Lit a) = Some a"
| "evalOperand jf r (Param n) = None"

fun evalOp :: "likeOp \<Rightarrow> sqlOp \<Rightarrow> sqlArg option \<Rightarrow> sqlArg option \<Rightarrow> bool" where
  "evalOp ilike EqOp (Some a) (Some b) = (a = b)"
| "evalOp ilike GtOp (Some (ArgInt a)) (Some (ArgInt b)) = (b < a)"
| "evalOp ilike ILikeOp (Some (ArgText a)) (Some (ArgText b)) = ilike a b"
| "evalOp ilike _ _ _ = False"

fun evalCond :: "jsonField \<Rightarrow> likeOp \<Rightarrow> EntryRow \<Rightarrow> sqlCond \<Rightarrow> bool" where
  "evalCond jf ilike r (Cmp op a b) = evalOp ilike op (evalOperand jf r a) (evalOperand jf r b)"
| "evalCond jf ilike r (SqlAnd c d) = (evalCond jf ilike r c \<and> evalCond jf ilike r d)"
| "evalCond jf ilike r (SqlOr c d) = (evalCond jf ilike r c \<or> evalCond jf ilike r d)"

text \<open>Types: \<open>entry_index\<close> is a \<open>BIGINT\<close>, the other columns are text.\<close>

datatype sqlType = IntType | TextType

definition colType :: "string \<Rightarrow> sqlType option" where
  "colType c =
     (if c = ''entry_index'' then Some IntType
      else if c \<in> {''ts'', ''prev_hash'', ''payload_hash'', ''entry_hash'', ''record_json''} then Some TextType
      else None)"

fun operandType :: "sqlOperand \<Rightarrow> sqlType option" where
  "operandType (Col c) = colType c"
| "operandType (JsonText c f) = (if colType c = Some TextType then Some TextType else None)"
| "operandType (Lit (ArgText t)) = Some TextType"
| "operandType (Lit (ArgInt i)) = Some IntType"
| "operandType (Param n) = None"

fun condOk :: "sqlCond \<Rightarrow> bool" where
  "condOk (Cmp op a b) \<longleftrightarrow> operandType a \<noteq> None \<and> operandType a = operandType b \<and>
     (op = ILikeOp \<longrightarrow> operandType a = Some TextType)"
| "condOk (SqlAnd c d) \<longleftrightarrow> condOk c \<and> condOk d"
| "condOk (SqlOr c d) \<longleftrightarrow> condOk c \<and> condOk d"

fun boundOk :: "sqlOperand option \<Rightarrow> bool" where
  "boundOk None = True"
| "boundOk (Some (Lit (ArgInt i))) = (0 \<le> i)"
| "boundOk _ = False"

text \<open>Statements the model gives a meaning to; rows are listed in the order of an integer column, and without
  \<open>ORDER BY\<close> a listing has no order the model could give.\<close>

definition stmtOk :: "sqlStmt \<Rightarrow> bool" where
  "stmtOk st \<longleftrightarrow> ssTable st = ''audit_log_entries'' \<and> pred_option condOk (ssWhere st) \<and>
     boundOk (ssLimit st) \<and> boundOk (ssOffset st) \<and>
     (case ssTarget st of
        CountAll \<Rightarrow> ssOrder st = None \<and> ssLimit st = None \<and> ssOffset st = None
      | Columns cs \<Rightarrow> list_all (\<lambda>c. colType c \<noteq> None) cs \<and>
          (case ssOrder st of None \<Rightarrow> False | Some (c, _) \<Rightarrow> colType c = Some IntType))"

text \<open>A statement text with its arguments, ready to run.\<close>

definition prepare :: "string \<Rightarrow> sqlArg list \<Rightarrow> sqlStmt option" where
  "prepare sql args =
     (case parseSelect (sqlTokens sql) of
        None \<Rightarrow> None
      | Some st \<Rightarrow> (case bindStmt args st of None \<Rightarrow> None | Some b \<Rightarrow> if stmtOk b then Some b else None))"

section \<open>Running a statement\<close>

definition matchRows :: "jsonField \<Rightarrow> likeOp \<Rightarrow> sqlStmt \<Rightarrow> EntryRow list \<Rightarrow> EntryRow list" where
  "matchRows jf ilike st rs = (case ssWhere st of None \<Rightarrow> rs | Some c \<Rightarrow> filter (\<lambda>r. evalCond jf ilike r c) rs)"

definition orderKey :: "string \<Rightarrow> EntryRow \<Rightarrow> int" where
  "orderKey c r = (case colVal r c of Some (ArgInt i) \<Rightarrow> i | _ \<Rightarrow> 0)"

definition orderRows :: "sqlStmt \<Rightarrow> EntryRow list \<Rightarrow> EntryRow list" where
  "orderRows st rs =
     (case ssOrder st of
        None \<Rightarrow> rs
      | Some (c, asc) \<Rightarrow> (let s = sort_key (orderKey c) rs in if asc then s else rev s))"

fun boundNat :: "sqlOperand option \<Rightarrow> nat option" where
  "boundNat (Some (Lit (ArgInt i))) = Some (nat i)"
| "boundNat _ = None"

definition pageRows :: "sqlStmt \<Rightarrow> EntryRow list \<Rightarrow> EntryRow list" where
  "pageRows st rs =
     (let rest = drop (case boundNat (ssOffset st) of None \<Rightarrow> 0 | Some n \<Rightarrow> n) rs
      in case boundNat (ssLimit st) of None \<Rightarrow> rest | Some n \<Rightarrow> take n rest)"

definition rowCells :: "sqlStmt \<Rightarrow> EntryRow \<Rightarrow> sqlArg list" where
  "rowCells st r = (case ssTarget st of CountAll \<Rightarrow> [] | Columns cs \<Rightarrow> List.map_filter (colVal r) cs)"

definition selectRows :: "jsonField \<Rightarrow> likeOp \<Rightarrow> sqlStmt \<Rightarrow> EntryRow list \<Rightarrow> sqlArg list list" where
  "selectRows jf ilike st rs = map (rowCells st) (pageRows st (orderRows st (matchRows jf ilike st rs)))"

definition countRows :: "jsonField \<Rightarrow> likeOp \<Rightarrow> sqlStmt \<Rightarrow> EntryRow list \<Rightarrow> int" where
  "countRows jf ilike st rs = int (length (matchRows jf ilike st rs))"

section \<open>Clauses\<close>

text \<open>Texts that are put together with blanks: where the next piece begins, the tokens of the piece before it are
  complete.\<close>

definition sqlEnd :: "string \<Rightarrow> bool" where
  "sqlEnd r \<longleftrightarrow> r = [] \<or> hd r = CHR '' ''"

lemma sqlEnd_simps [simp]: "sqlEnd []" "sqlEnd (CHR '' '' # r)"
  by (simp_all add: sqlEnd_def)

lemma sqlTokens_param:
  assumes "r = [] \<or> \<not> isDigit (hd r)"
  shows "sqlTokens (CHR ''$'' # FormatUint n @ r) = TParam n # sqlTokens r"
  using digit_run_all [of "FormatUint n" r] assms FormatUint_isDigit [of n] by simp

lemma sqlEnd_digit: "sqlEnd r \<Longrightarrow> r = [] \<or> \<not> isDigit (hd r)"
  by (auto simp: sqlEnd_def isDigit_def digitVal_def)

text \<open>A clause is a text that reads as one atomic condition, which the arguments turn into \<open>c\<close>.\<close>

definition clause :: "sqlArg list \<Rightarrow> string \<Rightarrow> sqlCond \<Rightarrow> bool" where
  "clause args f c \<longleftrightarrow> (\<exists>toks c0. (\<forall>r. sqlEnd r \<longrightarrow> sqlTokens (f @ r) = toks @ sqlTokens r) \<and> toks \<noteq> [] \<and>
     (\<forall>n r. parseAtom (n + 5) (toks @ r) = Some (c0, r)) \<and> (\<forall>ys. bindCond (args @ ys) c0 = Some c))"

lemma clause_more: "clause args f c \<Longrightarrow> clause (args @ ys) f c"
  unfolding clause_def by (metis append.assoc)

fun andAll :: "sqlCond list \<Rightarrow> sqlCond option" where
  "andAll [] = None"
| "andAll [c] = Some c"
| "andAll (c # d # cs) = map_option (SqlAnd c) (andAll (d # cs))"

lemma andAll_Cons: "\<exists>c. andAll (d # ds) = Some c"
  by (induction ds arbitrary: d) auto

lemma eval_andAll: "andAll cs = Some c \<Longrightarrow> evalCond jf ilike r c = list_all (evalCond jf ilike r) cs"
  by (induction cs arbitrary: c rule: andAll.induct) auto

lemma condOk_andAll: "andAll cs = Some c \<Longrightarrow> condOk c = list_all condOk cs"
  by (induction cs arbitrary: c rule: andAll.induct) auto

lemma clauses_parse:
  assumes "list_all2 (clause args) fs cs" "fs \<noteq> []"
  shows "\<exists>toks c0. (\<forall>r. sqlEnd r \<longrightarrow> sqlTokens (Join fs '' AND '' @ r) = toks @ sqlTokens r) \<and> length fs \<le> length toks \<and>
    (\<forall>n r. keyword ''AND'' r = None \<longrightarrow> parseAnd (n + length fs + 5) (toks @ r) = Some (c0, r)) \<and>
    (\<forall>ys. bindCond (args @ ys) c0 = andAll cs)"
  using assms
proof (induction fs arbitrary: cs rule: induct_list012)
  case (2 f)
  then obtain c where cs: "cs = [c]" and c: "clause args f c" by (cases cs) auto
  then obtain toks c0 where t: "\<forall>r. sqlEnd r \<longrightarrow> sqlTokens (f @ r) = toks @ sqlTokens r" "toks \<noteq> []"
    "\<forall>n r. parseAtom (n + 5) (toks @ r) = Some (c0, r)" "\<forall>ys. bindCond (args @ ys) c0 = Some c"
    unfolding clause_def by blast
  have "parseAnd (n + length [f] + 5) (toks @ r) = Some (c0, r)" if "keyword ''AND'' r = None" for n r
  proof -
    have "n + length [f] + 5 = Suc (n + 5)" by simp
    then show ?thesis using that t(3) by (simp only: parseAnd.simps) simp
  qed
  then show ?case using t cs by (intro exI [of _ toks] exI [of _ c0]) (auto simp: Suc_leI)
next
  case (3 f g fs)
  then obtain c d ds where cs: "cs = c # d # ds" and c: "clause args f c" and rest: "list_all2 (clause args) (g # fs) (d # ds)"
    by (auto simp: list_all2_Cons1)
  from c obtain toks c0 where t: "\<forall>r. sqlEnd r \<longrightarrow> sqlTokens (f @ r) = toks @ sqlTokens r" "toks \<noteq> []"
    "\<forall>n r. parseAtom (n + 5) (toks @ r) = Some (c0, r)" "\<forall>ys. bindCond (args @ ys) c0 = Some c"
    unfolding clause_def by blast
  from "3.IH"(2) [OF rest] obtain toks' d0 where
    u: "\<forall>r. sqlEnd r \<longrightarrow> sqlTokens (Join (g # fs) '' AND '' @ r) = toks' @ sqlTokens r" "length (g # fs) \<le> length toks'"
    "\<forall>n r. keyword ''AND'' r = None \<longrightarrow> parseAnd (n + length (g # fs) + 5) (toks' @ r) = Some (d0, r)"
    "\<forall>ys. bindCond (args @ ys) d0 = andAll (d # ds)"
    by blast
  let ?toks = "toks @ TWord ''AND'' # toks'"
  have and_tok: "sqlTokens ('' AND '' @ s) = TWord ''AND'' # sqlTokens s" for s
    by (simp add: wordChar_def byteVal_def isDigit_def)
  have "sqlTokens (Join (f # g # fs) '' AND '' @ r) = ?toks @ sqlTokens r" if "sqlEnd r" for r
    using t(1) u(1) that and_tok [of "Join (g # fs) '' AND '' @ r"] by simp
  moreover have "length (f # g # fs) \<le> length ?toks" using t(2) u(2) by (cases toks) auto
  moreover have "parseAnd (n + length (f # g # fs) + 5) (?toks @ r) = Some (SqlAnd c0 d0, r)" if "keyword ''AND'' r = None" for n r
  proof -
    have "parseAtom (n + length (g # fs) + 5) (toks @ TWord ''AND'' # toks' @ r) = Some (c0, TWord ''AND'' # toks' @ r)"
      using t(3) by blast
    moreover have "parseAnd (n + length (g # fs) + 5) (toks' @ r) = Some (d0, r)" using u(3) that by blast
    moreover have "keyword ''AND'' (TWord ''AND'' # toks' @ r) = Some (toks' @ r)" by (simp add: keyword_def)
    moreover have "n + length (f # g # fs) + 5 = Suc (n + length (g # fs) + 5)" by simp
    ultimately show ?thesis by (simp only: parseAnd.simps) simp
  qed
  moreover have "bindCond (args @ ys) (SqlAnd c0 d0) = andAll cs" for ys
    using t(4) u(4) andAll_Cons [of d ds] cs by (auto split: option.splits)
  ultimately show ?case by (intro exI [of _ ?toks] exI [of _ "SqlAnd c0 d0"]) blast
qed simp

text \<open>\<open>WHERE\<close> and its clauses, or nothing.\<close>

definition clauseEnd :: "sqlToken list \<Rightarrow> bool" where
  "clauseEnd r \<longleftrightarrow> keyword ''AND'' r = None \<and> keyword ''OR'' r = None \<and> keyword ''WHERE'' r = None"

lemma where_parses:
  assumes "list_all2 (clause args) fs cs"
  shows "\<exists>toks w. (\<forall>r. sqlEnd r \<longrightarrow> sqlTokens ((if fs = [] then [] else '' WHERE '' @ Join fs '' AND '') @ r) = toks @ sqlTokens r) \<and>
    (\<forall>r. clauseEnd r \<longrightarrow> parseWhere (toks @ r) = Some (w, r)) \<and>
    (\<forall>ys. bindOpt (bindCond (args @ ys)) w = Some (andAll cs))"
proof (cases "fs = []")
  case True
  then show ?thesis
    using assms by (intro exI [of _ "[]"] exI [of _ None]) (auto simp: clauseEnd_def parseWhere_def bindOpt_def)
next
  case False
  with clauses_parse [OF assms] obtain toks c0 where
    t: "\<forall>r. sqlEnd r \<longrightarrow> sqlTokens (Join fs '' AND '' @ r) = toks @ sqlTokens r" "length fs \<le> length toks"
    "\<forall>n r. keyword ''AND'' r = None \<longrightarrow> parseAnd (n + length fs + 5) (toks @ r) = Some (c0, r)"
    "\<forall>ys. bindCond (args @ ys) c0 = andAll cs"
    by blast
  have "sqlTokens ((if fs = [] then [] else '' WHERE '' @ Join fs '' AND '') @ r) = (TWord ''WHERE'' # toks) @ sqlTokens r" if "sqlEnd r" for r
  proof -
    have "sqlTokens ('' WHERE '' @ s) = TWord ''WHERE'' # sqlTokens s" for s by (simp add: wordChar_def byteVal_def isDigit_def)
    from this [of "Join fs '' AND '' @ r"] show ?thesis using t(1) that False by simp
  qed
  moreover have "parseWhere ((TWord ''WHERE'' # toks) @ r) = Some (Some c0, r)" if "clauseEnd r" for r
  proof -
    define k where "k = 3 * length (toks @ r) - length fs"
    have "3 * length (toks @ r) + 6 = Suc (k + length fs + 5)" using t(2) by (simp add: k_def)
    then have "parseOr (3 * length (toks @ r) + 6) (toks @ r) = Some (c0, r)"
      using t(3) that by (simp only: parseOr.simps) (simp add: clauseEnd_def)
    then show ?thesis by (simp add: parseWhere_def keyword_def)
  qed
  moreover obtain d where "andAll cs = Some d" using andAll_Cons assms False by (cases cs) auto
  then have "bindOpt (bindCond (args @ ys)) (Some c0) = Some (andAll cs)" for ys using t(4) by (simp add: bindOpt_def)
  ultimately show ?thesis by blast
qed

end
