(* ===== verification/Server_PostgresStore.thy ===== *)
theory Server_PostgresStore
  imports Server_FileStore Server_Sql
begin

text \<open>
  The PostgreSQL backend (\<open>cmd/server/main.go\<close>: \<open>NewPostgresStore\<close>, \<open>ensureSchema\<close>, \<open>Append\<close>,
  \<open>Verify\<close>, \<open>QueryLogs\<close>).  The database is a parameter with one function per call the store makes.
  The statements the code assembles are texts with arguments.  The locale \<open>entries_db\<close> says what they mean:
  a database answers a text as \<open>Server_Sql\<close> reads and runs it; \<open>record_json::jsonb->>'field'\<close> and \<open>ILIKE\<close>
  are functions it leaves open.  A healthy database makes the store an instance of the contract \<open>log_store\<close>.
\<close>

section \<open>The database as a parameter\<close>

text \<open>The rows a query delivers, and the error of \<open>Scan\<close> or \<open>rows.Err\<close> that ends them, if any.\<close>

type_synonym rowsResult = "(EntryRow list \<times> goerror option) result"
type_synonym cellsResult = "(sqlArg list list \<times> goerror option) result"

text \<open>\<open>edbCommit row s\<close> commits the transaction that inserted \<open>row\<close>.\<close>

record 's EntriesDB =
  edbSchema :: "'s \<Rightarrow> goerror option"
  edbBegin :: "'s \<Rightarrow> goerror option"
  edbLock :: "'s \<Rightarrow> goerror option"
  edbLast :: "'s \<Rightarrow> (int \<times> string) result"
  edbInsert :: "EntryRow \<Rightarrow> 's \<Rightarrow> goerror option"
  edbCommit :: "EntryRow \<Rightarrow> 's \<Rightarrow> goerror option \<times> 's"
  edbSelectAll :: "'s \<Rightarrow> rowsResult"
  edbCount :: "string \<Rightarrow> sqlArg list \<Rightarrow> 's \<Rightarrow> int result"
  edbQuery :: "string \<Rightarrow> sqlArg list \<Rightarrow> 's \<Rightarrow> cellsResult"

section \<open>Append\<close>

definition PostgresStore_Append :: "'s EntriesDB \<Rightarrow> string \<Rightarrow> LogRecord \<Rightarrow> 's \<Rightarrow> Entry result \<times> 's" where
  "PostgresStore_Append db timestamp record s =
     (case edbBegin db s of Some e \<Rightarrow> (Inl e, s) | None \<Rightarrow>
     (case edbLock db s of Some e \<Rightarrow> (Inl e, s) | None \<Rightarrow>
     (case edbLast db s of Inl e \<Rightarrow> (Inl e, s) | Inr (lastIndex, prevHash) \<Rightarrow>
       (let nextIndex = wrap64 (lastIndex + 1) in
        case marshalRecord record of
          None \<Rightarrow> (Inl ErrJSON, s)
        | Some payloadBytes \<Rightarrow>
            (let payloadHash = sha256Hex payloadBytes;
                 entryHash = sha256Hex (Itoa nextIndex @ ''|'' @ timestamp @ ''|'' @ payloadHash @ ''|'' @ prevHash);
                 row = \<lparr>erIndex = nextIndex, erTs = timestamp, erPrevHash = prevHash,
                        erPayloadHash = payloadHash, erEntryHash = entryHash, erRecordJson = payloadBytes\<rparr>
             in case edbInsert db row s of
                  Some e \<Rightarrow> (Inl e, s)
                | None \<Rightarrow> (case edbCommit db row s of
                      (Some e, s') \<Rightarrow> (Inl e, s')
                    | (None, s') \<Rightarrow>
                        (Inr \<lparr>eIndex = word_of_int nextIndex, eTimestamp = timestamp, ePrevHash = prevHash,
                              ePayloadHash = payloadHash, eEntryHash = entryHash, eRecord = record\<rparr>, s')))))))"

section \<open>Verify\<close>

fun pgVerifyLoop :: "EntryRow list \<Rightarrow> uint64 \<Rightarrow> string \<Rightarrow> uint64 \<Rightarrow> VerifyResult" where
  "pgVerifyLoop [] expectedIndex previousHash n = validResult n previousHash"
| "pgVerifyLoop (r # rs) expectedIndex previousHash n =
     (if erIndex r \<le> 0 then invalidResult n previousHash expectedIndex ''index sequence broken''
      else (case checkLink expectedIndex previousHash (word_of_int (erIndex r)) (erTs r) (erPrevHash r)
                   (erPayloadHash r) (erEntryHash r) (erRecordJson r) of
          Some reason \<Rightarrow> invalidResult n previousHash expectedIndex reason
        | None \<Rightarrow> pgVerifyLoop rs (expectedIndex + 1) (erEntryHash r) (n + 1)))"

definition PostgresStore_Verify :: "'s EntriesDB \<Rightarrow> 's \<Rightarrow> VerifyResult result" where
  "PostgresStore_Verify db s =
     (case edbSelectAll db s of
        Inl e \<Rightarrow> Inl e
      | Inr (rs, err) \<Rightarrow>
          (let res = pgVerifyLoop rs 1 genesis 0 in
           if vValid res then (case err of Some e \<Rightarrow> Inl e | None \<Rightarrow> Inr res) else Inr res))"

text \<open>\<open>None\<close> is a nil handle.\<close>

definition NewPostgresStore :: "'s EntriesDB option \<Rightarrow> 's \<Rightarrow> 's EntriesDB result" where
  "NewPostgresStore handle s =
     (case handle of
        None \<Rightarrow> Inl (ErrMsg ''a database handle is required for the postgres backend'')
      | Some db \<Rightarrow>
     (case edbSchema db s of
        Some e \<Rightarrow> Inl e
      | None \<Rightarrow>
     (case PostgresStore_Verify db s of
        Inl e \<Rightarrow> Inl e
      | Inr verify \<Rightarrow>
          if \<not> vValid verify
          then Inl (ErrMsg (''invalid chain at index '' @ FormatUint (unat (derefUint64 (vInvalidAt verify)))))
          else Inr db)))"

section \<open>QueryLogs\<close>

definition fieldCond :: "string \<Rightarrow> string" where
  "fieldCond field = ''record_json::jsonb->>'' @ [CHR 0x27] @ field @ [CHR 0x27] @ '' = $''"

definition textCondHead :: string where
  "textCondHead = ''(record_json::jsonb->>'' @ [CHR 0x27] @ ''message'' @ [CHR 0x27] @ '' ILIKE $''"

definition placeholder :: "sqlArg list \<Rightarrow> string" where
  "placeholder args = FormatUint (length args)"

text \<open>Adding a filter: the argument first, then the clause with the number it got.\<close>

definition addFieldFilter :: "string \<Rightarrow> string \<Rightarrow> string list \<times> sqlArg list \<Rightarrow> string list \<times> sqlArg list" where
  "addFieldFilter field val fa =
     (if val = [] then fa
      else (let args = snd fa @ [ArgText val] in (fst fa @ [fieldCond field @ placeholder args], args)))"

definition addTextFilter :: "string \<Rightarrow> string list \<times> sqlArg list \<Rightarrow> string list \<times> sqlArg list" where
  "addTextFilter val fa =
     (if val = [] then fa
      else (let args = snd fa @ [ArgText (''%'' @ val @ ''%'')];
                p = placeholder args
            in (fst fa @ [textCondHead @ p @ '' OR record_json ILIKE $'' @ p @ '')''], args)))"

definition pgFilters :: "LogQuery \<Rightarrow> string list \<times> sqlArg list" where
  "pgFilters q =
     addTextFilter (qText q) (addFieldFilter ''level'' (qLevel q) (addFieldFilter ''app'' (qApp q)
       (addFieldFilter ''clientId'' (qClientID q) ([], []))))"

definition filterWhere :: "string list \<Rightarrow> string" where
  "filterWhere fs = (if fs = [] then [] else '' WHERE '' @ Join fs '' AND '')"

definition countStmt :: "LogQuery \<Rightarrow> string \<times> sqlArg list" where
  "countStmt q = (let (fs, args) = pgFilters q
                  in (''SELECT COUNT(*) FROM audit_log_entries'' @ filterWhere fs, args))"

definition listStmt :: "LogQuery \<Rightarrow> string \<times> sqlArg list" where
  "listStmt q =
     (let (fs, args0) = pgFilters q;
          where0 = filterWhere fs;
          (where1, args1) =
            (if qAfterIndex q = 0 then (where0, args0)
             else (let args = args0 @ [ArgInt (sint (qAfterIndex q))];
                       cl = ''entry_index > $'' @ placeholder args
                   in (if where0 = [] then '' WHERE '' @ cl else where0 @ '' AND '' @ cl, args)));
          args2 = args1 @ [ArgInt (wrap64 (qLimit q + 1))];
          limitClause = '' LIMIT $'' @ placeholder args2;
          (offsetClause, args3) =
            (if 0 < qOffset q
             then (let args = args2 @ [ArgInt (qOffset q)] in ('' OFFSET $'' @ placeholder args, args))
             else ([], args2))
      in (''SELECT entry_index, ts, prev_hash, payload_hash, entry_hash, record_json FROM audit_log_entries''
          @ where1 @ '' ORDER BY entry_index ASC'' @ limitClause @ offsetClause, args3))"

text \<open>\<open>rows.Scan\<close> into an \<open>int64\<close> and five strings.\<close>

fun scanRow :: "sqlArg list \<Rightarrow> EntryRow option" where
  "scanRow [ArgInt i, ArgText ts, ArgText ph, ArgText pl, ArgText eh, ArgText rj] =
     Some \<lparr>erIndex = i, erTs = ts, erPrevHash = ph, erPayloadHash = pl, erEntryHash = eh, erRecordJson = rj\<rparr>"
| "scanRow _ = None"

fun decodeRows :: "sqlArg list list \<Rightarrow> Entry list result" where
  "decodeRows [] = Inr []"
| "decodeRows (cells # rs) =
     (case scanRow cells of
        None \<Rightarrow> Inl (ErrDB ''sql: Scan error'')
      | Some r \<Rightarrow>
     (case unmarshalRecord (erRecordJson r) of
        None \<Rightarrow> Inl ErrJSON
      | Some record \<Rightarrow>
     (case decodeRows rs of
        Inl e \<Rightarrow> Inl e
      | Inr es \<Rightarrow> Inr (\<lparr>eIndex = word_of_int (erIndex r), eTimestamp = erTs r, ePrevHash = erPrevHash r,
          ePayloadHash = erPayloadHash r, eEntryHash = erEntryHash r, eRecord = record\<rparr> # es))))"

definition PostgresStore_QueryLogs :: "'s EntriesDB \<Rightarrow> LogQuery \<Rightarrow> 's \<Rightarrow> LogQueryResult result" where
  "PostgresStore_QueryLogs db q s =
     (case (if qWantTotal q
            then (case edbCount db (fst (countStmt q)) (snd (countStmt q)) s of
                Inl e \<Rightarrow> Inl e | Inr n \<Rightarrow> Inr (Some n))
            else Inr None) of
        Inl e \<Rightarrow> Inl e
      | Inr total_ \<Rightarrow>
     (case edbQuery db (fst (listStmt q)) (snd (listStmt q)) s of
        Inl e \<Rightarrow> Inl e
      | Inr (rs, err) \<Rightarrow>
          if qLimit q < 0 then Inl (ErrPanic ''makeslice: cap out of range'')
          else
     (case decodeRows rs of
        Inl e \<Rightarrow> Inl e
      | Inr items0 \<Rightarrow>
     (case err of
        Some e \<Rightarrow> Inl e
      | None \<Rightarrow>
          (let more = qLimit q < int (length items0);
               items = (if more then take (nat (qLimit q)) items0 else items0)
           in if more \<and> items = [] then Inl (ErrPanic ''index out of range [-1]'')
              else Inr \<lparr>qrItems = items, qrLimit = qLimit q,
                        qrNextCursor = (if more then Some (encodeCursor (eIndex (last items))) else None),
                        qrTotal = total_,
                        qrOffset = (if 0 < qOffset q then Some (qOffset q) else None)\<rparr>)))))"

section \<open>What the statements mean\<close>

text \<open>The conditions a query stands for, in the order of its filters.\<close>

definition fieldIs :: "string \<Rightarrow> string \<Rightarrow> sqlCond" where
  "fieldIs field v = Cmp EqOp (JsonText ''record_json'' field) (Lit (ArgText v))"

definition textLike :: "string \<Rightarrow> sqlCond" where
  "textLike v = SqlOr (Cmp ILikeOp (JsonText ''record_json'' ''message'') (Lit (ArgText (''%'' @ v @ ''%''))))
     (Cmp ILikeOp (Col ''record_json'') (Lit (ArgText (''%'' @ v @ ''%''))))"

definition filterConds :: "LogQuery \<Rightarrow> sqlCond list" where
  "filterConds q =
     (if qClientID q = [] then [] else [fieldIs ''clientId'' (qClientID q)]) @
     (if qApp q = [] then [] else [fieldIs ''app'' (qApp q)]) @
     (if qLevel q = [] then [] else [fieldIs ''level'' (qLevel q)]) @
     (if qText q = [] then [] else [textLike (qText q)])"

definition listConds :: "LogQuery \<Rightarrow> sqlCond list" where
  "listConds q = filterConds q @
     (if qAfterIndex q = 0 then [] else [Cmp GtOp (Col ''entry_index'') (Lit (ArgInt (sint (qAfterIndex q))))])"

definition countPlan :: "LogQuery \<Rightarrow> sqlStmt" where
  "countPlan q = \<lparr>ssTarget = CountAll, ssTable = ''audit_log_entries'', ssWhere = andAll (filterConds q), ssOrder = None,
     ssLimit = None, ssOffset = None\<rparr>"

definition entryColumns :: "string list" where
  "entryColumns = [''entry_index'', ''ts'', ''prev_hash'', ''payload_hash'', ''entry_hash'', ''record_json'']"

definition listPlan :: "LogQuery \<Rightarrow> sqlStmt" where
  "listPlan q = \<lparr>ssTarget = Columns entryColumns, ssTable = ''audit_log_entries'', ssWhere = andAll (listConds q),
     ssOrder = Some (''entry_index'', True), ssLimit = Some (Lit (ArgInt (wrap64 (qLimit q + 1)))),
     ssOffset = (if 0 < qOffset q then Some (Lit (ArgInt (qOffset q))) else None)\<rparr>"

text \<open>The condition a query puts on a stored record.\<close>

definition pgMatches :: "jsonField \<Rightarrow> likeOp \<Rightarrow> LogQuery \<Rightarrow> string \<Rightarrow> bool" where
  "pgMatches jf ilike q t \<longleftrightarrow>
     (qClientID q \<noteq> [] \<longrightarrow> jf t ''clientId'' = Some (qClientID q)) \<and>
     (qApp q \<noteq> [] \<longrightarrow> jf t ''app'' = Some (qApp q)) \<and>
     (qLevel q \<noteq> [] \<longrightarrow> jf t ''level'' = Some (qLevel q)) \<and>
     (qText q \<noteq> [] \<longrightarrow>
        (case jf t ''message'' of Some m \<Rightarrow> ilike m (''%'' @ qText q @ ''%'') | None \<Rightarrow> False) \<or>
        ilike t (''%'' @ qText q @ ''%''))"

section \<open>The assembled statements mean the query\<close>

lemma placeholder_tokens: "sqlEnd r \<Longrightarrow> sqlTokens (CHR ''$'' # placeholder args @ r) = TParam (length args) # sqlTokens r"
  using sqlTokens_param [OF sqlEnd_digit] by (simp add: placeholder_def)

lemma bind_last: "bindOperand ((xs @ [a]) @ ys) (Param (Suc (length xs))) = Some (Lit a)"
  by (simp add: nth_append)

lemmas token_defs = wordChar_def byteVal_def isDigit_def

lemma clause_field:
  assumes "field \<in> {''clientId'', ''app'', ''level''}"
  shows "clause (xs @ [ArgText v]) (fieldCond field @ placeholder (xs @ [ArgText v])) (fieldIs field v)"
proof -
  let ?toks = "TWord ''record_json'' # jsonArrow @ [TLit field, TSym CHR ''='', TParam (Suc (length xs))]"
  have "sqlTokens (fieldCond field @ s) =
      TWord ''record_json'' # jsonArrow @ [TLit field, TSym CHR ''=''] @ sqlTokens (CHR ''$'' # s)" for s
    using assms by (auto simp: fieldCond_def token_defs jsonArrow_def digitVal_def)
  note this [of "placeholder (xs @ [ArgText v]) @ r" for r]
  then have "sqlTokens ((fieldCond field @ placeholder (xs @ [ArgText v])) @ r) = ?toks @ sqlTokens r" if "sqlEnd r" for r
    using placeholder_tokens [OF that, of "xs @ [ArgText v]"] by simp
  moreover have "parseAtom (n + 5) (?toks @ r) = Some (Cmp EqOp (JsonText ''record_json'' field) (Param (Suc (length xs))), r)" for n r
    by (simp add: eval_nat_numeral parseCmp_def parseOperand_def parseOp_def jsonArrow_def)
  ultimately show ?thesis
    unfolding clause_def fieldIs_def using bind_last [of xs "ArgText v"]
    by (intro exI [of _ ?toks] exI [of _ "Cmp EqOp (JsonText ''record_json'' field) (Param (Suc (length xs)))"]) simp
qed

lemma clause_text:
  "clause (xs @ [ArgText (''%'' @ v @ ''%'')])
     (textCondHead @ placeholder (xs @ [ArgText (''%'' @ v @ ''%'')]) @ '' OR record_json ILIKE $'' @
       placeholder (xs @ [ArgText (''%'' @ v @ ''%'')]) @ '')'') (textLike v)"
proof -
  let ?a = "ArgText (''%'' @ v @ ''%'')" and ?k = "Suc (length xs)"
  let ?toks = "TSym CHR ''('' # TWord ''record_json'' # jsonArrow @ [TLit ''message'', TWord ''ILIKE'', TParam ?k, TWord ''OR'',
      TWord ''record_json'', TWord ''ILIKE'', TParam ?k, TSym CHR '')'']"
  let ?c0 = "SqlOr (Cmp ILikeOp (JsonText ''record_json'' ''message'') (Param ?k)) (Cmp ILikeOp (Col ''record_json'') (Param ?k))"
  have head: "sqlTokens (textCondHead @ s) =
      (TSym CHR ''('' # TWord ''record_json'' # jsonArrow @ [TLit ''message'', TWord ''ILIKE'']) @ sqlTokens (CHR ''$'' # s)" for s
    by (simp add: textCondHead_def token_defs jsonArrow_def digitVal_def)
  have mid: "sqlTokens ('' OR record_json ILIKE $'' @ s) =
      [TWord ''OR'', TWord ''record_json'', TWord ''ILIKE''] @ sqlTokens (CHR ''$'' # s)" for s
    by (simp add: token_defs digitVal_def)
  have close: "sqlTokens (CHR ''$'' # placeholder (xs @ [?a]) @ '')'' @ r) = TParam ?k # TSym CHR '')'' # sqlTokens r" for r
    using sqlTokens_param [of "'')'' @ r" ?k] by (simp add: placeholder_def token_defs digitVal_def)
  have "sqlTokens ((textCondHead @ placeholder (xs @ [?a]) @ '' OR record_json ILIKE $'' @ placeholder (xs @ [?a]) @ '')'') @ r) =
      ?toks @ sqlTokens r" for r
    using placeholder_tokens [of "'' OR record_json ILIKE $'' @ placeholder (xs @ [?a]) @ '')'' @ r" "xs @ [?a]"] head mid close
    by (simp del: sqlTokens.simps)
  moreover have "parseAtom (n + 5) (?toks @ r) = Some (?c0, r)" for n r
    by (simp add: eval_nat_numeral parseCmp_def parseOperand_def parseOp_def jsonArrow_def keyword_def)
  ultimately show ?thesis
    unfolding clause_def textLike_def using bind_last [of xs ?a]
    by (intro exI [of _ ?toks] exI [of _ ?c0]) simp
qed

lemma clause_after:
  "clause (xs @ [ArgInt i]) (''entry_index > $'' @ placeholder (xs @ [ArgInt i])) (Cmp GtOp (Col ''entry_index'') (Lit (ArgInt i)))"
proof -
  let ?toks = "[TWord ''entry_index'', TSym CHR ''>'', TParam (Suc (length xs))]"
  have "sqlTokens (''entry_index > $'' @ s) = [TWord ''entry_index'', TSym CHR ''>''] @ sqlTokens (CHR ''$'' # s)" for s
    by (simp add: token_defs digitVal_def)
  note this [of "placeholder (xs @ [ArgInt i]) @ r" for r]
  then have "sqlTokens ((''entry_index > $'' @ placeholder (xs @ [ArgInt i])) @ r) = ?toks @ sqlTokens r" if "sqlEnd r" for r
    using placeholder_tokens [OF that, of "xs @ [ArgInt i]"] by (simp del: sqlTokens.simps)
  moreover have "parseAtom (n + 5) (?toks @ r) = Some (Cmp GtOp (Col ''entry_index'') (Param (Suc (length xs))), r)" for n r
    by (simp add: eval_nat_numeral parseCmp_def parseOperand_def parseOp_def jsonArrow_def)
  ultimately show ?thesis
    unfolding clause_def using bind_last [of xs "ArgInt i"]
    by (intro exI [of _ ?toks] exI [of _ "Cmp GtOp (Col ''entry_index'') (Param (Suc (length xs)))"]) simp
qed

text \<open>The filters and the conditions they stand for.\<close>

definition readsAs :: "string list \<times> sqlArg list \<Rightarrow> sqlCond list \<Rightarrow> bool" where
  "readsAs fa cs \<longleftrightarrow> list_all2 (clause (snd fa)) (fst fa) cs"

lemma readsAs_add:
  assumes "readsAs fa cs" "clause (snd fa @ [a]) f c"
  shows "readsAs (fst fa @ [f], snd fa @ [a]) (cs @ [c])"
proof -
  have "list_all2 (clause (snd fa @ [a])) (fst fa) cs"
    using assms(1) unfolding readsAs_def by (rule list_all2_mono) (rule clause_more)
  then show ?thesis using assms(2) by (simp add: readsAs_def list_all2_appendI)
qed

lemma pgFilters_read: "readsAs (pgFilters q) (filterConds q)"
proof -
  have f: "readsAs (addFieldFilter field v fa) (cs @ (if v = [] then [] else [fieldIs field v]))"
    if "readsAs fa cs" "field \<in> {''clientId'', ''app'', ''level''}" for field v fa cs
    using readsAs_add [OF that(1) clause_field [OF that(2)]] that(1) by (simp add: addFieldFilter_def Let_def)
  have t: "readsAs (addTextFilter v fa) (cs @ (if v = [] then [] else [textLike v]))" if "readsAs fa cs" for v fa cs
    using readsAs_add [OF that clause_text] that by (simp add: addTextFilter_def Let_def)
  have "readsAs ([], []) []" by (simp add: readsAs_def)
  from t [OF f [OF f [OF f [OF this]]]] show ?thesis unfolding pgFilters_def filterConds_def by simp
qed

lemma Join_snoc: "fs \<noteq> [] \<Longrightarrow> Join (fs @ [f]) sep = Join fs sep @ sep @ f"
  by (induction fs rule: induct_list012) auto

text \<open>The filters of the listing, with the cursor.\<close>

definition listFilters :: "LogQuery \<Rightarrow> string list \<times> sqlArg list" where
  "listFilters q =
     (let (fs, args0) = pgFilters q; args = args0 @ [ArgInt (sint (qAfterIndex q))]
      in if qAfterIndex q = 0 then (fs, args0) else (fs @ [''entry_index > $'' @ placeholder args], args))"

lemma listFilters_read: "readsAs (listFilters q) (listConds q)"
  using readsAs_add [OF pgFilters_read clause_after, of q "sint (qAfterIndex q)"] pgFilters_read [of q]
  by (simp add: listFilters_def listConds_def case_prod_beta Let_def)

lemma listStmt_eq:
  "listStmt q =
     (let args2 = snd (listFilters q) @ [ArgInt (wrap64 (qLimit q + 1))];
          args3 = (if 0 < qOffset q then args2 @ [ArgInt (qOffset q)] else args2)
      in (''SELECT entry_index, ts, prev_hash, payload_hash, entry_hash, record_json FROM audit_log_entries'' @
          filterWhere (fst (listFilters q)) @ '' ORDER BY entry_index ASC'' @ '' LIMIT $'' @ placeholder args2 @
          (if 0 < qOffset q then '' OFFSET $'' @ placeholder args3 else []), args3))"
  by (simp add: listStmt_def listFilters_def filterWhere_def case_prod_beta Let_def Join_snoc)

lemma listConds_ok: "list_all condOk (filterConds q)" "list_all condOk (listConds q)"
  by (simp_all add: listConds_def filterConds_def fieldIs_def textLike_def colType_def)

lemma andAll_ok: "list_all condOk cs \<Longrightarrow> pred_option condOk (andAll cs)"
  using condOk_andAll by (cases "andAll cs") auto

lemma countStmt_plan: "prepare (fst (countStmt q)) (snd (countStmt q)) = Some (countPlan q)"
proof -
  obtain toks w where t: "\<forall>r. sqlEnd r \<longrightarrow> sqlTokens (filterWhere (fst (pgFilters q)) @ r) = toks @ sqlTokens r"
    "\<forall>r. clauseEnd r \<longrightarrow> parseWhere (toks @ r) = Some (w, r)"
    "\<forall>ys. bindOpt (bindCond (snd (pgFilters q) @ ys)) w = Some (andAll (filterConds q))"
    using where_parses [OF pgFilters_read [unfolded readsAs_def]] unfolding filterWhere_def by blast
  have sel: "sqlTokens (''SELECT COUNT(*) FROM audit_log_entries'' @ s) = [TWord ''SELECT'', TWord ''COUNT'', TSym CHR ''('',
      TSym CHR ''*'', TSym CHR '')'', TWord ''FROM'', TWord ''audit_log_entries''] @ sqlTokens s" if "sqlEnd s" for s
    using that by (cases s) (auto simp: sqlEnd_def token_defs digitVal_def)
  have "sqlEnd (filterWhere (fst (pgFilters q)))" by (simp add: filterWhere_def)
  from sel [OF this] have toks: "sqlTokens (fst (countStmt q)) = [TWord ''SELECT'', TWord ''COUNT'', TSym CHR ''('',
      TSym CHR ''*'', TSym CHR '')'', TWord ''FROM'', TWord ''audit_log_entries''] @ toks"
    using t(1) [THEN spec, of "[]"] by (simp add: countStmt_def case_prod_beta)
  have "parseWhere toks = Some (w, [])" using t(2) [THEN spec, of "[]"] by (simp add: clauseEnd_def keyword_def)
  then have parsed: "parseSelect (sqlTokens (fst (countStmt q))) = Some \<lparr>ssTarget = CountAll, ssTable = ''audit_log_entries'',
      ssWhere = w, ssOrder = None, ssLimit = None, ssOffset = None\<rparr>"
    by (simp add: toks parseSelect_def keyword_def parseTarget_def parseOrder_def parseBound_def)
  have "snd (countStmt q) = snd (pgFilters q)" by (simp add: countStmt_def case_prod_beta)
  with t(3) [THEN spec, of "[]"] andAll_ok [OF listConds_ok(1)] show ?thesis
    by (simp add: prepare_def parsed bindStmt_def countPlan_def) (simp add: bindOpt_def stmtOk_def)
qed

lemma list_tokens:
  assumes "sqlEnd s"
  shows "sqlTokens (''SELECT entry_index, ts, prev_hash, payload_hash, entry_hash, record_json FROM audit_log_entries'' @ s) =
    [TWord ''SELECT'', TWord ''entry_index'', TSym CHR '','', TWord ''ts'', TSym CHR '','', TWord ''prev_hash'', TSym CHR '','',
     TWord ''payload_hash'', TSym CHR '','', TWord ''entry_hash'', TSym CHR '','', TWord ''record_json'', TWord ''FROM'',
     TWord ''audit_log_entries''] @ sqlTokens s"
  using assms by (cases s) (auto simp: sqlEnd_def token_defs digitVal_def)

lemma order_tokens:
  "sqlTokens ('' ORDER BY entry_index ASC'' @ '' LIMIT $'' @ s) =
    [TWord ''ORDER'', TWord ''BY'', TWord ''entry_index'', TWord ''ASC'', TWord ''LIMIT''] @ sqlTokens (CHR ''$'' # s)"
  "sqlTokens ('' OFFSET $'' @ s) = TWord ''OFFSET'' # sqlTokens (CHR ''$'' # s)"
  by (simp_all add: token_defs digitVal_def)

lemma listStmt_plan:
  assumes "0 \<le> wrap64 (qLimit q + 1)"
  shows "prepare (fst (listStmt q)) (snd (listStmt q)) = Some (listPlan q)"
proof -
  let ?a = "snd (listFilters q)" and ?l = "ArgInt (wrap64 (qLimit q + 1))" and ?o = "ArgInt (qOffset q)"
  let ?off = "if 0 < qOffset q then '' OFFSET $'' @ placeholder ((?a @ [?l]) @ [?o]) else []"
  let ?offToks = "if 0 < qOffset q then [TWord ''OFFSET'', TParam (Suc (Suc (length ?a)))] else []"
  let ?tail = "[TWord ''ORDER'', TWord ''BY'', TWord ''entry_index'', TWord ''ASC'', TWord ''LIMIT'', TParam (Suc (length ?a))] @ ?offToks"
  obtain toks w where t: "\<forall>r. sqlEnd r \<longrightarrow> sqlTokens (filterWhere (fst (listFilters q)) @ r) = toks @ sqlTokens r"
    "\<forall>r. clauseEnd r \<longrightarrow> parseWhere (toks @ r) = Some (w, r)"
    "\<forall>ys. bindOpt (bindCond (?a @ ys)) w = Some (andAll (listConds q))"
    using where_parses [OF listFilters_read [unfolded readsAs_def]] unfolding filterWhere_def by blast
  have off: "sqlTokens ?off = ?offToks" "sqlEnd ?off"
    using placeholder_tokens [of "[]" "(?a @ [?l]) @ [?o]"] order_tokens(2) [of "placeholder ((?a @ [?l]) @ [?o])"]
    by (simp_all del: sqlTokens.simps(2))
  have tail: "sqlTokens ('' ORDER BY entry_index ASC'' @ '' LIMIT $'' @ placeholder (?a @ [?l]) @ ?off) = ?tail"
    using placeholder_tokens [OF off(2), of "?a @ [?l]"] off(1) order_tokens(1) [of "placeholder (?a @ [?l]) @ ?off"]
    by (simp del: sqlTokens.simps)
  have stmt: "fst (listStmt q) = ''SELECT entry_index, ts, prev_hash, payload_hash, entry_hash, record_json FROM audit_log_entries'' @
      filterWhere (fst (listFilters q)) @ '' ORDER BY entry_index ASC'' @ '' LIMIT $'' @ placeholder (?a @ [?l]) @ ?off"
    "snd (listStmt q) = ?a @ [?l] @ (if 0 < qOffset q then [?o] else [])"
    by (simp_all add: listStmt_eq Let_def)
  have "sqlEnd (filterWhere (fst (listFilters q)) @ '' ORDER BY entry_index ASC'' @ '' LIMIT $'' @ placeholder (?a @ [?l]) @ ?off)"
    by (simp add: filterWhere_def)
  note list_tokens [OF this]
  moreover have "sqlTokens (filterWhere (fst (listFilters q)) @ '' ORDER BY entry_index ASC'' @ '' LIMIT $'' @ placeholder (?a @ [?l]) @ ?off) =
      toks @ ?tail"
    using t(1) [THEN spec, of "'' ORDER BY entry_index ASC'' @ '' LIMIT $'' @ placeholder (?a @ [?l]) @ ?off"] tail by simp
  moreover have "parseWhere (toks @ ?tail) = Some (w, ?tail)"
    using t(2) by (simp add: clauseEnd_def keyword_def)
  ultimately have parsed: "parseSelect (sqlTokens (fst (listStmt q))) = Some \<lparr>ssTarget = Columns entryColumns,
      ssTable = ''audit_log_entries'', ssWhere = w, ssOrder = Some (''entry_index'', True), ssLimit = Some (Param (Suc (length ?a))),
      ssOffset = (if 0 < qOffset q then Some (Param (Suc (Suc (length ?a)))) else None)\<rparr>"
    unfolding stmt(1)
    by (simp add: parseSelect_def keyword_def parseTarget_def parseOrder_def parseBound_def parseOperand_def entryColumns_def
        del: sqlTokens.simps)
  have ok: "pred_option condOk (andAll (listConds q))" using andAll_ok [OF listConds_ok(2)] .
  have "bindStmt (snd (listStmt q)) \<lparr>ssTarget = Columns entryColumns,
      ssTable = ''audit_log_entries'', ssWhere = w, ssOrder = Some (''entry_index'', True), ssLimit = Some (Param (Suc (length ?a))),
      ssOffset = (if 0 < qOffset q then Some (Param (Suc (Suc (length ?a)))) else None)\<rparr> = Some (listPlan q)"
    using t(3) [THEN spec, of "[?l]"] t(3) [THEN spec, of "[?l, ?o]"]
    by (simp add: bindStmt_def stmt(2) listPlan_def) (simp add: bindOpt_def nth_append)
  then show ?thesis
    using ok assms by (simp add: prepare_def parsed stmtOk_def)
      (simp add: listPlan_def entryColumns_def colType_def)
qed

lemma evalOp_text [simp]:
  "evalOp ilike EqOp (map_option ArgText x) (Some (ArgText v)) \<longleftrightarrow> x = Some v"
  "evalOp ilike ILikeOp (map_option ArgText x) (Some (ArgText v)) \<longleftrightarrow> (case x of Some m \<Rightarrow> ilike m v | None \<Rightarrow> False)"
  by (cases x; simp)+

lemma eval_conds:
  "list_all (evalCond jf ilike r) (filterConds q) \<longleftrightarrow> pgMatches jf ilike q (erRecordJson r)"
  by (cases "jf (erRecordJson r) ''message''") (simp_all add: filterConds_def pgMatches_def fieldIs_def textLike_def colVal_def)

lemma matchRows_conds:
  "ssWhere st = andAll cs \<Longrightarrow> matchRows jf ilike st rs = filter (\<lambda>r. list_all (evalCond jf ilike r) cs) rs"
proof (cases cs)
  case (Cons c ds)
  obtain d where "andAll cs = Some d" using andAll_Cons Cons by blast
  moreover assume "ssWhere st = andAll cs"
  ultimately show ?thesis using eval_andAll by (simp add: matchRows_def)
qed (simp add: matchRows_def)

lemma plan_parts [simp]:
  "ssTarget (countPlan q) = CountAll" "ssWhere (countPlan q) = andAll (filterConds q)"
  "ssTarget (listPlan q) = Columns entryColumns" "ssWhere (listPlan q) = andAll (listConds q)"
  "ssOrder (listPlan q) = Some (''entry_index'', True)" "boundNat (ssLimit (listPlan q)) = Some (nat (wrap64 (qLimit q + 1)))"
  "boundNat (ssOffset (listPlan q)) = (if 0 < qOffset q then Some (nat (qOffset q)) else None)"
  by (simp_all add: countPlan_def listPlan_def)

lemma countRows_plan:
  "countRows jf ilike (countPlan q) rs = int (length (filter (\<lambda>r. pgMatches jf ilike q (erRecordJson r)) rs))"
  by (simp add: countRows_def matchRows_conds [of "countPlan q" "filterConds q"] eval_conds)

definition cellsOf :: "EntryRow \<Rightarrow> sqlArg list" where
  "cellsOf r = [ArgInt (erIndex r), ArgText (erTs r), ArgText (erPrevHash r), ArgText (erPayloadHash r),
     ArgText (erEntryHash r), ArgText (erRecordJson r)]"

lemma scanRow_cellsOf [simp]: "scanRow (cellsOf r) = Some r"
  by (simp add: cellsOf_def)

lemma selectRows_plan:
  assumes "sorted (map erIndex rs)"
  shows "selectRows jf ilike (listPlan q) rs = map cellsOf
     (take (nat (wrap64 (qLimit q + 1))) (drop (nat (qOffset q))
       (filter (\<lambda>r. qAfterIndex q = 0 \<or> sint (qAfterIndex q) < erIndex r)
         (filter (\<lambda>r. pgMatches jf ilike q (erRecordJson r)) rs))))"
proof -
  let ?m = "filter (\<lambda>r. qAfterIndex q = 0 \<or> sint (qAfterIndex q) < erIndex r) (filter (\<lambda>r. pgMatches jf ilike q (erRecordJson r)) rs)"
  have "matchRows jf ilike (listPlan q) rs = ?m"
    by (subst matchRows_conds [of "listPlan q" "listConds q"])
      (auto simp: listConds_def eval_conds colVal_def intro!: filter_cong)
  moreover have key: "orderKey ''entry_index'' = erIndex" by (rule ext) (simp add: orderKey_def colVal_def)
  moreover have "sort_key erIndex ?m = ?m"
    using assms by (intro sort_key_id_if_sorted sorted_filter)
  moreover have "rowCells (listPlan q) r = cellsOf r" for r
    by (simp add: rowCells_def entryColumns_def colVal_def cellsOf_def)
  ultimately show ?thesis
    by (simp add: selectRows_def orderRows_def pageRows_def Let_def)
qed

section \<open>The contract with a healthy database\<close>

definition rowOf :: "Entry \<Rightarrow> EntryRow" where
  "rowOf e = \<lparr>erIndex = uint (eIndex e), erTs = eTimestamp e, erPrevHash = ePrevHash e,
     erPayloadHash = ePayloadHash e, erEntryHash = eEntryHash e, erRecordJson = payloadOf e\<rparr>"

definition pgReadable :: "Entry \<Rightarrow> bool" where
  "pgReadable e \<longleftrightarrow> okRecord (eRecord e) \<and> normEntry e = e \<and> recordDepth (eRecord e) \<le> maxNestingDepth"

text \<open>\<open>rows\<close> is the table in index order, \<open>storable\<close> the rows the column types and the expression index
  accept, \<open>healthy\<close> a database that answers.\<close>

locale entries_db =
  fixes db :: "'s EntriesDB"
    and rows :: "'s \<Rightarrow> EntryRow list"
    and healthy :: "'s \<Rightarrow> bool"
    and storable :: "EntryRow \<Rightarrow> bool"
    and jf :: jsonField
    and ilike :: likeOp
  assumes begin_ok: "healthy s \<Longrightarrow> edbBegin db s = None \<and> edbLock db s = None"
    and last_ok: "healthy s \<Longrightarrow> edbLast db s = Inr (if rows s = [] then (0, genesis)
        else (erIndex (last (rows s)), erEntryHash (last (rows s))))"
    and insert_ok: "healthy s \<Longrightarrow> storable row \<Longrightarrow> \<forall>r\<in>set (rows s). erIndex r < erIndex row \<Longrightarrow>
        erEntryHash row \<notin> set (map erEntryHash (rows s)) \<Longrightarrow>
        edbInsert db row s = None \<and> (\<exists>s'. edbCommit db row s = (None, s') \<and> healthy s' \<and> rows s' = rows s @ [row])"
    and selectAll_ok: "healthy s \<Longrightarrow> edbSelectAll db s = Inr (rows s, None)"
    and count_ok: "healthy s \<Longrightarrow> prepare sql args = Some st \<Longrightarrow> ssTarget st = CountAll \<Longrightarrow>
        edbCount db sql args s = Inr (countRows jf ilike st (rows s))"
    and query_ok: "healthy s \<Longrightarrow> prepare sql args = Some st \<Longrightarrow> ssTarget st = Columns cs \<Longrightarrow>
        edbQuery db sql args s = Inr (selectRows jf ilike st (rows s), None)"
begin

definition pgRep :: "'s \<Rightarrow> Entry list \<Rightarrow> bool" where
  "pgRep s es \<longleftrightarrow> healthy s \<and> rows s = map rowOf es \<and> chainLog es \<and> length es < 2 ^ 63 \<and> list_all pgReadable es"

definition pgFits :: "Entry list \<Rightarrow> string \<Rightarrow> LogRecord \<Rightarrow> bool" where
  "pgFits es ts r \<longleftrightarrow> Suc (length es) < 2 ^ 63 \<and> recordDepth r \<le> maxNestingDepth \<and>
     storable (rowOf (nextEntry es ts r)) \<and> eEntryHash (nextEntry es ts r) \<notin> set (map eEntryHash es)"

end

lemma rowOf_norm [simp]: "rowOf (normEntry e) = rowOf e"
  by (simp add: rowOf_def normEntry_next) (simp add: normEntry_def)

lemma uint_index: "n < 2 ^ 63 \<Longrightarrow> uint (word_of_nat n :: uint64) = int n"
  by (simp add: uint_nat unat_of_nat take_bit_nat_eq_self)

lemma chain_uint_index:
  assumes "chainLog es" "length es < 2 ^ 63" "i < length es"
  shows "uint (eIndex (es ! i)) = int (Suc i)"
  using chainLog_nth_index [OF assms(1,3)] uint_index [of "Suc i"] assms(2,3) by (simp del: of_nat_Suc)

lemma chain_index_pos: "chainLog es \<Longrightarrow> length es < 2 ^ 63 \<Longrightarrow> e \<in> set es \<Longrightarrow> 0 < uint (eIndex e)"
  using chain_uint_index by (auto simp: in_set_conv_nth)

lemma chain_rows_sorted:
  assumes "chainLog es" "length es < 2 ^ 63"
  shows "sorted (map erIndex (map rowOf es))"
  using chain_uint_index [OF assms] by (auto simp: sorted_iff_nth_mono rowOf_def)

lemma pgVerifyLoop_rows:
  "chainLog es \<Longrightarrow> length es < 2 ^ 63 \<Longrightarrow>
   pgVerifyLoop (map rowOf es @ rs) 1 genesis 0 =
   pgVerifyLoop rs (word_of_nat (Suc (length es))) (lastHashOf es) (word_of_nat (length es))"
proof (induction arbitrary: rs rule: chainLog.induct)
  case (chain_snoc es e)
  have pos: "0 < uint (eIndex e)"
    using chain_index_pos [OF chainLog.chain_snoc [OF chain_snoc(1-4)] chain_snoc.prems] by simp
  have "checkEntry (word_of_nat (Suc (length es))) (lastHashOf es) e (payloadOf e) = None"
    using chain_snoc(4) checkEntry_None_iff by blast
  then have "pgVerifyLoop (rowOf e # rs) (word_of_nat (Suc (length es))) (lastHashOf es) (word_of_nat (length es)) =
      pgVerifyLoop rs (word_of_nat (Suc (length es)) + 1) (eEntryHash e) (word_of_nat (length es) + 1)"
    using pos by (simp add: rowOf_def checkEntry_def)
  with chain_snoc.IH [of "rowOf e # rs"] chain_snoc.prems show ?case by (simp add: add.commute)
qed simp

lemma decodeRows_rowOf: "list_all pgReadable es \<Longrightarrow> decodeRows (map (\<lambda>e. cellsOf (rowOf e)) es) = Inr es"
proof (induction es)
  case (Cons e es)
  have e: "okRecord (eRecord e)" "normRecord (eRecord e) = eRecord e" "recordDepth (eRecord e) \<le> maxNestingDepth"
    using Cons.prems by (simp_all add: pgReadable_def normEntry_def) (metis Entry.select_convs(6) Entry.surjective Entry.update_convs(6))
  then have "unmarshalRecord (payloadOf e) = Some (eRecord e)"
    using unmarshal_marshalRecord [OF e(1) marshalRecord_ok [OF e(1)]] by (simp add: payloadOf_def)
  then show ?case using Cons by (simp add: rowOf_def)
qed simp

context entries_db begin

lemma pgVerify_rep:
  "pgRep s es \<Longrightarrow> PostgresStore_Verify db s = Inr (validResult (word_of_nat (length es)) (lastHashOf es))"
  using pgVerifyLoop_rows [of es "[]"] by (simp add: PostgresStore_Verify_def pgRep_def selectAll_ok)

lemma pgAppend_rep:
  assumes "pgRep s es" "okRecord r" "validUtf8 ts" "pgFits es ts r"
  shows "\<exists>s'. PostgresStore_Append db ts r s = (Inr (nextEntry es ts r), s') \<and> pgRep s' (es @ [normEntry (nextEntry es ts r)])"
proof -
  let ?e = "nextEntry es ts r" and ?n = "length es"
  have rep: "healthy s" "rows s = map rowOf es" "chainLog es" "length es < 2 ^ 63" "list_all pgReadable es"
    using assms(1) by (auto simp: pgRep_def)
  have n: "Suc ?n < 2 ^ 63" using assms(4) by (simp add: pgFits_def)
  have last: "edbLast db s = Inr (int ?n, lastHashOf es)"
    using chain_uint_index [OF rep(3,4), of "?n - 1"] rep(1,2)
    by (cases "es = []") (auto simp: last_ok lastHashOf_def last_map rowOf_def last_conv_nth)
  have "int64 (int ?n + 1)" using n by (simp add: int64_def)
  then have next1: "wrap64 (int ?n + 1) = int (Suc ?n)" by simp
  have idx: "uint (word_of_nat (Suc ?n) :: uint64) = int (Suc ?n)" by (rule uint_index [OF n])
  have unat: "unat (word_of_nat (Suc ?n) :: uint64) = Suc ?n"
    using n by (simp add: unat_of_nat take_bit_nat_eq_self del: of_nat_Suc)
  have hash: "Itoa (int (Suc ?n)) @ CHR ''|'' # ts @ CHR ''|'' # x @ CHR ''|'' # y = hashInput (word_of_nat (Suc ?n)) ts x y" for x y
    using unat by (simp add: Itoa_def hashInput_def nat_add_distrib del: of_nat_Suc)
  define row where "row = rowOf ?e"
  have row: "row = \<lparr>erIndex = int (Suc ?n), erTs = ts, erPrevHash = lastHashOf es,
      erPayloadHash = sha256Hex (encodeJson (recordJson r)), erEntryHash = eEntryHash ?e,
      erRecordJson = encodeJson (recordJson r)\<rparr>"
    using idx by (simp add: row_def rowOf_def nextEntry_def payloadOf_def del: of_nat_Suc)
  have less: "\<forall>x\<in>set (rows s). erIndex x < erIndex row"
    using chain_uint_index [OF rep(3,4)] rep(2) by (auto simp: row rowOf_def in_set_conv_nth)
  have fresh: "erEntryHash row \<notin> set (map erEntryHash (rows s))"
    using assms(4) rep(2) by (auto simp: row pgFits_def rowOf_def)
  have "storable row" using assms(4) by (simp add: pgFits_def row_def)
  from insert_ok [OF rep(1) this less fresh] obtain s' where s': "edbInsert db row s = None"
    "edbCommit db row s = (None, s')" "healthy s'" "rows s' = map rowOf es @ [row]" using rep(2) by auto
  have "PostgresStore_Append db ts r s = (Inr ?e, s')"
    using s'(1,2) begin_ok [OF rep(1)] last assms(2)
    by (simp add: PostgresStore_Append_def marshalRecord_ok next1 hash row nextEntry_def newEntry_def Let_def del: of_nat_Suc)
  moreover have "pgReadable (normEntry ?e)"
    using assms(2,4) by (simp add: pgReadable_def normEntry_next pgFits_def nextEntry_def recordDepth_def)
  then have "pgRep s' (es @ [normEntry ?e])"
    using s'(3,4) rep n chainLog_next [OF rep(3) assms(2,3)] by (simp add: pgRep_def row_def)
  ultimately show ?thesis by blast
qed

lemma pgQuery_rep:
  assumes "pgRep s es" "0 < qLimit q" "qLimit q < maxInt64" "qAfterIndex q \<le> 9223372036854775807"
  shows "PostgresStore_QueryLogs db q s = Inr (querySpec (\<lambda>q e. pgMatches jf ilike q (payloadOf e)) q es)"
proof -
  let ?m = "\<lambda>q e. pgMatches jf ilike q (payloadOf e)"
  let ?rest = "queryRest ?m q es" and ?lim = "nat (qLimit q)" and ?off = "nat (qOffset q)"
  have rep: "healthy s" "rows s = map rowOf es" "chainLog es" "length es < 2 ^ 63" "list_all pgReadable es"
    using assms(1) by (auto simp: pgRep_def)
  have after: "(qAfterIndex q = 0 \<or> sint (qAfterIndex q) < uint (eIndex e)) \<longleftrightarrow> qAfterIndex q < eIndex e"
    if "e \<in> set es" for e
    using chain_index_pos [OF rep(3,4) that] cursor_as_int64 [OF assms(4)] by (auto simp: word_less_def)
  have lim: "nat (wrap64 (qLimit q + 1)) = Suc ?lim"
    using assms(2,3) by (subst wrap64_id) (auto simp: int64_def nat_add_distrib)
  have "filter (\<lambda>r. qAfterIndex q = 0 \<or> sint (qAfterIndex q) < erIndex r)
      (filter (\<lambda>r. pgMatches jf ilike q (erRecordJson r)) (map rowOf es)) = map rowOf ?rest"
    using after by (auto simp: queryRest_def filter_map o_def rowOf_def intro!: filter_cong arg_cong [of _ _ "map _"])
  moreover have "sorted (map erIndex (map rowOf es))" using chain_rows_sorted [OF rep(3,4)] .
  ultimately have rows: "edbQuery db (fst (listStmt q)) (snd (listStmt q)) s =
      Inr (map (\<lambda>e. cellsOf (rowOf e)) (take (Suc ?lim) (drop ?off ?rest)), None)"
    using query_ok [OF rep(1) listStmt_plan, of q entryColumns] rep(2) lim assms(2,3)
    by (simp add: selectRows_plan take_map drop_map o_def)
  have count: "edbCount db (fst (countStmt q)) (snd (countStmt q)) s = Inr (int (length (filter (?m q) es)))"
    using count_ok [OF rep(1) countStmt_plan, of q] rep(2)
    by (simp add: countRows_plan filter_map o_def rowOf_def)
  have "list_all pgReadable (take (Suc ?lim) (drop ?off ?rest))"
    using rep(5) by (auto simp: list_all_iff queryRest_def dest!: in_set_takeD in_set_dropD)
  note dec = decodeRows_rowOf [OF this]
  have more: "qLimit q < int (length (take (Suc ?lim) (drop ?off ?rest))) \<longleftrightarrow> ?off + ?lim < length ?rest"
    using assms(2) by auto
  have page: "take ?lim (take (Suc ?lim) (drop ?off ?rest)) = take ?lim (drop ?off ?rest)"
    "\<not> ?off + ?lim < length ?rest \<Longrightarrow> take (Suc ?lim) (drop ?off ?rest) = take ?lim (drop ?off ?rest)"
    "?off + ?lim < length ?rest \<Longrightarrow> take ?lim (drop ?off ?rest) \<noteq> []"
    using assms(2) by (simp, simp, auto)
  define page where "page = take (Suc ?lim) (drop ?off ?rest)"
  have query: "PostgresStore_QueryLogs db q s =
      Inr \<lparr>qrItems = (if qLimit q < int (length page) then take ?lim page else page), qrLimit = qLimit q,
        qrNextCursor = (if qLimit q < int (length page) then Some (encodeCursor (eIndex (last (take ?lim page)))) else None),
        qrTotal = (if qWantTotal q then Some (int (length (filter (?m q) es))) else None),
        qrOffset = (if 0 < qOffset q then Some (qOffset q) else None)\<rparr>"
    using assms(2) rows count dec more page unfolding page_def [symmetric]
    by (simp add: PostgresStore_QueryLogs_def Let_def)
  show ?thesis
    unfolding query querySpec_def Let_def using more page by (simp add: page_def)
qed

end

text \<open>The store over such a database keeps the contract of a log store.\<close>

sublocale entries_db \<subseteq> pgstore: log_store "PostgresStore_Append db" "PostgresStore_Verify db" "PostgresStore_QueryLogs db"
    "\<lambda>q e. pgMatches jf ilike q (payloadOf e)" pgRep pgFits
proof unfold_locales
  show "chainLog es \<and> length es < 2 ^ 63" if "pgRep s es" for s es using that by (simp add: pgRep_def)
  show "pgMatches jf ilike (q\<lparr>qAfterIndex := i, qOffset := n\<rparr>) (payloadOf e) = pgMatches jf ilike q (payloadOf e)" for q i n e
    by (simp add: pgMatches_def split: option.split)
  show "\<exists>s'. PostgresStore_Append db ts r s = (Inr e, s') \<and> pgRep s' (es @ [normEntry e])"
    if "pgRep s es" "okRecord r" "validUtf8 ts" "pgFits es ts r"
      "e = newEntry (word_of_nat (Suc (length es))) ts (lastHashOf es) r (encodeJson (recordJson r))"
    for s es r ts e
    using pgAppend_rep [OF that(1-4)] that(5) by (simp add: nextEntry_def)
qed (simp_all add: pgVerify_rep pgQuery_rep)

section \<open>A table\<close>

text \<open>The table as its rows in index order, and whether the server answers.  Statements
  are read and run as \<open>Server_Sql\<close> says; \<open>jsonText\<close> is \<open>->>\<close> on a string member, and \<open>likePattern\<close> is \<open>ILIKE\<close> with \<open>%\<close> and \<open>_\<close>
  on ASCII text.\<close>

record EntriesTable =
  etRows :: "EntryRow list"
  etDown :: bool

definition jsonText :: jsonField where
  "jsonText t field = (case parseJson t of
      Some (JObj kvs) \<Rightarrow> (case map_of (rev kvs) field of Some (JStr v) \<Rightarrow> Some v | _ \<Rightarrow> None)
    | _ \<Rightarrow> None)"

fun likePattern :: likeOp where
  "likePattern s [] = (s = [])"
| "likePattern s (p # ps) =
     (if p = CHR ''%'' then (case s of [] \<Rightarrow> likePattern [] ps | _ # t \<Rightarrow> likePattern s ps \<or> likePattern t (p # ps))
      else (case s of [] \<Rightarrow> False
        | c # t \<Rightarrow> (p = CHR ''_'' \<or> lowerByte c = lowerByte p) \<and> likePattern t ps))"

definition rowStorable :: "EntryRow \<Rightarrow> bool" where
  "rowStorable r \<longleftrightarrow> 0 < erIndex r"

definition entriesTable :: "EntriesTable EntriesDB" where
  "entriesTable =
     (let down = (\<lambda>t. if etDown t then Some (ErrDB ''connection refused'') else None) in
      \<lparr>edbSchema = down, edbBegin = down, edbLock = down,
       edbLast = (\<lambda>t. case down t of Some e \<Rightarrow> Inl e
         | None \<Rightarrow> Inr (if etRows t = [] then (0, genesis)
             else (erIndex (last (etRows t)), erEntryHash (last (etRows t))))),
       edbInsert = (\<lambda>r t. case down t of Some e \<Rightarrow> Some e
         | None \<Rightarrow> if erIndex r \<in> set (map erIndex (etRows t)) \<or> erEntryHash r \<in> set (map erEntryHash (etRows t))
                   then Some (ErrDB ''duplicate key value'') else None),
       edbCommit = (\<lambda>r t. case down t of Some e \<Rightarrow> (Some e, t)
         | None \<Rightarrow> (None, t\<lparr>etRows := sort_key erIndex (etRows t @ [r])\<rparr>)),
       edbSelectAll = (\<lambda>t. case down t of Some e \<Rightarrow> Inl e | None \<Rightarrow> Inr (etRows t, None)),
       edbCount = (\<lambda>sql args t. case down t of Some e \<Rightarrow> Inl e
         | None \<Rightarrow> (case prepare sql args of
             None \<Rightarrow> Inl (ErrDB ''syntax error'') | Some st \<Rightarrow> Inr (countRows jsonText likePattern st (etRows t)))),
       edbQuery = (\<lambda>sql args t. case down t of Some e \<Rightarrow> Inl e
         | None \<Rightarrow> (case prepare sql args of
             None \<Rightarrow> Inl (ErrDB ''syntax error'') | Some st \<Rightarrow> Inr (selectRows jsonText likePattern st (etRows t), None)))\<rparr>)"

definition tableUp :: "EntriesTable \<Rightarrow> bool" where
  "tableUp t \<longleftrightarrow> \<not> etDown t \<and> sorted (map erIndex (etRows t))"

lemma sort_key_snoc:
  "sorted (map f xs) \<Longrightarrow> \<forall>x\<in>set xs. f x \<le> f y \<Longrightarrow> sort_key f (xs @ [y]) = xs @ [y]"
  by (induction xs) (auto simp: insort_is_Cons)

interpretation ptable: entries_db entriesTable etRows tableUp rowStorable jsonText likePattern
proof unfold_locales
  fix s row
  assume h: "tableUp s" "rowStorable row" "\<forall>r\<in>set (etRows s). erIndex r < erIndex row"
    "erEntryHash row \<notin> set (map erEntryHash (etRows s))"
  have "sort_key erIndex (etRows s @ [row]) = etRows s @ [row]"
    using h(1,3) by (intro sort_key_snoc) (auto simp: tableUp_def)
  moreover have "erIndex row \<notin> set (map erIndex (etRows s))" using h(3) by auto
  ultimately show "edbInsert entriesTable row s = None \<and>
      (\<exists>s'. edbCommit entriesTable row s = (None, s') \<and> tableUp s' \<and> etRows s' = etRows s @ [row])"
    using h by (auto simp: entriesTable_def Let_def tableUp_def sorted_append less_imp_le)
qed (simp_all add: entriesTable_def Let_def tableUp_def)

end
