(* ===== verification/Go_Flag.thy ===== *)
theory Go_Flag
  imports Go_Strings
begin

text \<open>
  Package \<open>flag\<close> as the command lines of the repository use it: string and boolean flags, one or two
  dashes, \<open>-name=value\<close> and \<open>-name value\<close>, \<open>--\<close> as terminator, and the four ways \<open>FlagSet.Parse\<close> fails.
\<close>

datatype flagKind = StringFlag | BoolFlag

datatype flagError = BadSyntax string | NotDefined string | NeedsArgument string | HelpRequested
  | InvalidBool string string

text \<open>The values set so far, by flag name, as the text that was given.\<close>

type_synonym flagValues = "string \<Rightarrow> string option"

definition flagString :: "flagValues \<Rightarrow> string \<Rightarrow> string \<Rightarrow> string" where
  "flagString vs name def = (case vs name of None \<Rightarrow> def | Some v \<Rightarrow> v)"

text \<open>\<open>strconv.ParseBool\<close>\<close>

definition ParseBool :: "string \<Rightarrow> bool option" where
  "ParseBool s =
     (if s \<in> set [''1'', ''t'', ''T'', ''TRUE'', ''true'', ''True''] then Some True
      else if s \<in> set [''0'', ''f'', ''F'', ''FALSE'', ''false'', ''False''] then Some False
      else None)"

definition flagBool :: "flagValues \<Rightarrow> string \<Rightarrow> bool \<Rightarrow> bool" where
  "flagBool vs name def = (case vs name of None \<Rightarrow> def | Some v \<Rightarrow> (case ParseBool v of None \<Rightarrow> def | Some b \<Rightarrow> b))"

text \<open>The name and the value of \<open>name=value\<close>; the sign is looked for from the second byte on.\<close>

definition splitFlag :: "string \<Rightarrow> string \<times> string option" where
  "splitFlag s =
     (case s of [] \<Rightarrow> ([], None)
      | c # cs \<Rightarrow>
          let n = takeWhile (\<lambda>x. x \<noteq> CHR ''='') cs; r = dropWhile (\<lambda>x. x \<noteq> CHR ''='') cs
          in (c # n, if r = [] then None else Some (tl r)))"

text \<open>One step of \<open>parseOne\<close>: the argument is no flag, is the terminator, is malformed, or names a flag.\<close>

datatype flagArg = NoFlag | Terminator | Malformed | Named string "string option"

definition classifyArg :: "string \<Rightarrow> flagArg" where
  "classifyArg s =
     (if length s < 2 \<or> hd s \<noteq> CHR ''-'' then NoFlag
      else if s = ''--'' then Terminator
      else (let name = (if s ! 1 = CHR ''-'' then drop 2 s else drop 1 s) in
            if name = [] \<or> hd name = CHR ''-'' \<or> hd name = CHR ''='' then Malformed
            else (let (n, v) = splitFlag name in Named n v)))"

fun parseFlags :: "(string \<Rightarrow> flagKind option) \<Rightarrow> string list \<Rightarrow> flagValues \<Rightarrow> flagError + (flagValues \<times> string list)" where
  "parseFlags formal [] vs = Inr (vs, [])"
| "parseFlags formal (s # args) vs =
     (case classifyArg s of
        NoFlag \<Rightarrow> Inr (vs, s # args)
      | Terminator \<Rightarrow> Inr (vs, args)
      | Malformed \<Rightarrow> Inl (BadSyntax s)
      | Named n v \<Rightarrow>
          (case formal n of
             None \<Rightarrow> Inl (if n = ''help'' \<or> n = ''h'' then HelpRequested else NotDefined n)
           | Some BoolFlag \<Rightarrow>
               (case v of
                  None \<Rightarrow> parseFlags formal args (vs(n \<mapsto> ''true''))
                | Some x \<Rightarrow> if ParseBool x = None then Inl (InvalidBool n x)
                            else parseFlags formal args (vs(n \<mapsto> x)))
           | Some StringFlag \<Rightarrow>
               (case v of
                  Some x \<Rightarrow> parseFlags formal args (vs(n \<mapsto> x))
                | None \<Rightarrow> (case args of
                     [] \<Rightarrow> Inl (NeedsArgument n)
                   | x # rest \<Rightarrow> parseFlags formal rest (vs(n \<mapsto> x))))))"

text \<open>The usual forms of setting one string flag.\<close>

lemma splitFlag_plain: "CHR ''='' \<notin> set n \<Longrightarrow> n \<noteq> [] \<Longrightarrow> splitFlag n = (n, None)"
  by (cases n) (auto simp: splitFlag_def takeWhile_eq_all_conv dropWhile_eq_Nil_conv)

lemma splitFlag_value: "CHR ''='' \<notin> set n \<Longrightarrow> n \<noteq> [] \<Longrightarrow> splitFlag (n @ CHR ''='' # v) = (n, Some v)"
  by (cases n) (auto simp: splitFlag_def takeWhile_append2 dropWhile_append2)

definition flagName :: "string \<Rightarrow> bool" where
  "flagName n \<longleftrightarrow> n \<noteq> [] \<and> CHR ''='' \<notin> set n \<and> hd n \<noteq> CHR ''-''"

lemma classify_named:
  assumes "flagName n"
  shows "classifyArg (''--'' @ n) = Named n None" "classifyArg (''--'' @ n @ CHR ''='' # v) = Named n (Some v)"
    "classifyArg (''-'' @ n) = Named n None"
  using assms
  by (auto simp: flagName_def classifyArg_def splitFlag_plain splitFlag_value hd_append nth_append hd_conv_nth
      in_set_conv_nth Suc_le_eq split: list.split)

end
