(* ===== verification/Server_CLI.thy ===== *)
theory Server_CLI
  imports Server_System Server_PostgresStore Go_Flag
begin

text \<open>
  The command line: \<open>cmd/server/clients_cli.go\<close> (the \<open>audit clients\<close> subcommands) and \<open>main\<close> of
  \<open>cmd/server/main.go\<close> up to the listener.  What a command prints is kept as a list of output items:
  lines, formatted lines with their arguments, the report of a flag error, the table of clients.
\<close>

section \<open>Output and the registry interface\<close>

datatype outArg = OutStr string | OutErr goerror

datatype outItem = OutLine string | OutFmt string "outArg list" | OutFlagError flagError | OutTable "clientLine list"
  and clientLine = ClientLine string string string int string

text \<open>\<open>ClientStore\<close> as the commands use it.\<close>

record 's ClientStoreOps =
  coRegister :: "string \<Rightarrow> string \<Rightarrow> 's \<Rightarrow> (string \<times> string) result \<times> 's"
  coList :: "'s \<Rightarrow> ClientSummary list result"
  coRotate :: "string \<Rightarrow> 's \<Rightarrow> string result \<times> 's"
  coRevoke :: "string \<Rightarrow> 's \<Rightarrow> unit result \<times> 's"

definition clientsUsage :: string where
  "clientsUsage = Join
    [''Usage: audit clients <command> [flags]'', [],
     ''Commands:'',
     ''  register --name <name> [--role client|admin]   Create a client and mint its token'',
     ''  list                                           Show every client'',
     ''  rotate --id <clientId>                         Issue a new token for a client'',
     ''  revoke --id <clientId>                         Disable a client'' @ [CHR 0x27] @ ''s token'', [],
     ''DATABASE_URL must be set. The registry always lives in PostgreSQL.''] [CHR 0x0A]"

section \<open>The subcommands\<close>

type_synonym 's command = "'s ClientStoreOps \<Rightarrow> string list \<Rightarrow> 's \<Rightarrow> (int \<times> outItem list) \<times> 's"

definition clientsRegister :: "'s command" where
  "clientsRegister store args s =
     (case parseFlags [''name'' \<mapsto> StringFlag, ''role'' \<mapsto> StringFlag] args Map.empty of
        Inl e \<Rightarrow> ((2, [OutFlagError e]), s)
      | Inr (vs, _) \<Rightarrow>
          (let name = flagString vs ''name'' []; role = flagString vs ''role'' RoleClient in
           if TrimSpace name = [] then ((2, [OutLine ''error: --name is required'']), s)
           else (case coRegister store name role s of
               (Inl err, s') \<Rightarrow> ((1, [OutFmt ''error: %v'' [OutErr err]]), s')
             | (Inr (clientID, token), s') \<Rightarrow>
                 ((0, [OutFmt ''client id: %s'' [OutStr clientID], OutFmt ''token:     %s'' [OutStr token], OutLine [],
                       OutLine ''Give this token to the client now. Only its hash is stored, so the'',
                       OutLine ''token is not recoverable. If it is lost, run: audit clients rotate'']), s'))))"

definition clientLineOf :: "ClientSummary \<Rightarrow> clientLine" where
  "clientLineOf c = ClientLine (csClientID c) (csName c) (csRole c) (csCreatedAt c)
     (if csRevoked c then ''revoked'' else ''active'')"

definition clientsList :: "'s ClientStoreOps \<Rightarrow> 's \<Rightarrow> (int \<times> outItem list) \<times> 's" where
  "clientsList store s =
     (case coList store s of
        Inl err \<Rightarrow> ((1, [OutFmt ''error: %v'' [OutErr err]]), s)
      | Inr summaries \<Rightarrow>
          if summaries = [] then ((0, [OutLine ''no clients registered'']), s)
          else ((0, [OutTable (map clientLineOf summaries)]), s))"

definition clientsRotate :: "'s command" where
  "clientsRotate store args s =
     (case parseFlags [''id'' \<mapsto> StringFlag] args Map.empty of
        Inl e \<Rightarrow> ((2, [OutFlagError e]), s)
      | Inr (vs, _) \<Rightarrow>
          (let clientID = flagString vs ''id'' [] in
           if TrimSpace clientID = [] then ((2, [OutLine ''error: --id is required'']), s)
           else (case coRotate store clientID s of
               (Inl err, s') \<Rightarrow> ((1, [OutFmt ''error: %v'' [OutErr err]]), s')
             | (Inr token, s') \<Rightarrow>
                 ((0, [OutFmt ''token: %s'' [OutStr token], OutLine [],
                       OutLine ''This token is not recoverable: only its hash is stored. Save it now.'',
                       OutLine ''The previous token stopped working the moment this one was issued.'',
                       OutLine (''Update the client'' @ [CHR 0x27] @ ''s configuration and restart it now.'')]), s'))))"

definition clientsRevoke :: "'s command" where
  "clientsRevoke store args s =
     (case parseFlags [''id'' \<mapsto> StringFlag] args Map.empty of
        Inl e \<Rightarrow> ((2, [OutFlagError e]), s)
      | Inr (vs, _) \<Rightarrow>
          (let clientID = flagString vs ''id'' [] in
           if TrimSpace clientID = [] then ((2, [OutLine ''error: --id is required'']), s)
           else (case coRevoke store clientID s of
               (Inl err, s') \<Rightarrow> ((1, [OutFmt ''error: %v'' [OutErr err]]), s')
             | (Inr _, s') \<Rightarrow>
                 ((0, [OutFmt ''revoked %s'' [OutStr clientID],
                       OutLine ''Entries it already wrote keep its attribution.'']), s'))))"

definition clientsHandlers :: "string \<Rightarrow> 's command option" where
  "clientsHandlers =
     [''register'' \<mapsto> clientsRegister, ''list'' \<mapsto> (\<lambda>store args. clientsList store),
      ''rotate'' \<mapsto> clientsRotate, ''revoke'' \<mapsto> clientsRevoke]"

definition isClientsCommand :: "string \<Rightarrow> bool" where
  "isClientsCommand name = ((clientsHandlers :: string \<Rightarrow> unit command option) name \<noteq> None)"

fun runClientsCLI :: "'s command" where
  "runClientsCLI store [] s = ((2, [OutLine clientsUsage]), s)"
| "runClientsCLI store (c # args) s =
     (case clientsHandlers c of
        None \<Rightarrow> ((2, [OutFmt ''unknown command %q'' [OutStr c], OutLine [], OutLine clientsUsage]), s)
      | Some handler \<Rightarrow> handler store args s)"

text \<open>The registry of \<open>NewPostgresClientStore\<close>, with the random bytes of this run.\<close>

definition postgresClients :: "'s ClientsDB \<Rightarrow> string result \<Rightarrow> string result \<Rightarrow> 's ClientStoreOps" where
  "postgresClients db rndId rndSecret =
     \<lparr>coRegister = Register db rndId rndSecret, coList = ListClients db,
      coRotate = Rotate db rndSecret, coRevoke = Revoke db\<rparr>"

section \<open>Reaching the database\<close>

text \<open>What \<open>sql.Open\<close>, \<open>Ping\<close> and the two \<open>ensureSchema\<close> statements answer.\<close>

record ('s, 'e) Database =
  dbOpen :: "string \<Rightarrow> goerror option"
  dbPing :: "goerror option"
  dbClientsSchema :: "goerror option"
  dbClients :: "'s ClientsDB"
  dbEntries :: "'e EntriesDB"

definition NewPostgresClientStore :: "('s, 'e) Database option \<Rightarrow> 's ClientsDB result" where
  "NewPostgresClientStore handle =
     (case handle of
        None \<Rightarrow> Inl (ErrMsg ''a database handle is required for the client registry'')
      | Some d \<Rightarrow> (case dbClientsSchema d of Some e \<Rightarrow> Inl e | None \<Rightarrow> Inr (dbClients d)))"

fun runClientsCommand :: "unicode \<Rightarrow> (string \<Rightarrow> string) \<Rightarrow> ('s, 'e) Database \<Rightarrow> string result \<Rightarrow> string result \<Rightarrow>
    string list \<Rightarrow> 's \<Rightarrow> (int \<times> outItem list) \<times> 's" where
  "runClientsCommand uc env d rndId rndSecret [] s = ((2, [OutLine clientsUsage]), s)"
| "runClientsCommand uc env d rndId rndSecret (c # args) s =
     (if \<not> isClientsCommand c
      then ((2, [OutFmt ''unknown command %q'' [OutStr c], OutLine [], OutLine clientsUsage]), s)
      else (let cfg = loadConfig uc env in
        if TrimSpace (cfgDatabaseURL cfg) = [] then ((1, [OutLine ''error: DATABASE_URL is required'']), s)
        else (case dbOpen d (cfgDatabaseURL cfg) of
            Some e \<Rightarrow> ((1, [OutFmt ''error: failed to open database: %v'' [OutErr e]]), s)
          | None \<Rightarrow>
        (case dbPing d of
            Some e \<Rightarrow> ((1, [OutFmt ''error: failed to reach database: %v'' [OutErr e]]), s)
          | None \<Rightarrow>
        (case NewPostgresClientStore (Some d) of
            Inl e \<Rightarrow> ((1, [OutFmt ''error: failed to open client registry: %v'' [OutErr e]]), s)
          | Inr db \<Rightarrow> runClientsCLI (postgresClients db rndId rndSecret) (c # args) s)))))"

section \<open>main\<close>

text \<open>How the process goes on: it exits with the code of a subcommand, dies with a message, or listens.\<close>

datatype 'e backend = FileBackend FileStore | PostgresBackend "'e EntriesDB" 'e

datatype ('s, 'e) outcome =
  Exits int "outItem list"
| Fatal string "goerror option"
| Listens string Config "'s ClientsDB" "'e backend"

definition serverMain :: "unicode \<Rightarrow> (string \<Rightarrow> string) \<Rightarrow> ('s, 'e) Database \<Rightarrow> initFaults \<Rightarrow> (string \<Rightarrow> string option) \<Rightarrow>
    string result \<Rightarrow> string result \<Rightarrow> string list \<Rightarrow> 's \<Rightarrow> 'e \<Rightarrow> ('s, 'e) outcome \<times> 's" where
  "serverMain uc env d io disk rndId rndSecret args s es =
     (if args \<noteq> [] \<and> hd args = ''clients''
      then (let ((code, out), s') = runClientsCommand uc env d rndId rndSecret (tl args) s in (Exits code out, s'))
      else (let cfg = loadConfig uc env in
        if TrimSpace (cfgDatabaseURL cfg) = []
        then (Fatal ''DATABASE_URL is required: the client registry is always stored in PostgreSQL, whatever STORAGE_BACKEND is set to'' None, s)
        else (case dbOpen d (cfgDatabaseURL cfg) of
            Some e \<Rightarrow> (Fatal ''failed to open database: %v'' (Some e), s)
          | None \<Rightarrow>
        (case dbPing d of
            Some e \<Rightarrow> (Fatal ''failed to reach database: %v'' (Some e), s)
          | None \<Rightarrow>
        (case NewPostgresClientStore (Some d) of
            Inl e \<Rightarrow> (Fatal ''failed to initialize client registry: %v'' (Some e), s)
          | Inr clients \<Rightarrow>
              if cfgStorageBackend cfg = ''postgres'' then
                (case NewPostgresStore (Some (dbEntries d)) es of
                   Inl e \<Rightarrow> (Fatal ''failed to initialize postgres store: %v'' (Some e), s)
                 | Inr db \<Rightarrow> (Listens (ListenAddr cfg) cfg clients (PostgresBackend db es), s))
              else if cfgStorageBackend cfg = ''file'' \<or> cfgStorageBackend cfg = [] then
                (case NewFileStore io (disk (cfgLogFile cfg)) of
                   Inl e \<Rightarrow> (Fatal ''failed to initialize file store: %v'' (Some e), s)
                 | Inr st \<Rightarrow> (Listens (ListenAddr cfg) cfg clients (FileBackend st), s))
              else (Fatal (''invalid STORAGE_BACKEND: '' @ cfgStorageBackend cfg) None, s))))))"

section \<open>Exit codes and effects\<close>

lemmas clients_defs = clientsRegister_def clientsRotate_def clientsRevoke_def clientsList_def Let_def

lemma clientsHandlers_cases:
  assumes "clientsHandlers c = Some (h :: 's command)"
  obtains "c = ''register''" "h = clientsRegister" | "c = ''list''" "h = (\<lambda>store args. clientsList store)"
  | "c = ''rotate''" "h = clientsRotate" | "c = ''revoke''" "h = clientsRevoke"
  using assms by (auto simp: clientsHandlers_def split: if_splits)

lemma clientsHandlers_None: "c \<notin> {''register'', ''list'', ''rotate'', ''revoke''} \<Longrightarrow> clientsHandlers c = None"
  by (auto simp: clientsHandlers_def)

lemma isClientsCommand_iff: "isClientsCommand c \<longleftrightarrow> c \<in> {''register'', ''list'', ''rotate'', ''revoke''}"
  by (auto simp: isClientsCommand_def clientsHandlers_def)

text \<open>Both places that reject a subcommand reject the same ones with the same text.\<close>

lemma unknown_command: "\<not> isClientsCommand c \<Longrightarrow>
    runClientsCommand uc env d a b (c # args) s = runClientsCLI store (c # args) s"
  by (simp add: isClientsCommand_iff clientsHandlers_None)

text \<open>The four commands over any registry: the exit code tells whether the registry was called and
  whether it succeeded.\<close>

definition cliEffect :: "'s ClientStoreOps \<Rightarrow> 's \<Rightarrow> int \<Rightarrow> 's \<Rightarrow> bool" where
  "cliEffect store s code s' \<longleftrightarrow>
     (code = 2 \<and> s' = s) \<or>
     (code = 1 \<and> (s' = s \<or> (\<exists>n r e. coRegister store n r s = (Inl e, s')) \<or>
        (\<exists>c e. coRotate store c s = (Inl e, s')) \<or> (\<exists>c e. coRevoke store c s = (Inl e, s')))) \<or>
     (code = 0 \<and> (s' = s \<or> (\<exists>n r x. coRegister store n r s = (Inr x, s')) \<or>
        (\<exists>c x. coRotate store c s = (Inr x, s')) \<or> (\<exists>c x. coRevoke store c s = (Inr x, s'))))"

lemma commands_effect:
  "clientsRegister store args s = ((code, out), s') \<Longrightarrow> cliEffect store s code s'"
  "clientsRotate store args s = ((code, out), s') \<Longrightarrow> cliEffect store s code s'"
  "clientsRevoke store args s = ((code, out), s') \<Longrightarrow> cliEffect store s code s'"
  "clientsList store s = ((code, out), s') \<Longrightarrow> cliEffect store s code s'"
  by (auto simp: clients_defs cliEffect_def split: sum.splits prod.splits if_splits)

lemma runClientsCLI_effect:
  fixes store :: "'s ClientStoreOps"
  assumes "runClientsCLI store args s = ((code, out), s')"
  shows "cliEffect store s code s'"
proof (cases args)
  case Nil
  then show ?thesis using assms by (simp add: cliEffect_def)
next
  case (Cons c rest)
  show ?thesis
  proof (cases "clientsHandlers c :: 's command option")
    case None
    then show ?thesis using assms Cons by (simp add: cliEffect_def)
  next
    case (Some h)
    then have "h store rest s = ((code, out), s')" using assms Cons by simp
    with Some show ?thesis by (elim clientsHandlers_cases) (auto intro: commands_effect)
  qed
qed

text \<open>\<open>RowsAffected\<close> answers whenever \<open>Exec\<close> did, as the PostgreSQL driver's does.\<close>

definition rowsAffectedAnswers :: "'s ClientsDB \<Rightarrow> bool" where
  "rowsAffectedAnswers db \<longleftrightarrow> (\<forall>h c s e. fst (cdbSetHash db h c s) \<noteq> Inr (Inl e) \<and> fst (cdbRevoke db c s) \<noteq> Inr (Inl e))"

context clients_db begin

lemma Rotate_err:
  assumes "Rotate db b c s = (Inl e, s')" "rowsAffectedAnswers db"
  shows "rows s' = rows s"
proof (cases "TrimSpace c = []")
  case False
  show ?thesis
  proof (cases "newSecret b")
    case (Inr secret)
    obtain res t where r: "cdbSetHash db (hashSecret secret) (TrimSpace c) s = (res, t)" by fastforce
    show ?thesis
    proof (cases res)
      case (Inr k)
      moreover from this obtain n where "k = Inr n"
        using r assms(2) by (cases k) (auto simp: rowsAffectedAnswers_def dest: spec [of _ s] arg_cong [of _ _ fst])
      ultimately show ?thesis
        using assms(1) r False \<open>newSecret b = Inr secret\<close> setHash_ok [of "hashSecret secret" "TrimSpace c" s k t]
        by (auto simp: Rotate_def Let_def split: if_splits)
    qed (use assms(1) r False Inr setHash_err in \<open>simp add: Rotate_def Let_def\<close>)
  qed (use assms(1) False in \<open>simp add: Rotate_def Let_def\<close>)
qed (use assms(1) in \<open>simp add: Rotate_def\<close>)

lemma Revoke_err:
  assumes "Revoke db c s = (Inl e, s')" "rowsAffectedAnswers db"
  shows "rows s' = rows s"
proof (cases "TrimSpace c = []")
  case False
  obtain res t where r: "cdbRevoke db (TrimSpace c) s = (res, t)" by fastforce
  show ?thesis
  proof (cases res)
    case (Inr k)
    moreover from this obtain n where "k = Inr n"
      using r assms(2) by (cases k) (auto simp: rowsAffectedAnswers_def dest: spec [of _ s] arg_cong [of _ _ fst])
    ultimately show ?thesis
      using assms(1) r False revoke_ok [of "TrimSpace c" s k t]
      by (auto simp: Revoke_def Let_def split: if_splits)
  qed (use assms(1) r False revoke_err in \<open>simp add: Revoke_def Let_def\<close>)
qed (use assms(1) in \<open>simp add: Revoke_def\<close>)

lemma failed_command_keeps_rows:
  assumes "cliEffect (postgresClients db a b) s code s'" "code \<noteq> 0" "rowsAffectedAnswers db"
  shows "rows s' = rows s"
  using assms(1,2) Rotate_err [OF _ assms(3)] Revoke_err [OF _ assms(3)] Register_err
  by (auto simp: cliEffect_def postgresClients_def)

end

lemma tableDB_rowsAffected: "rowsAffectedAnswers tableDB"
  by (auto simp: rowsAffectedAnswers_def tableDB_def tableUpdate_def split: option.splits)

end
