(* ===== verification/Server_StoreProperties.thy ===== *)
theory Server_StoreProperties
  imports Server_PostgresStore Server_Properties
begin

text \<open>
  The properties of the PostgreSQL backend: it implements the same contract as the file, its verdict
  commits to the table, the statements it sends do not depend on the values a caller supplies, and
  where the two backends answer a query alike.
\<close>

section \<open>Rows as a chain\<close>

text \<open>\<open>linkedRows ls rs\<close>: the rows \<open>rs\<close> continue the chain whose links are \<open>ls\<close>, newest first.\<close>

fun linkedRows :: "link list \<Rightarrow> EntryRow list \<Rightarrow> bool" where
  "linkedRows ls [] = True"
| "linkedRows ls (r # rs) \<longleftrightarrow>
     0 < erIndex r \<and> (word_of_int (erIndex r) :: uint64) = word_of_nat (Suc (length ls)) \<and>
     erPrevHash r = sha.headHash ls \<and> erPayloadHash r = sha256Hex (erRecordJson r) \<and>
     erEntryHash r = sha.headHash ((erTs r, erRecordJson r) # ls) \<and>
     linkedRows ((erTs r, erRecordJson r) # ls) rs"

definition rowLinks :: "EntryRow list \<Rightarrow> link list" where
  "rowLinks rs = rev (map (\<lambda>r. (erTs r, erRecordJson r)) rs)"

lemma pgVerifyLoop_linked:
  assumes "vValid (pgVerifyLoop rs (word_of_nat (Suc (length ls))) (sha.headHash ls) (word_of_nat (length ls)))"
  shows "linkedRows ls rs \<and>
    pgVerifyLoop rs (word_of_nat (Suc (length ls))) (sha.headHash ls) (word_of_nat (length ls)) =
      validResult (word_of_nat (length ls + length rs)) (sha.headHash (rowLinks rs @ ls))"
  using assms
proof (induction rs arbitrary: ls)
  case (Cons r rs)
  let ?n = "length ls" and ?l = "(erTs r, erRecordJson r)"
  have pos: "0 < erIndex r" using Cons.prems by (simp add: invalidResult_def split: if_splits)
  have chk: "checkLink (word_of_nat (Suc ?n)) (sha.headHash ls) (word_of_int (erIndex r)) (erTs r) (erPrevHash r)
      (erPayloadHash r) (erEntryHash r) (erRecordJson r) = None"
    using Cons.prems pos by (simp add: invalidResult_def split: option.splits)
  have link: "(word_of_int (erIndex r) :: uint64) = word_of_nat (Suc ?n)" "erPrevHash r = sha.headHash ls"
    "erPayloadHash r = sha256Hex (erRecordJson r)" "erEntryHash r = sha.headHash (?l # ls)"
    using chk by (simp_all add: checkLink_None_iff del: of_nat_Suc)
  have suc: "word_of_nat (Suc m) = (word_of_nat m + 1 :: uint64)" for m by simp
  have step: "pgVerifyLoop (r # rs) (word_of_nat (Suc ?n)) (sha.headHash ls) (word_of_nat ?n) =
      pgVerifyLoop rs (word_of_nat (Suc (length (?l # ls)))) (sha.headHash (?l # ls)) (word_of_nat (length (?l # ls)))"
  proof -
    have "pgVerifyLoop (r # rs) (word_of_nat (Suc ?n)) (sha.headHash ls) (word_of_nat ?n) =
        pgVerifyLoop rs (word_of_nat (Suc ?n) + 1) (erEntryHash r) (word_of_nat ?n + 1)"
      using pos chk by (simp del: of_nat_Suc)
    then show ?thesis by (simp only: link(4) list.size(4) suc add_Suc_right add_0_right)
  qed
  show ?case
    using Cons.IH [of "?l # ls"] Cons.prems pos link unfolding step
    by (simp add: rowLinks_def del: of_nat_Suc sha.headHash.simps)
qed (simp add: rowLinks_def)

lemma linkedRows_determined:
  assumes "linkedRows ls rs" "linkedRows ls rs'" "map (\<lambda>r. (erTs r, erRecordJson r)) rs = map (\<lambda>r. (erTs r, erRecordJson r)) rs'"
    and "\<forall>r\<in>set rs \<union> set rs'. int64 (erIndex r)"
  shows "rs = rs'"
  using assms
proof (induction rs arbitrary: rs' ls)
  case (Cons r rs)
  then obtain r' rs'' where rs': "rs' = r' # rs''" by (cases rs') auto
  have "(word_of_int (erIndex r) :: uint64) = word_of_int (erIndex r')" using Cons.prems rs' by simp
  moreover have "0 < erIndex r" "0 < erIndex r'" "erIndex r < 2 ^ 64" "erIndex r' < 2 ^ 64"
    using Cons.prems(1,2,4) rs' by (simp_all add: int64_def)
  ultimately have "erIndex r = erIndex r'" by (simp add: word_of_int_eq_iff take_bit_int_eq_self)
  then have "r = r'" using Cons.prems rs' by simp
  then show ?case using Cons rs' by auto
qed simp

section \<open>Properties\<close>

text \<open>C7: the PostgreSQL store on a working database.  An append adds one row to the table and
  returns the entry of that row, and the store then verifies with the entry as its head.\<close>

theorem postgres_append_verifies:
  assumes "entries_db db rows healthy storable jf ilike"
    and "healthy s" "rows s = map rowOf es" "chainLog es" "list_all pgReadable es" "Suc (length es) < 2 ^ 63"
    and "okRecord r" "validUtf8 ts" "recordDepth r \<le> maxNestingDepth"
    and "storable (rowOf (nextEntry es ts r))" "eEntryHash (nextEntry es ts r) \<notin> set (map eEntryHash es)"
  shows "\<exists>s'. PostgresStore_Append db ts r s = (Inr (nextEntry es ts r), s') \<and> healthy s' \<and>
    rows s' = rows s @ [rowOf (nextEntry es ts r)] \<and>
    PostgresStore_Verify db s' =
      Inr (validResult (word_of_nat (Suc (length es))) (eEntryHash (nextEntry es ts r)))"
proof -
  note rep_def = entries_db.pgRep_def [OF assms(1)]
  have "entries_db.pgRep rows healthy s es" using assms(2-6) by (simp add: rep_def)
  moreover have "entries_db.pgFits storable es ts r"
    using assms(6,9-11) by (simp add: entries_db.pgFits_def [OF assms(1)])
  ultimately obtain s' where s': "PostgresStore_Append db ts r s = (Inr (nextEntry es ts r), s')"
    "entries_db.pgRep rows healthy s' (es @ [normEntry (nextEntry es ts r)])"
    using entries_db.pgAppend_rep [OF assms(1) _ assms(7,8)] by blast
  then show ?thesis
    using entries_db.pgVerify_rep [OF assms(1) s'(2)] assms(3) by (simp add: rep_def normEntry_next)
qed

text \<open>The table that holds the sample log, and the empty one.\<close>

definition sampleEntries :: EntriesTable where
  "sampleEntries = \<lparr>etRows = map rowOf sampleLog, etDown = False\<rparr>"

definition emptyEntries :: EntriesTable where
  "emptyEntries = \<lparr>etRows = [], etDown = False\<rparr>"

lemma sampleLog_facts: "chainLog sampleLog" "list_all pgReadable sampleLog" "length sampleLog = 2"
proof -
  show "chainLog sampleLog" using sampleStore_rep fstore.rep_chain by blast
  have "recordDepth sampleRecord = 2"
    by (simp add: recordDepth_def recordJson_def sampleRecord_def metadataMembers_def)
  then show "list_all pgReadable sampleLog"
    using sample_ok by (simp add: sampleLog_def Let_def pgReadable_def normEntry_sample maxNestingDepth_def)
      (simp add: nextEntry_def maxNestingDepth_def)
qed (simp add: sampleLog_def Let_def)

lemma sampleEntries_up: "tableUp sampleEntries" "etRows sampleEntries = map rowOf sampleLog"
  by (simp_all add: tableUp_def sampleEntries_def sampleLog_def Let_def rowOf_def nextEntry_def)

theorem postgres_append_verifies_witness:
  "\<exists>s'. PostgresStore_Append entriesTable sampleTime sampleRecord emptyEntries =
      (Inr (nextEntry [] sampleTime sampleRecord), s') \<and>
    PostgresStore_Verify entriesTable s' = Inr (validResult 1 (eEntryHash (nextEntry [] sampleTime sampleRecord)))"
proof -
  have "recordDepth sampleRecord \<le> maxNestingDepth"
    by (simp add: recordDepth_def recordJson_def sampleRecord_def metadataMembers_def maxNestingDepth_def)
  moreover have "rowStorable (rowOf (nextEntry [] sampleTime sampleRecord))"
    by (simp add: rowStorable_def rowOf_def nextEntry_def)
  ultimately show ?thesis
    using postgres_append_verifies [OF ptable.entries_db_axioms, of emptyEntries "[]" sampleRecord sampleTime]
      sample_ok chain_nil by (auto simp: emptyEntries_def tableUp_def)
qed

text \<open>C8: a query of the PostgreSQL store.  A working database is one that answers a statement text as its
  clauses say (\<open>SELECT\<close> list, table, \<open>WHERE\<close> with \<open>AND\<close>, \<open>OR\<close> and brackets, \<open>ORDER BY\<close>, \<open>LIMIT\<close>, \<open>OFFSET\<close>, every \<open>$n\<close>
  replaced by its argument).  The texts the code assembles, run there, select exactly the page the log
  defines, with PostgreSQL's own JSON field access and \<open>ILIKE\<close> left open.\<close>

theorem postgres_query_returns_page:
  assumes "entries_db db rows healthy storable jf ilike"
    and "healthy s" "rows s = map rowOf es" "chainLog es" "list_all pgReadable es" "length es < 2 ^ 63"
    and "0 < qLimit q" "qLimit q < maxInt64" "qAfterIndex q \<le> 9223372036854775807"
  shows "PostgresStore_QueryLogs db q s = Inr (querySpec (\<lambda>q e. pgMatches jf ilike q (payloadOf e)) q es)"
  using assms by (intro entries_db.pgQuery_rep [OF assms(1)]) (simp_all add: entries_db.pgRep_def [OF assms(1)])

theorem postgres_query_returns_page_witness:
  "\<exists>res. PostgresStore_QueryLogs entriesTable sampleQuery sampleEntries = Inr res \<and>
     qrItems res = [nextEntry [] sampleTime sampleRecord] \<and> qrNextCursor res = Some (encodeCursor 1)"
  using postgres_query_returns_page [OF ptable.entries_db_axioms sampleEntries_up sampleLog_facts(1,2), of sampleQuery]
    sampleLog_facts(3)
  by (simp add: querySpec_def queryRest_def sampleLog_def nextEntry_def pgMatches_def sampleQuery_def Let_def)

text \<open>C9: the verdict of the PostgreSQL store commits to the table.  Two tables that verify and report
  one head hash hold the same rows, column by column, or the strings hashed for them contain two
  different ones with the same SHA-256 hash.\<close>

theorem postgres_tamper_evident:
  assumes "edbSelectAll db s = Inr (rs, e)" "PostgresStore_Verify db s = Inr v" "vValid v"
    and "edbSelectAll db s' = Inr (rs', e')" "PostgresStore_Verify db s' = Inr v'" "vValid v'"
    and "vLastHash v = vLastHash v'" "\<forall>r\<in>set rs \<union> set rs'. int64 (erIndex r)"
  shows "rs = rs' \<or> (\<exists>x\<in>set (sha.hashed (rowLinks rs)). \<exists>y\<in>set (sha.hashed (rowLinks rs')). x \<noteq> y \<and> sha256Hex x = sha256Hex y)"
proof -
  have valid: "linkedRows [] rs \<and> vLastHash v = sha.headHash (rowLinks rs)"
    if "edbSelectAll db s = Inr (rs, e)" "PostgresStore_Verify db s = Inr v" "vValid v" for s rs e v
  proof -
    have "v = pgVerifyLoop rs 1 genesis 0"
      using that by (simp add: PostgresStore_Verify_def Let_def split: if_splits option.splits)
    with pgVerifyLoop_linked [of rs "[]"] that(3) show ?thesis by (simp add: validResult_def [of "word_of_nat (length rs)"])
  qed
  note v = valid [OF assms(1-3)] and v' = valid [OF assms(4-6)]
  from sha.headHash_commits [of "rowLinks rs" "rowLinks rs'"] v v' assms(7)
  consider "rowLinks rs = rowLinks rs'"
    | "\<exists>x\<in>set (sha.hashed (rowLinks rs)). \<exists>y\<in>set (sha.hashed (rowLinks rs')). x \<noteq> y \<and> sha256Hex x = sha256Hex y"
    by auto
  then show ?thesis
  proof cases
    case 1
    then have "map (\<lambda>r. (erTs r, erRecordJson r)) rs = map (\<lambda>r. (erTs r, erRecordJson r)) rs'"
      by (simp add: rowLinks_def)
    with linkedRows_determined [of "[]" rs rs'] v v' assms(8) show ?thesis by blast
  qed blast
qed

theorem postgres_tamper_evident_witness:
  "etRows sampleEntries = map rowOf sampleLog \<or>
   (\<exists>x\<in>set (sha.hashed (rowLinks (etRows sampleEntries))). \<exists>y\<in>set (sha.hashed (rowLinks (map rowOf sampleLog))).
      x \<noteq> y \<and> sha256Hex x = sha256Hex y)"
proof (rule postgres_tamper_evident)
  have rep: "ptable.pgRep sampleEntries sampleLog"
    using sampleEntries_up sampleLog_facts by (simp add: ptable.pgRep_def)
  show "PostgresStore_Verify entriesTable sampleEntries = Inr (validResult (word_of_nat (length sampleLog)) (lastHashOf sampleLog))"
    "PostgresStore_Verify entriesTable sampleEntries = Inr (validResult (word_of_nat (length sampleLog)) (lastHashOf sampleLog))"
    by (rule ptable.pgVerify_rep [OF rep])+
  show "edbSelectAll entriesTable sampleEntries = Inr (etRows sampleEntries, None)"
    "edbSelectAll entriesTable sampleEntries = Inr (map rowOf sampleLog, None)"
    using sampleEntries_up by (simp_all add: ptable.selectAll_ok)
  show "\<forall>r\<in>set (etRows sampleEntries) \<union> set (map rowOf sampleLog). int64 (erIndex r)"
    by (simp add: sampleEntries_def sampleLog_def Let_def rowOf_def nextEntry_def int64_def)
qed (simp_all add: validResult_def)

text \<open>Queries that use the same filters, with other values.\<close>

definition sameShape :: "LogQuery \<Rightarrow> LogQuery \<Rightarrow> bool" where
  "sameShape q q' \<longleftrightarrow> (qClientID q = [] \<longleftrightarrow> qClientID q' = []) \<and> (qApp q = [] \<longleftrightarrow> qApp q' = []) \<and>
     (qLevel q = [] \<longleftrightarrow> qLevel q' = []) \<and> (qText q = [] \<longleftrightarrow> qText q' = []) \<and>
     (qAfterIndex q = 0 \<longleftrightarrow> qAfterIndex q' = 0) \<and> (0 < qOffset q \<longleftrightarrow> 0 < qOffset q')"

lemma filters_shape:
  "fst fa = fst fb \<Longrightarrow> length (snd fa) = length (snd fb) \<Longrightarrow> (v = [] \<longleftrightarrow> w = []) \<Longrightarrow>
   fst (addFieldFilter field v fa) = fst (addFieldFilter field w fb) \<and>
   length (snd (addFieldFilter field v fa)) = length (snd (addFieldFilter field w fb))"
  "fst fa = fst fb \<Longrightarrow> length (snd fa) = length (snd fb) \<Longrightarrow> (v = [] \<longleftrightarrow> w = []) \<Longrightarrow>
   fst (addTextFilter v fa) = fst (addTextFilter w fb) \<and>
   length (snd (addTextFilter v fa)) = length (snd (addTextFilter w fb))"
  by (simp_all add: addFieldFilter_def addTextFilter_def Let_def placeholder_def)

lemma pgFilters_shape:
  "sameShape q q' \<Longrightarrow> fst (pgFilters q) = fst (pgFilters q') \<and> length (snd (pgFilters q)) = length (snd (pgFilters q'))"
  unfolding pgFilters_def sameShape_def
  by (intro filters_shape filters_shape [THEN conjunct1] filters_shape [THEN conjunct2]) simp_all

lemma pgFilters_args:
  "snd (pgFilters q) = map ArgText (filter (\<lambda>v. v \<noteq> []) [qClientID q, qApp q, qLevel q]) @
     (if qText q = [] then [] else [ArgText (''%'' @ qText q @ ''%'')])"
  by (simp add: pgFilters_def addFieldFilter_def addTextFilter_def Let_def)

lemma listFilters_args:
  "snd (listFilters q) = snd (pgFilters q) @ (if qAfterIndex q = 0 then [] else [ArgInt (sint (qAfterIndex q))])"
  by (simp add: listFilters_def case_prod_beta Let_def)

lemma listFilters_shape:
  "sameShape q q' \<Longrightarrow> fst (listFilters q) = fst (listFilters q') \<and> length (snd (listFilters q)) = length (snd (listFilters q'))"
  using pgFilters_shape [of q q']
  by (simp add: listFilters_def case_prod_beta Let_def placeholder_def sameShape_def)

text \<open>C10: the text of the statements is independent of the caller's values.  It depends only on which
  filters are present, whether there is a cursor and whether there is an offset.  The values themselves
  travel as arguments, the filters' first, then the cursor, the limit plus one and the offset, and the
  placeholders pick them up: reading each text and replacing every \<open>$n\<close> by argument \<open>n\<close> gives the statement
  that compares each column or field with its own value, lists in index order and has the limit and the
  offset of the query (for a limit that fits, which every parsed query has).\<close>

theorem sql_text_ignores_values:
  assumes "sameShape q q'" "0 \<le> qLimit q" "qLimit q < maxInt64"
  shows "fst (countStmt q) = fst (countStmt q') \<and> fst (listStmt q) = fst (listStmt q') \<and>
    snd (countStmt q) = map ArgText (filter (\<lambda>v. v \<noteq> []) [qClientID q, qApp q, qLevel q]) @
      (if qText q = [] then [] else [ArgText (''%'' @ qText q @ ''%'')]) \<and>
    snd (listStmt q) = snd (countStmt q) @ (if qAfterIndex q = 0 then [] else [ArgInt (sint (qAfterIndex q))]) @
      [ArgInt (qLimit q + 1)] @ (if 0 < qOffset q then [ArgInt (qOffset q)] else []) \<and>
    prepare (fst (countStmt q)) (snd (countStmt q)) =
      Some \<lparr>ssTarget = CountAll, ssTable = ''audit_log_entries'', ssWhere = andAll (filterConds q),
        ssOrder = None, ssLimit = None, ssOffset = None\<rparr> \<and>
    prepare (fst (listStmt q)) (snd (listStmt q)) =
      Some \<lparr>ssTarget = Columns entryColumns, ssTable = ''audit_log_entries'', ssWhere = andAll (listConds q),
        ssOrder = Some (''entry_index'', True), ssLimit = Some (Lit (ArgInt (qLimit q + 1))),
        ssOffset = (if 0 < qOffset q then Some (Lit (ArgInt (qOffset q))) else None)\<rparr>"
proof (intro conjI)
  have lim: "wrap64 (qLimit q + 1) = qLimit q + 1"
    using assms(2,3) by (intro wrap64_id) (simp add: int64_def)
  show "fst (countStmt q) = fst (countStmt q')"
    using pgFilters_shape [OF assms(1)] by (simp add: countStmt_def case_prod_beta)
  show "fst (listStmt q) = fst (listStmt q')"
    using listFilters_shape [OF assms(1)] assms(1) by (simp add: listStmt_eq Let_def placeholder_def sameShape_def)
  show "prepare (fst (countStmt q)) (snd (countStmt q)) =
      Some \<lparr>ssTarget = CountAll, ssTable = ''audit_log_entries'', ssWhere = andAll (filterConds q),
        ssOrder = None, ssLimit = None, ssOffset = None\<rparr>"
    using countStmt_plan [of q] by (simp add: countPlan_def)
  show "prepare (fst (listStmt q)) (snd (listStmt q)) =
      Some \<lparr>ssTarget = Columns entryColumns, ssTable = ''audit_log_entries'', ssWhere = andAll (listConds q),
        ssOrder = Some (''entry_index'', True), ssLimit = Some (Lit (ArgInt (qLimit q + 1))),
        ssOffset = (if 0 < qOffset q then Some (Lit (ArgInt (qOffset q))) else None)\<rparr>"
    using listStmt_plan [of q] assms(2) by (simp add: listPlan_def lim)
  show "snd (listStmt q) = snd (countStmt q) @ (if qAfterIndex q = 0 then [] else [ArgInt (sint (qAfterIndex q))]) @
      [ArgInt (qLimit q + 1)] @ (if 0 < qOffset q then [ArgInt (qOffset q)] else [])"
    by (simp add: listStmt_eq countStmt_def listFilters_args lim case_prod_beta Let_def)
qed (simp add: countStmt_def pgFilters_args case_prod_beta)

theorem sql_text_ignores_values_witness:
  "fst (listStmt (sampleQuery\<lparr>qApp := [CHR 0x27] @ '' OR 1 = 1 --''\<rparr>)) = fst (listStmt (sampleQuery\<lparr>qApp := ''x''\<rparr>)) \<and>
   prepare (fst (countStmt (sampleQuery\<lparr>qApp := [CHR 0x27] @ '' OR 1 = 1 --''\<rparr>))) [ArgText ([CHR 0x27] @ '' OR 1 = 1 --'')] =
     Some \<lparr>ssTarget = CountAll, ssTable = ''audit_log_entries'',
       ssWhere = Some (Cmp EqOp (JsonText ''record_json'' ''app'') (Lit (ArgText ([CHR 0x27] @ '' OR 1 = 1 --'')))),
       ssOrder = None, ssLimit = None, ssOffset = None\<rparr>"
  using sql_text_ignores_values [of "sampleQuery\<lparr>qApp := [CHR 0x27] @ '' OR 1 = 1 --''\<rparr>" "sampleQuery\<lparr>qApp := ''x''\<rparr>"]
  by (auto simp: sameShape_def sampleQuery_def filterConds_def fieldIs_def)

text \<open>C11: the two backends answer alike.  A file and a table that hold one log give the same result to
  every query that filters by client at most: the same page, cursor and total.  (On \<open>app\<close> and \<open>level\<close>
  the file folds case and the table does not.)\<close>

theorem backends_agree:
  assumes "fsRep st es" "entries_db db rows healthy storable jf ilike" "healthy s" "rows s = map rowOf es"
    and "list_all pgReadable es" "\<forall>e\<in>set es. jf (payloadOf e) ''clientId'' =
      (if recClientID (eRecord e) = [] then None else Some (recClientID (eRecord e)))"
    and "qApp q = []" "qLevel q = []" "qText q = []"
    and "0 < qLimit q" "qLimit q < maxInt64" "qAfterIndex q \<le> 9223372036854775807"
  shows "PostgresStore_QueryLogs db q s = FileStore_QueryLogs uc None q st"
proof -
  have es: "chainLog es" "length es < 2 ^ 63" using fstore.rep_chain [OF assms(1)] by auto
  have rep: "entries_db.pgRep rows healthy s es"
    using assms(3-5) es by (simp add: entries_db.pgRep_def [OF assms(2)])
  have m: "pgMatches jf ilike q (payloadOf e) = matchesQuery uc e q" if "e \<in> set es" for e
    using that assms(6-9) by (auto simp: pgMatches_def matchesQuery_def)
  then have "filter (\<lambda>e. pgMatches jf ilike q (payloadOf e)) es = filter (\<lambda>e. matchesQuery uc e q) es"
    by (rule filter_cong [OF refl])
  then have "querySpec (\<lambda>q e. pgMatches jf ilike q (payloadOf e)) q es = querySpec (\<lambda>q e. matchesQuery uc e q) q es"
    by (simp add: querySpec_def queryRest_def)
  with entries_db.pgQuery_rep [OF assms(2) rep assms(10-12)] QueryLogs_rep [OF assms(1), of q uc] assms(10)
  show ?thesis by simp
qed

lemma jsonText_clientId:
  assumes "okRecord r" "recordDepth r \<le> maxNestingDepth"
  shows "jsonText (encodeJson (recordJson r)) ''clientId'' = (if recClientID r = [] then None else Some (recClientID r))"
proof -
  have "parseJson (encodeJson (recordJson r)) = Some (recordJson r)"
    using parseJson_encode [OF okDoc_recordJson [OF assms(1)]] assms(2) by (simp add: recordDepth_def)
  then show ?thesis
    by (auto simp: jsonText_def recordJson_def metadataMembers_def split: option.splits)
qed

theorem backends_agree_witness:
  "PostgresStore_QueryLogs entriesTable (sampleQuery\<lparr>qClientID := ''c1''\<rparr>) sampleEntries =
   FileStore_QueryLogs asciiUnicode None (sampleQuery\<lparr>qClientID := ''c1''\<rparr>) sampleStore"
proof (rule backends_agree [OF sampleStore_rep ptable.entries_db_axioms sampleEntries_up sampleLog_facts(2)])
  show "\<forall>e\<in>set sampleLog. jsonText (payloadOf e) ''clientId'' =
      (if recClientID (eRecord e) = [] then None else Some (recClientID (eRecord e)))"
    using sampleLog_facts(2) by (auto simp: list_all_iff pgReadable_def payloadOf_def jsonText_clientId)
qed (simp_all add: sampleQuery_def)

end
