(* ===== verification/Server_CliProperties.thy ===== *)
theory Server_CliProperties
  imports Server_CLI Server_StoreProperties
begin

text \<open>
  The properties of the command line and of startup: what the exit code of \<open>audit clients\<close> tells, when
  the server starts to listen, and that a usage error is only found after the database was reached.
\<close>

section \<open>Sample environment\<close>

definition sampleEnv :: "string \<Rightarrow> string" where
  "sampleEnv k = (if k = ''DATABASE_URL'' then ''postgres'' else [])"

definition sampleDatabase :: "(ClientsTable, EntriesTable) Database" where
  "sampleDatabase = \<lparr>dbOpen = (\<lambda>_. None), dbPing = None, dbClientsSchema = None, dbClients = tableDB, dbEntries = entriesTable\<rparr>"

definition offlineDatabase :: "(ClientsTable, EntriesTable) Database" where
  "offlineDatabase = sampleDatabase\<lparr>dbPing := Some (ErrDB ''connection refused'')\<rparr>"

lemma sampleEnv_config: "cfgDatabaseURL (loadConfig asciiUnicode sampleEnv) = ''postgres''"
  "TrimSpace ''postgres'' = ''postgres''" "TrimSpace ''file'' = ''file''"
  "cfgStorageBackend (loadConfig asciiUnicode sampleEnv) = ''file''"
proof -
  have trim: "TrimSpace ''postgres'' = ''postgres''" "TrimSpace ''file'' = ''file''"
    by (rule TrimSpace_id, simp_all add: edgeByte_def goSpaces_def)+
  then show "TrimSpace ''postgres'' = ''postgres''" "TrimSpace ''file'' = ''file''" .
  show "cfgDatabaseURL (loadConfig asciiUnicode sampleEnv) = ''postgres''"
    using trim by (simp add: loadConfig_def Let_def getEnv_def sampleEnv_def)
  show "cfgStorageBackend (loadConfig asciiUnicode sampleEnv) = ''file''"
    by (simp add: loadConfig_def Let_def getEnv_def sampleEnv_def ToLower_def lowerByte_def isASCII_def)
qed

section \<open>Properties\<close>

text \<open>C37: the exit code of \<open>audit clients\<close> is 0, 1 or 2, and a code other than 0 means that no client
  changed (in a registry where a statement that returned an error changed nothing); a usage error (2) did
  not even call the registry.\<close>

theorem cli_failures_change_nothing:
  assumes "clients_db (dbClients d) rows" "rowsAffectedAnswers (dbClients d)"
    and "runClientsCommand uc env d rndId rndSecret args s = ((code, out), s')"
  shows "code \<in> {0, 1, 2} \<and> (code \<noteq> 0 \<longrightarrow> rows s' = rows s) \<and> (code = 2 \<longrightarrow> s' = s)"
proof (cases "code = 2 \<and> s' = s \<or> code = 1 \<and> s' = s")
  case False
  then obtain c rest where args: "args = c # rest" using assms(3) by (cases args) auto
  have "runClientsCLI (postgresClients (dbClients d) rndId rndSecret) args s = ((code, out), s')"
    using assms(3) False
    by (auto simp: args NewPostgresClientStore_def Let_def simp del: runClientsCLI.simps split: if_splits option.splits)
  from runClientsCLI_effect [OF this] clients_db.failed_command_keeps_rows [OF assms(1) this [THEN runClientsCLI_effect] _ assms(2)]
  show ?thesis by (auto simp: cliEffect_def)
qed auto

theorem cli_failures_change_nothing_witness:
  "fst (fst (runClientsCommand asciiUnicode sampleEnv sampleDatabase (Inr []) (Inr []) [''lst''] blankTable)) \<in> {0, 1, 2} \<and>
   tbRows (snd (runClientsCommand asciiUnicode sampleEnv sampleDatabase (Inr []) (Inr []) [''lst''] blankTable)) = []"
proof -
  have run: "runClientsCommand asciiUnicode sampleEnv sampleDatabase (Inr []) (Inr []) [''lst''] blankTable =
      ((2, [OutFmt ''unknown command %q'' [OutStr ''lst''], OutLine [], OutLine clientsUsage]), blankTable)"
    by (simp add: isClientsCommand_iff)
  have "clients_db (dbClients sampleDatabase) (\<lambda>t. map_of (tbRows t))" "rowsAffectedAnswers (dbClients sampleDatabase)"
    using table.clients_db_axioms tableDB_rowsAffected by (simp_all add: sampleDatabase_def)
  from cli_failures_change_nothing [OF this run] run show ?thesis by (simp add: blankTable_def)
qed

text \<open>C36: the server listens only on a log that verifies.  Whichever backend is configured, when \<open>main\<close>
  reaches the listener a database is configured and the store it serves was just accepted by \<open>Verify\<close>;
  the file store continues from the verified head and size.\<close>

theorem listens_on_valid_log_only:
  assumes "serverMain uc env d io disk rndId rndSecret args s es = (Listens addr cfg clients backend, s')"
  shows "s' = s \<and> cfg = loadConfig uc env \<and> TrimSpace (cfgDatabaseURL cfg) \<noteq> [] \<and> addr = ListenAddr cfg \<and>
    (case backend of
       FileBackend st \<Rightarrow> \<exists>v. FileStore_Verify None st = Inr v \<and> vValid v \<and>
         fsLastHash st = vLastHash v \<and> fsLastIndex st = vTotalEntries v
     | PostgresBackend db e \<Rightarrow> db = dbEntries d \<and> e = es \<and> (\<exists>v. PostgresStore_Verify db e = Inr v \<and> vValid v))"
proof -
  have f: "\<exists>v. FileStore_Verify None st = Inr v \<and> vValid v \<and> fsLastHash st = vLastHash v \<and> fsLastIndex st = vTotalEntries v"
    if "NewFileStore io f = Inr st" for f st
    using that by (auto simp: NewFileStore_def FileStore_Verify_def verifyChainUnsafe_def Let_def
        split: option.splits sum.splits if_splits)
  have p: "db = dbEntries d \<and> (\<exists>v. PostgresStore_Verify db es = Inr v \<and> vValid v)"
    if "NewPostgresStore (Some (dbEntries d)) es = Inr db" for db
    using that by (auto simp: NewPostgresStore_def split: option.splits sum.splits if_splits)
  show ?thesis
    using assms by (auto simp: serverMain_def Let_def split: if_splits option.splits sum.splits prod.splits dest: f p)
qed

theorem listens_on_valid_log_only_witness:
  "\<exists>st v. fst (serverMain asciiUnicode sampleEnv sampleDatabase noFaults (\<lambda>_. None) (Inr []) (Inr []) [] blankTable emptyEntries) =
      Listens (ListenAddr (loadConfig asciiUnicode sampleEnv)) (loadConfig asciiUnicode sampleEnv) tableDB (FileBackend st) \<and>
    FileStore_Verify None st = Inr v \<and> vValid v"
proof -
  have main: "serverMain asciiUnicode sampleEnv sampleDatabase noFaults (\<lambda>_. None) (Inr []) (Inr []) [] blankTable emptyEntries =
      (Listens (ListenAddr (loadConfig asciiUnicode sampleEnv)) (loadConfig asciiUnicode sampleEnv) tableDB
        (FileBackend emptyStore), blankTable)"
    by (simp add: serverMain_def Let_def sampleEnv_config sampleDatabase_def NewPostgresClientStore_def
        NewFileStore_fresh emptyStore_def)
  from listens_on_valid_log_only [OF main] main show ?thesis by auto
qed

text \<open>A missing flag is a usage error, yet it is found only after the database: with the database
  out of reach the command exits with 1, not 2, for every subcommand and every flags.\<close>

lemma flags_need_database:
  assumes "isClientsCommand c" "dbPing d = Some e"
  shows "fst (fst (runClientsCommand uc env d rndId rndSecret (c # flags) s)) = 1 \<and>
    fst (fst (runClientsCLI store [''register''] s)) = 2"
  using assms by (simp add: Let_def clientsHandlers_def clientsRegister_def flagString_def split: option.split)

end
