(* ===== verification/Go_Http.thy ===== *)
theory Go_Http
  imports Server_Model
begin

text \<open>
  The client side of \<open>net/http\<close>: a request with its header, and what an exchange can end in.  Header
  names are kept in canonical form, as \<open>Header.Set\<close> and \<open>Header.Get\<close> do.
\<close>

definition isTokenByte :: "char \<Rightarrow> bool" where
  "isTokenByte c \<longleftrightarrow> c \<in> set ''!#$%&*+-.^_`|~0123456789abcdefghijklmnopqrstuvwxyzABCDEFGHIJKLMNOPQRSTUVWXYZ'' \<or> c = CHR 0x27"

fun canonBytes :: "bool \<Rightarrow> string \<Rightarrow> string" where
  "canonBytes up [] = []"
| "canonBytes up (c # s) = (if up then upperByte c else lowerByte c) # canonBytes (c = CHR ''-'') s"

definition CanonicalHeaderKey :: "string \<Rightarrow> string" where
  "CanonicalHeaderKey k = (if list_all isTokenByte k then canonBytes True k else k)"

type_synonym header = "string \<Rightarrow> string option"

definition headerSet :: "string \<Rightarrow> string \<Rightarrow> header \<Rightarrow> header" where
  "headerSet k v h = h(CanonicalHeaderKey k \<mapsto> v)"

definition headerGet :: "header \<Rightarrow> string \<Rightarrow> string" where
  "headerGet h k = (case h (CanonicalHeaderKey k) of None \<Rightarrow> [] | Some v \<Rightarrow> v)"

record HttpRequest =
  hqMethod :: string
  hqURL :: string
  hqHeader :: header
  hqBody :: string

text \<open>\<open>Do\<close> fails, or the body cannot be read, or the reply is complete.\<close>

datatype exchange = DoFails goerror | ReadFails goerror | Replies nat string

end
