(* ===== verification/Client_Lib.thy ===== *)
theory Client_Lib
  imports Go_Http
begin

text \<open>
  \<open>clients/go-lib/client.go\<close>: the Go client with its retries, and \<open>clients/go-producer/main.go\<close>, which
  sends one record.  Durations are nanoseconds in \<open>int64\<close> with their wrap-around.  The transport, the
  random source and the timer are a parameter; what the client does is recorded as a list of events.
\<close>

section \<open>Types\<close>

record LogRequest =
  lqApp :: string
  lqLevel :: string
  lqMessage :: string
  lqMetadata :: "gomap option"

record LogResponse =
  lrIndex :: uint64
  lrTimestamp :: string
  lrEntryHash :: string
  lrPrevHash :: string

record RetryConfig =
  rcMaxAttempts :: int
  rcInitialBackoff :: int
  rcMaxBackoff :: int
  rcMaxJitter :: int
  rcJitterStrategy :: string

text \<open>\<open>clHeaders\<close> lists the map in the order its iteration visits, the same one for every attempt (Go may choose
  another; the order only matters for two keys that are equal up to case); \<open>clOnRetry\<close> tells whether a callback
  is set.\<close>

record Client =
  clEndpoint :: string
  clRetry :: RetryConfig
  clAuthToken :: string
  clHeaders :: "(string \<times> string) list"
  clOnRetry :: bool

datatype clientEvent = Sent HttpRequest | OnRetry int int goerror | Slept int

text \<open>\<open>cwInt63n n\<close> is \<open>rand.Int63n(n)\<close>, \<open>cwSleep d\<close> the error of a context that ends before the timer.\<close>

record 'w ClientWorld =
  cwNewRequest :: "string \<Rightarrow> goerror option"
  cwDo :: "HttpRequest \<Rightarrow> 'w \<Rightarrow> exchange \<times> 'w"
  cwInt63n :: "int \<Rightarrow> 'w \<Rightarrow> int \<times> 'w"
  cwSleep :: "int \<Rightarrow> 'w \<Rightarrow> goerror option \<times> 'w"

abbreviation (input) milliseconds :: int where "milliseconds \<equiv> 1000000"
abbreviation (input) seconds :: int where "seconds \<equiv> 1000000000"

definition NewClient :: "string \<Rightarrow> Client" where
  "NewClient endpoint0 =
     (let endpoint = TrimSpace endpoint0 in
      \<lparr>clEndpoint = (if endpoint = [] then ''http://localhost:8080/v1/logs'' else endpoint),
       clRetry = \<lparr>rcMaxAttempts = 1, rcInitialBackoff = 100 * milliseconds, rcMaxBackoff = 2 * seconds,
                  rcMaxJitter = 100 * milliseconds, rcJitterStrategy = ''full''\<rparr>,
       clAuthToken = [], clHeaders = [], clOnRetry = False\<rparr>)"

section \<open>Bodies\<close>

definition requestJson :: "LogRequest \<Rightarrow> json" where
  "requestJson p = JObj
     ([(''app'', JStr (lqApp p)), (''level'', JStr (lqLevel p)), (''message'', JStr (lqMessage p))] @
      metadataMembers (lqMetadata p))"

definition responseFields :: "string list" where
  "responseFields = [''index'', ''timestamp'', ''entryHash'', ''prevHash'']"

definition setResponseField :: "string \<Rightarrow> json \<Rightarrow> LogResponse \<Rightarrow> LogResponse option" where
  "setResponseField f v r =
     (if f = ''index'' then map_option (\<lambda>i. r\<lparr>lrIndex := i\<rparr>) (decodeUint64 v (lrIndex r))
      else if f = ''timestamp'' then map_option (\<lambda>s. r\<lparr>lrTimestamp := s\<rparr>) (decodeString v (lrTimestamp r))
      else if f = ''entryHash'' then map_option (\<lambda>s. r\<lparr>lrEntryHash := s\<rparr>) (decodeString v (lrEntryHash r))
      else map_option (\<lambda>s. r\<lparr>lrPrevHash := s\<rparr>) (decodeString v (lrPrevHash r)))"

definition unmarshalResponse :: "string \<Rightarrow> LogResponse option" where
  "unmarshalResponse s = (case parseJson s of
      None \<Rightarrow> None
    | Some v \<Rightarrow> decodeStruct responseFields setResponseField v
        \<lparr>lrIndex = 0, lrTimestamp = [], lrEntryHash = [], lrPrevHash = []\<rparr>)"

section \<open>Delays\<close>

definition shouldRetryStatus :: "nat \<Rightarrow> bool" where
  "shouldRetryStatus status \<longleftrightarrow> status = 429 \<or> 500 \<le> status"

definition normalizeJitterStrategy :: "string \<Rightarrow> string" where
  "normalizeJitterStrategy strategy =
     (if strategy = ''equal'' \<or> strategy = ''decorrelated'' then strategy else ''full'')"

text \<open>\<open>rand.Int63n\<close> panics on an argument that is not positive.\<close>

definition int63n :: "'w ClientWorld \<Rightarrow> int \<Rightarrow> 'w \<Rightarrow> int result \<times> 'w" where
  "int63n w n s = (if n \<le> 0 then (Inl (ErrPanic ''invalid argument to Int63n''), s)
                   else (let (r, s') = cwInt63n w n s in (Inr r, s')))"

definition randomJitter :: "'w ClientWorld \<Rightarrow> int \<Rightarrow> 'w \<Rightarrow> int result \<times> 'w" where
  "randomJitter w m s = (if m \<le> 0 then (Inr 0, s) else int63n w (wrap64 (m + 1)) s)"

definition randomDuration :: "'w ClientWorld \<Rightarrow> int \<Rightarrow> int \<Rightarrow> 'w \<Rightarrow> int result \<times> 'w" where
  "randomDuration w lo hi s =
     (if hi \<le> lo then (Inr lo, s)
      else (let delta = wrap64 (hi - lo) in
            case int63n w (wrap64 (delta + 1)) s of
              (Inl e, s') \<Rightarrow> (Inl e, s')
            | (Inr r, s') \<Rightarrow> (Inr (wrap64 (lo + r)), s')))"

definition computeRetryDelay :: "'w ClientWorld \<Rightarrow> int \<Rightarrow> int \<Rightarrow> int \<Rightarrow> int \<Rightarrow> int \<Rightarrow> string \<Rightarrow> 'w \<Rightarrow> int result \<times> 'w" where
  "computeRetryDelay w base previousDelay initialBackoff maxBackoff maxJitter strategy s =
     (if strategy = ''equal'' then
        (let half = maxJitter div 2 in
         case randomJitter w half s of
           (Inl e, s') \<Rightarrow> (Inl e, s') | (Inr j, s') \<Rightarrow> (Inr (wrap64 (wrap64 (base + half) + j)), s'))
      else if strategy = ''decorrelated'' then
        (let lower = initialBackoff;
             upper0 = wrap64 (previousDelay * 3);
             upper1 = (if upper0 < lower then lower else upper0);
             upper2 = (if maxBackoff < upper1 then maxBackoff else upper1);
             jitterCap = wrap64 (lower + maxJitter);
             upper = (if 0 < maxJitter \<and> jitterCap < upper2 then jitterCap else upper2)
         in randomDuration w lower upper s)
      else (case randomJitter w maxJitter s of
           (Inl e, s') \<Rightarrow> (Inl e, s') | (Inr j, s') \<Rightarrow> (Inr (wrap64 (base + j)), s')))"

section \<open>WriteLog\<close>

fun setHeaders :: "(string \<times> string) list \<Rightarrow> header \<Rightarrow> header" where
  "setHeaders [] h = h"
| "setHeaders ((k, v) # kvs) h = setHeaders kvs (if TrimSpace k = [] then h else headerSet k v h)"

definition buildRequest :: "Client \<Rightarrow> string \<Rightarrow> HttpRequest" where
  "buildRequest c body =
     (let h0 = headerSet ''content-type'' ''application/json'' Map.empty;
          h1 = (if TrimSpace (clAuthToken c) = [] then h0
                else headerSet ''authorization'' (''Bearer '' @ TrimSpace (clAuthToken c)) h0)
      in \<lparr>hqMethod = ''POST'', hqURL = clEndpoint c, hqHeader = setHeaders (clHeaders c) h1, hqBody = body\<rparr>)"

text \<open>How one reply ends the call, or the error that may be retried.\<close>

definition judgeReply :: "exchange \<Rightarrow> LogResponse result + goerror" where
  "judgeReply x =
     (case x of
        DoFails e \<Rightarrow> Inr e
      | ReadFails e \<Rightarrow> Inr e
      | Replies status body \<Rightarrow>
          if 300 \<le> status then
            (let lastErr = ErrMsg (''audit service returned '' @ FormatUint status @ '': '' @ TrimSpace body)
             in if shouldRetryStatus status then Inr lastErr else Inl (Inl lastErr))
          else (case unmarshalResponse body of
              None \<Rightarrow> Inl (Inl (ErrWrap ''parse response'' ErrJSON))
            | Some out \<Rightarrow> Inl (Inr out)))"

text \<open>The retry settings after their defaults.\<close>

definition effectiveRetry :: "RetryConfig \<Rightarrow> RetryConfig" where
  "effectiveRetry r =
     \<lparr>rcMaxAttempts = (if rcMaxAttempts r \<le> 0 then 1 else rcMaxAttempts r),
      rcInitialBackoff = (if rcInitialBackoff r \<le> 0 then 100 * milliseconds else rcInitialBackoff r),
      rcMaxBackoff = (if rcMaxBackoff r \<le> 0 then 2 * seconds else rcMaxBackoff r),
      rcMaxJitter = (if rcMaxJitter r < 0 then 0 else rcMaxJitter r),
      rcJitterStrategy = normalizeJitterStrategy (rcJitterStrategy r)\<rparr>"

definition nextBackoff :: "int \<Rightarrow> int \<Rightarrow> int" where
  "nextBackoff maxBackoff backoff =
     (let b = wrap64 (backoff * 2) in if maxBackoff < b then maxBackoff else b)"

text \<open>The attempts that remain, the number of this one, and the loop's variables.\<close>

fun writeLoop :: "'w ClientWorld \<Rightarrow> Client \<Rightarrow> RetryConfig \<Rightarrow> string \<Rightarrow> nat \<Rightarrow> int \<Rightarrow> int \<Rightarrow> int \<Rightarrow> goerror option \<Rightarrow> 'w
    \<Rightarrow> LogResponse result \<times> clientEvent list \<times> 'w" where
  "writeLoop w c r body 0 attempt backoff previousDelay lastErr s =
     (Inl (case lastErr of None \<Rightarrow> ErrMsg ''failed to write log'' | Some e \<Rightarrow> e), [], s)"
| "writeLoop w c r body (Suc n) attempt backoff previousDelay lastErr s =
     (case cwNewRequest w (clEndpoint c) of
        Some e \<Rightarrow> (Inl e, [], s)
      | None \<Rightarrow>
          (let req = buildRequest c body; (x, s1) = cwDo w req s in
           case judgeReply x of
             Inl res \<Rightarrow> (res, [Sent req], s1)
           | Inr err \<Rightarrow>
               if n = 0 then (Inl err, [Sent req], s1)
               else
                 (case computeRetryDelay w backoff previousDelay (rcInitialBackoff r) (rcMaxBackoff r) (rcMaxJitter r)
                         (rcJitterStrategy r) s1 of
                    (Inl e, s2) \<Rightarrow> (Inl e, [Sent req], s2)
                  | (Inr delay, s2) \<Rightarrow>
                      (let notes = (if clOnRetry c then [OnRetry attempt delay err] else []) in
                       case cwSleep w delay s2 of
                         (Some e, s3) \<Rightarrow> (Inl e, Sent req # notes, s3)
                       | (None, s3) \<Rightarrow>
                           (let (res, ev, s4) = writeLoop w c r body n (attempt + 1)
                                  (nextBackoff (rcMaxBackoff r) backoff) delay (Some err) s3
                            in (res, Sent req # notes @ Slept delay # ev, s4))))))"

definition WriteLog :: "'w ClientWorld \<Rightarrow> Client \<Rightarrow> LogRequest \<Rightarrow> 'w \<Rightarrow> LogResponse result \<times> clientEvent list \<times> 'w" where
  "WriteLog w c payload0 s =
     (let payload1 = payload0\<lparr>lqApp := TrimSpace (lqApp payload0), lqLevel := TrimSpace (lqLevel payload0),
                             lqMessage := TrimSpace (lqMessage payload0)\<rparr>
      in if lqApp payload1 = [] \<or> lqLevel payload1 = [] \<or> lqMessage payload1 = []
         then (Inl (ErrMsg ''app, level, and message are required''), [], s)
         else
           (let payload = (if lqMetadata payload1 = None then payload1\<lparr>lqMetadata := Some []\<rparr> else payload1) in
            case Marshal (requestJson payload) of
              None \<Rightarrow> (Inl ErrJSON, [], s)
            | Some body \<Rightarrow>
                (let r = effectiveRetry (clRetry c) in
                 writeLoop w c r body (nat (rcMaxAttempts r)) 1 (rcInitialBackoff r) (rcInitialBackoff r) None s)))"

section \<open>The producer\<close>

definition producerEnv :: "(string \<Rightarrow> string) \<Rightarrow> string \<Rightarrow> string \<Rightarrow> string" where
  "producerEnv env key fallback = (if env key = [] then fallback else env key)"

definition producerMain :: "(string \<Rightarrow> string) \<Rightarrow> string \<Rightarrow> 'w ClientWorld \<Rightarrow> 'w \<Rightarrow> string result \<times> clientEvent list \<times> 'w" where
  "producerMain env now w s =
     (let endpoint = producerEnv env ''AUDIT_LOG_URL'' ''http://localhost:8080/v1/logs'';
          appName = producerEnv env ''AUDIT_APP_NAME'' ''go-producer'';
          client = (NewClient endpoint)\<lparr>clAuthToken := producerEnv env ''AUDIT_TOKEN'' []\<rparr>;
          payload = \<lparr>lqApp = appName, lqLevel = ''INFO'', lqMessage = ''example log from Go producer'',
                     lqMetadata = Some [(''emittedAt'', JStr now), (''service'', JStr appName), (''traceId'', JStr ''trace-go-123'')]\<rparr>
      in case WriteLog w client payload s of
           (Inl e, ev, s') \<Rightarrow> (Inl e, ev, s')
         | (Inr r, ev, s') \<Rightarrow>
             (Inr (''log accepted: index='' @ FormatUint (unat (lrIndex r)) @ '' entryHash='' @ lrEntryHash r), ev, s'))"

section \<open>Bounds\<close>

text \<open>What \<open>rand.Int63n\<close> promises.\<close>

definition okRandom :: "'w ClientWorld \<Rightarrow> bool" where
  "okRandom w \<longleftrightarrow> (\<forall>n s. 0 < n \<longrightarrow> 0 \<le> fst (cwInt63n w n s) \<and> fst (cwInt63n w n s) < n)"

text \<open>Settings below 2 to the 60 nanoseconds, some 36 years.\<close>

definition saneRetry :: "RetryConfig \<Rightarrow> bool" where
  "saneRetry r \<longleftrightarrow> rcInitialBackoff r \<le> 1152921504606846976 \<and> rcMaxBackoff r \<le> 1152921504606846976 \<and>
     rcMaxJitter r \<le> 1152921504606846976"

definition delayOk :: "RetryConfig \<Rightarrow> int \<Rightarrow> bool" where
  "delayOk r d \<longleftrightarrow> min (rcInitialBackoff r) (rcMaxBackoff r) \<le> d \<and>
     d \<le> max (rcInitialBackoff r) (rcMaxBackoff r) + rcMaxJitter r"

lemma int63n_bound: "okRandom w \<Longrightarrow> 0 < n \<Longrightarrow> \<exists>j s'. int63n w n s = (Inr j, s') \<and> 0 \<le> j \<and> j < n"
  by (cases "cwInt63n w n s") (force simp: int63n_def okRandom_def dest: spec [of _ n] spec [of _ s])

lemma randomJitter_bound:
  assumes "okRandom w" "0 \<le> m" "m \<le> 1152921504606846976"
  shows "\<exists>j s'. randomJitter w m s = (Inr j, s') \<and> 0 \<le> j \<and> j \<le> m"
proof (cases "m = 0")
  case False
  have "wrap64 (m + 1) = m + 1" using assms by (intro wrap64_id) (simp add: int64_def)
  moreover obtain j s' where "int63n w (m + 1) s = (Inr j, s')" "0 \<le> j" "j < m + 1"
    using int63n_bound [OF assms(1), of "m + 1" s] assms(2) by auto
  ultimately show ?thesis using False assms(2) by (simp add: randomJitter_def)
qed (simp add: randomJitter_def)

lemma randomDuration_bound:
  assumes "okRandom w" "0 \<le> lo" "lo \<le> 1152921504606846976" "hi \<le> 1152921504606846976"
  shows "\<exists>d s'. randomDuration w lo hi s = (Inr d, s') \<and> lo \<le> d \<and> d \<le> max lo hi"
proof (cases "hi \<le> lo")
  case False
  have w: "wrap64 (hi - lo) = hi - lo" "wrap64 (hi - lo + 1) = hi - lo + 1"
    using assms False by (auto intro!: wrap64_id simp: int64_def)
  obtain j s' where j: "int63n w (hi - lo + 1) s = (Inr j, s')" "0 \<le> j" "j < hi - lo + 1"
    using int63n_bound [OF assms(1), of "hi - lo + 1" s] False by auto
  then have "wrap64 (lo + j) = lo + j" using assms by (intro wrap64_id) (simp add: int64_def)
  then show ?thesis using False w j by (simp add: randomDuration_def Let_def)
qed (simp add: randomDuration_def)

lemma computeRetryDelay_bound:
  assumes "okRandom w" "saneRetry r" "0 < rcInitialBackoff r" "0 < rcMaxBackoff r" "0 \<le> rcMaxJitter r"
    and base: "min (rcInitialBackoff r) (rcMaxBackoff r) \<le> base" "base \<le> max (rcInitialBackoff r) (rcMaxBackoff r)"
    and prev: "0 \<le> prev" "prev \<le> 2305843009213693952"
  shows "\<exists>d s'. computeRetryDelay w base prev (rcInitialBackoff r) (rcMaxBackoff r) (rcMaxJitter r) st s = (Inr d, s') \<and> delayOk r d"
proof -
  let ?I = "rcInitialBackoff r" and ?M = "rcMaxBackoff r" and ?J = "rcMaxJitter r"
  have lim: "?I \<le> 1152921504606846976" "?M \<le> 1152921504606846976" "?J \<le> 1152921504606846976"
    using assms(2) by (simp_all add: saneRetry_def)
  consider "st = ''equal''" | "st = ''decorrelated''" | "st \<noteq> ''equal''" "st \<noteq> ''decorrelated''" by blast
  then show ?thesis
  proof cases
    case 1
    have half: "0 \<le> ?J div 2" "?J div 2 \<le> 1152921504606846976" using assms(5) lim(3) by linarith+
    obtain j s' where j: "randomJitter w (?J div 2) s = (Inr j, s')" "0 \<le> j" "j \<le> ?J div 2"
      using randomJitter_bound [OF assms(1) half] by blast
    have "wrap64 (base + ?J div 2) = base + ?J div 2" "wrap64 (base + ?J div 2 + j) = base + ?J div 2 + j"
      using base lim assms(3-5) j by (auto intro!: wrap64_id simp: int64_def)
    then show ?thesis using 1 j base assms(5) by (auto simp: computeRetryDelay_def Let_def delayOk_def)
  next
    case 2
    let ?u0 = "prev * 3"
    have w: "wrap64 ?u0 = ?u0" "wrap64 (?I + ?J) = ?I + ?J"
      using prev lim assms(3-5) by (auto intro!: wrap64_id simp: int64_def)
    define u where "u = (let u1 = (if ?u0 < ?I then ?I else ?u0); u2 = (if ?M < u1 then ?M else u1)
      in if 0 < ?J \<and> ?I + ?J < u2 then ?I + ?J else u2)"
    have "u \<le> ?M" using assms(5) by (auto simp: u_def Let_def)
    moreover obtain d s' where "randomDuration w ?I u s = (Inr d, s')" "?I \<le> d" "d \<le> max ?I u"
      using randomDuration_bound [OF assms(1), of ?I u s] assms(3) lim(1,2) \<open>u \<le> ?M\<close> by auto
    moreover have "computeRetryDelay w base prev ?I ?M ?J st s = randomDuration w ?I u s"
      using w 2 by (auto simp: computeRetryDelay_def u_def Let_def)
    ultimately show ?thesis using assms(5) by (auto simp: delayOk_def)
  next
    case 3
    obtain j s' where j: "randomJitter w ?J s = (Inr j, s')" "0 \<le> j" "j \<le> ?J"
      using randomJitter_bound [OF assms(1,5) lim(3)] by blast
    have "wrap64 (base + j) = base + j" using base lim assms(3-5) j by (auto intro!: wrap64_id simp: int64_def)
    then show ?thesis using 3 j base by (auto simp: computeRetryDelay_def delayOk_def)
  qed
qed

lemma nextBackoff_bound:
  assumes "0 < i" "0 < m" "i \<le> 1152921504606846976" "m \<le> 1152921504606846976" "min i m \<le> b" "b \<le> max i m"
  shows "min i m \<le> nextBackoff m b \<and> nextBackoff m b \<le> max i m"
proof -
  have "wrap64 (b * 2) = b * 2" using assms by (intro wrap64_id) (auto simp: int64_def)
  then show ?thesis using assms by (auto simp: nextBackoff_def Let_def)
qed

definition isSent :: "clientEvent \<Rightarrow> bool" where
  "isSent e = (case e of Sent _ \<Rightarrow> True | _ \<Rightarrow> False)"

text \<open>What a run may do: repeat one request at most \<open>n\<close> times and sleep within the bounds.\<close>

definition runOk :: "HttpRequest \<Rightarrow> RetryConfig \<Rightarrow> nat \<Rightarrow> clientEvent list \<Rightarrow> bool" where
  "runOk req r n ev \<longleftrightarrow> length (filter isSent ev) \<le> n \<and>
     list_all (\<lambda>e. case e of Sent q \<Rightarrow> q = req | Slept d \<Rightarrow> delayOk r d | OnRetry _ d _ \<Rightarrow> delayOk r d) ev"

lemma writeLoop_runOk:
  assumes "okRandom w" "saneRetry r" "0 < rcInitialBackoff r" "0 < rcMaxBackoff r" "0 \<le> rcMaxJitter r"
    and "min (rcInitialBackoff r) (rcMaxBackoff r) \<le> b" "b \<le> max (rcInitialBackoff r) (rcMaxBackoff r)"
    and "0 \<le> prev" "prev \<le> 2305843009213693952"
  shows "runOk (buildRequest c body) r n (fst (snd (writeLoop w c r body n a b prev le s)))"
  using assms(6-)
proof (induction n arbitrary: a b prev le s)
  case (Suc n)
  have lim: "rcInitialBackoff r \<le> 1152921504606846976" "rcMaxBackoff r \<le> 1152921504606846976"
    "rcMaxJitter r \<le> 1152921504606846976" using assms(2) by (simp_all add: saneRetry_def)
  obtain x s1 where x: "cwDo w (buildRequest c body) s = (x, s1)" by fastforce
  obtain d s2 where d: "computeRetryDelay w b prev (rcInitialBackoff r) (rcMaxBackoff r) (rcMaxJitter r)
      (rcJitterStrategy r) s1 = (Inr d, s2)" "delayOk r d"
    using computeRetryDelay_bound [OF assms(1-5) Suc.prems, of "rcJitterStrategy r" s1] by blast
  obtain e s3 where e: "cwSleep w d s2 = (e, s3)" by fastforce
  have "0 \<le> d" "d \<le> 2305843009213693952" using d(2) lim assms(3-5) by (auto simp: delayOk_def)
  with Suc.IH [of "nextBackoff (rcMaxBackoff r) b" d] nextBackoff_bound [OF assms(3,4) lim(1,2) Suc.prems(1,2)]
  have IH: "runOk (buildRequest c body) r n (fst (snd (writeLoop w c r body n (a + 1)
      (nextBackoff (rcMaxBackoff r) b) d le' s3)))" for le' by blast
  show ?case
    using x d e IH
    by (auto simp: runOk_def isSent_def Let_def case_prod_beta split: option.split sum.split)
qed (simp add: runOk_def)

lemma effectiveRetry_pos:
  "0 < rcMaxAttempts (effectiveRetry r)" "0 < rcInitialBackoff (effectiveRetry r)"
  "0 < rcMaxBackoff (effectiveRetry r)" "0 \<le> rcMaxJitter (effectiveRetry r)"
  "saneRetry r \<Longrightarrow> saneRetry (effectiveRetry r)"
  by (auto simp: effectiveRetry_def saneRetry_def)

lemma WriteLog_runOk:
  assumes "okRandom w" "saneRetry (clRetry c)" "WriteLog w c p s = (res, ev, s')"
  shows "\<exists>req. runOk req (effectiveRetry (clRetry c)) (nat (rcMaxAttempts (effectiveRetry (clRetry c)))) ev"
proof -
  let ?r = "effectiveRetry (clRetry c)"
  note pos = effectiveRetry_pos(2-4) [of "clRetry c"] and sane = effectiveRetry_pos(5) [OF assms(2)]
  have "rcInitialBackoff ?r \<le> 2305843009213693952" using sane by (simp add: saneRetry_def)
  then have "runOk (buildRequest c body) ?r (nat (rcMaxAttempts ?r))
      (fst (snd (writeLoop w c ?r body (nat (rcMaxAttempts ?r)) 1 (rcInitialBackoff ?r) (rcInitialBackoff ?r) None s)))" for body
    using pos by (intro writeLoop_runOk [OF assms(1) sane]) auto
  then have loop: "\<exists>req. runOk req ?r (nat (rcMaxAttempts ?r))
      (fst (snd (writeLoop w c ?r body (nat (rcMaxAttempts ?r)) 1 (rcInitialBackoff ?r) (rcInitialBackoff ?r) None s)))" for body
    by blast
  have none: "runOk req ?r k []" for req k by (simp add: runOk_def)
  obtain body where "ev = [] \<or> ev = fst (snd (writeLoop w c ?r body (nat (rcMaxAttempts ?r)) 1 (rcInitialBackoff ?r) (rcInitialBackoff ?r) None s))"
    using assms(3) by (auto simp: WriteLog_def Let_def split: if_splits option.splits) (metis fst_conv snd_conv)+
  with loop [of body] none show ?thesis by auto
qed

end
