(* ===== verification/Client_Properties.thy ===== *)
theory Client_Properties
  imports Client_Lib Server_Properties
begin

text \<open>
  The properties of the Go client: how often and how long it retries, and that a record given to
  \<open>WriteLog\<close> against the server of this repository becomes the next entry of the log.
\<close>

section \<open>The client against the server\<close>

definition serverRequest :: "HttpRequest \<Rightarrow> Request" where
  "serverRequest q = \<lparr>reqMethod = hqMethod q, reqPath = ''/v1/logs'', reqQuery = (\<lambda>_. []),
     reqHeader = headerGet (hqHeader q), reqBody = hqBody q, reqBodyErr = False\<rparr>"

text \<open>A transport that delivers every request to the router over the file store.  Every write changes the
  store, so a clock that depends on the store can tell each of them a time of its own.\<close>

definition serverWorld :: "Config \<Rightarrow> unicode \<Rightarrow> (string \<Rightarrow> Principal result) \<Rightarrow> (FileStore \<Rightarrow> string) \<Rightarrow> FileStore ClientWorld" where
  "serverWorld cfg uc auth clock =
     \<lparr>cwNewRequest = (\<lambda>_. None),
      cwDo = (\<lambda>q st. let (resp, st') = newRouter cfg (fileOps uc (clock st) WriteOk None) auth (serverRequest q) st
                     in (Replies (rsStatus resp) (rsBody resp), st')),
      cwInt63n = (\<lambda>n st. (0, st)), cwSleep = (\<lambda>d st. (None, st))\<rparr>"

text \<open>The record a payload stands for.\<close>

definition clientRecord :: "LogRequest \<Rightarrow> LogRecord" where
  "clientRecord p = \<lparr>recClientID = [], recApp = TrimSpace (lqApp p), recLevel = TrimSpace (lqLevel p),
     recMessage = TrimSpace (lqMessage p), recMetadata = (if lqMetadata p = None then Some [] else lqMetadata p)\<rparr>"

lemma WriteLog_eq:
  assumes "completeRecord (clientRecord p)" "okRecord (clientRecord p)"
  shows "WriteLog w c p s =
    (let r = effectiveRetry (clRetry c)
     in writeLoop w c r (encodeJson (recordJson (clientRecord p))) (nat (rcMaxAttempts r)) 1
          (rcInitialBackoff r) (rcInitialBackoff r) None s)"
proof -
  define p1 where "p1 = (let p' = p\<lparr>lqApp := TrimSpace (lqApp p), lqLevel := TrimSpace (lqLevel p),
      lqMessage := TrimSpace (lqMessage p)\<rparr> in if lqMetadata p' = None then p'\<lparr>lqMetadata := Some []\<rparr> else p')"
  have "requestJson p1 = recordJson (clientRecord p)"
    by (simp add: p1_def Let_def requestJson_def recordJson_def clientRecord_def)
  then have "Marshal (requestJson p1) = Some (encodeJson (recordJson (clientRecord p)))"
    using okDoc_recordJson [OF assms(2)] by simp
  then show ?thesis
    using assms(1) by (simp add: WriteLog_def p1_def Let_def completeRecord_def clientRecord_def)
qed

lemma canonical_names: "CanonicalHeaderKey ''content-type'' = ''Content-Type''"
  "CanonicalHeaderKey ''authorization'' = ''Authorization''"
  by (simp_all add: CanonicalHeaderKey_def isTokenByte_def upperByte_def lowerByte_def byteVal_def char_of_def bit_0)

lemma setHeaders_other:
  "\<forall>(k, v)\<in>set kvs. CanonicalHeaderKey k \<noteq> name \<Longrightarrow> setHeaders kvs h name = h name"
  by (induction kvs h rule: setHeaders.induct) (auto simp: headerSet_def)

lemma sent_token:
  assumes "token = TrimSpace (clAuthToken c)" "token \<noteq> []" "\<forall>x\<in>set token. edgeByte x"
    and "\<forall>(k, v)\<in>set (clHeaders c). CanonicalHeaderKey k \<noteq> ''Authorization''"
  shows "bearerToken (serverRequest (buildRequest c body)) = token"
proof -
  have "headerGet (hqHeader (buildRequest c body)) ''authorization'' = ''Bearer '' @ token"
    using assms setHeaders_other [OF assms(4)]
    by (simp add: buildRequest_def Let_def headerGet_def headerSet_def canonical_names)
  moreover have "TrimSpace (''Bearer '' @ token) = ''Bearer '' @ token"
    using assms(2,3) by (intro TrimSpace_id) (auto simp: edgeByte_def goSpaces_def)
  moreover have "TrimSpace token = token" using assms(1) by simp
  ultimately show ?thesis
    using assms(2) by (simp add: bearerToken_def serverRequest_def Let_def bearerScheme_def foldASCII_def lowerByte_def char_of_def bit_0)
qed

lemma parseJson_encode_line:
  assumes "okDoc v" "jdepth v \<le> maxNestingDepth"
  shows "parseJson (encodeJson v @ [NL]) = Some v"
  using parse_encode(1) [OF assms(1), of "[NL]"] assms(2) need_bound(1) [OF assms(1)]
  by (simp add: parseJson_def skipWs_def isWs_def numStop_def isDigit_def digitVal_def)

lemma unmarshal_accepted:
  assumes "okEntry e"
  shows "unmarshalResponse (rsBody (writeJSON [] 201 (JObj
      [(''entryHash'', JStr (eEntryHash e)), (''index'', uintJson (eIndex e)),
       (''prevHash'', JStr (ePrevHash e)), (''timestamp'', JStr (eTimestamp e))]))) =
    Some \<lparr>lrIndex = eIndex e, lrTimestamp = eTimestamp e, lrEntryHash = eEntryHash e, lrPrevHash = ePrevHash e\<rparr>"
proof -
  let ?v = "JObj [(''entryHash'', JStr (eEntryHash e)), (''index'', uintJson (eIndex e)),
       (''prevHash'', JStr (ePrevHash e)), (''timestamp'', JStr (eTimestamp e))]"
  have v: "okDoc ?v" using assms by (simp add: okEntry_def uintJson_def digits_isNumLit byteVal_def)
  have "jdepth ?v \<le> maxNestingDepth" by (simp add: uintJson_def maxNestingDepth_def)
  then have "parseJson (encodeJson ?v @ [NL]) = Some ?v" by (rule parseJson_encode_line [OF v])
  moreover have "rsBody (writeJSON [] 201 ?v) = encodeJson ?v @ [NL]" by (simp only: writeJSON_def Marshal_okDoc [OF v]) simp
  ultimately show ?thesis
    by (simp only: unmarshalResponse_def) (simp add: matchField_def responseFields_def setResponseField_def uintJson_def)
qed

lemma recordDepth_stamped: "recordDepth (stampedRecord p (clientRecord q)) = recordDepth (clientRecord q)"
  by (simp add: recordDepth_def recordJson_def stampedRecord_def clientRecord_def)

text \<open>One call of \<open>WriteLog\<close> against the server.\<close>

lemma WriteLog_appends:
  assumes "fsRep st es" "ts = clock st" "validUtf8 ts"
    and "completeRecord (clientRecord p)" "okRecord (clientRecord p)"
    and "token = TrimSpace (clAuthToken c)" "token \<noteq> []" "\<forall>x\<in>set token. edgeByte x"
    and "\<forall>(k, v)\<in>set (clHeaders c). CanonicalHeaderKey k \<noteq> ''Authorization''"
    and "auth token = Inr pr" "pClientID pr \<noteq> []" "validUtf8 (pClientID pr)"
    and "int (length (encodeJson (recordJson (clientRecord p)))) \<le> cfgMaxPayloadBytes cfg"
    and "fsFits es ts (stampedRecord pr (clientRecord p))"
    and "e = nextEntry es ts (stampedRecord pr (clientRecord p))"
  shows "\<exists>st'. WriteLog (serverWorld cfg uc auth clock) c p st =
      (Inr \<lparr>lrIndex = eIndex e, lrTimestamp = eTimestamp e, lrEntryHash = eEntryHash e, lrPrevHash = ePrevHash e\<rparr>,
       [Sent (buildRequest c (encodeJson (recordJson (clientRecord p))))], st') \<and>
    fsRep st' (es @ [normEntry e])"
proof -
  let ?r = "clientRecord p" and ?req = "buildRequest c (encodeJson (recordJson (clientRecord p)))"
  have stamped: "stampedRecord pr (normRecord ?r) = stampedRecord pr ?r"
    by (auto simp: stampedRecord_def normRecord_def clientRecord_def)
  obtain st' where st': "FileStore_Append ts WriteOk (stampedRecord pr ?r) st = (Inr e, st')"
    "fsRep st' (es @ [normEntry e])"
    using Append_rep [OF assms(1) okRecord_stamped [OF assms(5,12)] assms(3,14)] assms(15) by blast
  have depth: "recordDepth ?r \<le> maxNestingDepth" using assms(14) by (simp add: fsFits_def recordDepth_stamped)
  have body: "reqBody (serverRequest ?req) = encodeJson (recordJson ?r)" "reqBodyErr (serverRequest ?req) = False"
    "reqMethod (serverRequest ?req) = ''POST''" "reqPath (serverRequest ?req) = ''/v1/logs''"
    by (simp_all add: serverRequest_def buildRequest_def Let_def)
  have input: "unmarshalRecord (encodeJson (recordJson ?r)) = Some (normRecord ?r)"
    using unmarshal_marshalRecord [OF assms(5) marshalRecord_ok [OF assms(5)]] depth by simp
  have complete: "completeRecord (stampedRecord pr ?r)"
    using assms(4) by (simp add: completeRecord_def stampedRecord_def clientRecord_def)
  define resp where "resp = writeJSON [] 201 (JObj
      [(''entryHash'', JStr (eEntryHash e)), (''index'', uintJson (eIndex e)),
       (''prevHash'', JStr (ePrevHash e)), (''timestamp'', JStr (eTimestamp e))])"
  have "newRouter cfg (fileOps uc ts WriteOk None) auth (serverRequest ?req) st = (resp, st')"
    using sent_token [OF assms(6-9), of "encodeJson (recordJson ?r)"] assms(7,10,11,13) input st'(1) complete stamped
    by (simp add: newRouter_def body requireAuth_admitted handleLogs_def handleWriteLog_eq readBody_def resp_def)
  then have do: "cwDo (serverWorld cfg uc auth clock) ?req st = (Replies (rsStatus resp) (rsBody resp), st')"
    using assms(2) by (simp add: serverWorld_def)
  have "okEntry e"
    using okEntry_nextEntry [OF _ okRecord_stamped [OF assms(5,12)] assms(3)] fstore.rep_chain [OF assms(1)] assms(15) by simp
  from unmarshal_accepted [OF this] have "judgeReply (Replies (rsStatus resp) (rsBody resp)) =
      Inl (Inr \<lparr>lrIndex = eIndex e, lrTimestamp = eTimestamp e, lrEntryHash = eEntryHash e, lrPrevHash = ePrevHash e\<rparr>)"
    unfolding resp_def by (simp add: judgeReply_def) (simp add: writeJSON_def)
  moreover obtain n where "nat (rcMaxAttempts (effectiveRetry (clRetry c))) = Suc n"
    using effectiveRetry_pos(1) [of "clRetry c"] by (metis Suc_diff_1 zero_less_nat_eq)
  moreover have "cwNewRequest (serverWorld cfg uc auth clock) (clEndpoint c) = None" by (simp add: serverWorld_def)
  ultimately show ?thesis using do st'(2) by (simp add: WriteLog_eq [OF assms(4,5)] Let_def)
qed

text \<open>C23: a record written with the Go client becomes the next entry of the log.  With a token the
  registry accepts, \<open>WriteLog\<close> sends one request; the server appends the record stamped with the
  caller's id; and the client returns the index, timestamp and hashes of exactly that entry.\<close>

theorem client_write_reaches_log:
  assumes "fsRep st es" "ts = clock st" "validUtf8 ts"
    and "completeRecord (clientRecord p)" "okRecord (clientRecord p)"
    and "token = TrimSpace (clAuthToken c)" "token \<noteq> []" "\<forall>x\<in>set token. edgeByte x"
    and "\<forall>(k, v)\<in>set (clHeaders c). CanonicalHeaderKey k \<noteq> ''Authorization''"
    and "auth token = Inr pr" "pClientID pr \<noteq> []" "validUtf8 (pClientID pr)"
    and "int (length (encodeJson (recordJson (clientRecord p)))) \<le> cfgMaxPayloadBytes cfg"
    and "fsFits es ts (stampedRecord pr (clientRecord p))"
    and "e = nextEntry es ts (stampedRecord pr (clientRecord p))"
  shows "\<exists>st'. WriteLog (serverWorld cfg uc auth clock) c p st =
      (Inr \<lparr>lrIndex = eIndex e, lrTimestamp = eTimestamp e, lrEntryHash = eEntryHash e, lrPrevHash = ePrevHash e\<rparr>,
       [Sent (buildRequest c (encodeJson (recordJson (clientRecord p))))], st') \<and>
    fsRep st' (es @ [normEntry e])"
  by (rule WriteLog_appends [where clock = clock and st = st and auth = auth, OF assms])

definition samplePayload :: LogRequest where
  "samplePayload = \<lparr>lqApp = '' app '', lqLevel = ''info'', lqMessage = ''hi'', lqMetadata = Some [(''k'', JStr ''v'')]\<rparr>"

definition samplePrincipal :: Principal where
  "samplePrincipal = \<lparr>pClientID = ''c1'', pName = ''n'', pRole = ''client''\<rparr>"

definition sampleClientLib :: Client where
  "sampleClientLib = (NewClient [])\<lparr>clAuthToken := ''alog_c1_s''\<rparr>"

lemma sample_trims: "TrimSpace '' app '' = ''app''" "TrimSpace ''app'' = ''app''" "TrimSpace ''info'' = ''info''"
  "TrimSpace ''hi'' = ''hi''" "TrimSpace ''alog_c1_s'' = ''alog_c1_s''"
  by code_simp+

lemma samplePayload_record: "stampedRecord samplePrincipal (clientRecord samplePayload) = sampleRecord"
  "completeRecord (clientRecord samplePayload)" "okRecord (clientRecord samplePayload)"
  using sample_ok(1)
  by (simp_all add: stampedRecord_def clientRecord_def samplePayload_def samplePrincipal_def sampleRecord_def sample_trims
      completeRecord_def okRecord_def)

theorem client_write_reaches_log_witness:
  "\<exists>res ev st'. WriteLog (serverWorld (loadConfig asciiUnicode (\<lambda>_. [])) asciiUnicode (\<lambda>_. Inr samplePrincipal) (\<lambda>_. sampleTime))
      sampleClientLib samplePayload emptyStore = (Inr res, ev, st') \<and> lrIndex res = 1 \<and>
    fsRep st' [nextEntry [] sampleTime sampleRecord]"
proof -
  have len: "int (length (encodeJson (recordJson (clientRecord samplePayload)))) \<le>
      cfgMaxPayloadBytes (loadConfig asciiUnicode (\<lambda>_. []))"
  proof -
    have "recordJson (clientRecord samplePayload) = recordJson (sampleRecord\<lparr>recClientID := []\<rparr>)"
      by (simp add: clientRecord_def samplePayload_def sampleRecord_def sample_trims)
    moreover have "length (encodeJson (recordJson (sampleRecord\<lparr>recClientID := []\<rparr>))) \<le> 100"
      by (simp add: recordJson_def sampleRecord_def metadataMembers_def jsonSafe_def byteVal_def)
    ultimately show ?thesis by (simp add: default_payload_limit)
  qed
  have edges: "\<forall>x\<in>set ''alog_c1_s''. edgeByte x" by (simp add: edgeByte_def goSpaces_def)
  have cl: "''alog_c1_s'' = TrimSpace (clAuthToken sampleClientLib)" "clHeaders sampleClientLib = []"
    by (simp_all add: sampleClientLib_def sample_trims NewClient_def Let_def)
  have pr: "pClientID samplePrincipal \<noteq> []" "validUtf8 (pClientID samplePrincipal)"
    by (simp_all add: samplePrincipal_def byteVal_def)
  have "fsFits [] sampleTime (stampedRecord samplePrincipal (clientRecord samplePayload))"
    using sample_fits [OF chain_nil] by (simp add: samplePayload_record)
  note reached = client_write_reaches_log [where auth = "\<lambda>_. Inr samplePrincipal" and uc = asciiUnicode and clock = "\<lambda>_. sampleTime",
      OF sample_ok(4) refl sample_ok(2) samplePayload_record(2,3) cl(1) _ edges _ refl pr len this refl]
  have first: "eIndex (nextEntry [] sampleTime sampleRecord) = 1" by (simp add: nextEntry_def)
  show ?thesis
    using reached first
    by (auto simp: cl(2) samplePayload_record normEntry_sample)
qed

text \<open>C24: retries are bounded.  Whatever the transport answers, \<open>WriteLog\<close> sends one and the same
  request at most \<open>MaxAttempts\<close> times (once if that is not positive), and every delay between two
  attempts lies between the smaller of the two backoff settings and the larger one plus the jitter.\<close>

theorem retries_are_bounded:
  assumes "okRandom w" "saneRetry (clRetry c)" "WriteLog w c p s = (res, ev, s')"
  shows "length (filter isSent ev) \<le> nat (max 1 (rcMaxAttempts (clRetry c))) \<and>
    (\<exists>req. \<forall>q. Sent q \<in> set ev \<longrightarrow> q = req) \<and>
    (\<forall>d. Slept d \<in> set ev \<longrightarrow> delayOk (effectiveRetry (clRetry c)) d)"
proof -
  obtain req where "runOk req (effectiveRetry (clRetry c)) (nat (rcMaxAttempts (effectiveRetry (clRetry c)))) ev"
    using WriteLog_runOk [OF assms] by blast
  moreover have "rcMaxAttempts (effectiveRetry (clRetry c)) = max 1 (rcMaxAttempts (clRetry c))"
    by (simp add: effectiveRetry_def)
  ultimately show ?thesis unfolding runOk_def list_all_iff by (fastforce split: clientEvent.splits)
qed

text \<open>A server that is always busy.\<close>

definition busyWorld :: "unit ClientWorld" where
  "busyWorld = \<lparr>cwNewRequest = (\<lambda>_. None), cwDo = (\<lambda>q s. (Replies 503 [], s)), cwInt63n = (\<lambda>n s. (n - 1, s)),
     cwSleep = (\<lambda>d s. (None, s))\<rparr>"

theorem retries_are_bounded_witness:
  "length (filter isSent (fst (snd (WriteLog busyWorld
     (sampleClientLib\<lparr>clRetry := (clRetry sampleClientLib)\<lparr>rcMaxAttempts := 3\<rparr>\<rparr>) samplePayload ())))) \<le> 3"
  (is "length (filter isSent (fst (snd (WriteLog busyWorld ?c samplePayload ())))) \<le> 3")
proof -
  have "okRandom busyWorld" by (simp add: okRandom_def busyWorld_def)
  moreover have "saneRetry (clRetry ?c)" by (simp add: saneRetry_def sampleClientLib_def NewClient_def Let_def)
  ultimately show ?thesis
    using retries_are_bounded [of busyWorld ?c samplePayload "()"]
    by (cases "WriteLog busyWorld ?c samplePayload ()") (simp add: sampleClientLib_def)
qed

end
