(* ===== verification/Forwarder_Config.thy ===== *)
theory Forwarder_Config
  imports Server_Config Client_Lib
begin

text \<open>
  \<open>cmd/log-forwarder/config.go\<close>: the forwarder's configuration file, its defaults and its validation.
  The file system, the working directory, \<open>url.Parse\<close> and \<open>regexp.Compile\<close> enter as functions of the
  environment.
\<close>

section \<open>The configuration\<close>

record FwdConfig =
  fcServerURL :: string
  fcAuthBearerToken :: string
  fcSourceFile :: string
  fcAppName :: string
  fcTimestampField :: string
  fcParserMode :: string
  fcRegexPattern :: string
  fcDefaultLevel :: string
  fcPollIntervalMS :: int
  fcBatchSize :: int
  fcFlushIntervalMS :: int
  fcCheckpointPath :: string
  fcRetryMaxAttempts :: int
  fcRetryInitialBackoffMS :: int
  fcRetryMaxBackoffMS :: int
  fcRequestTimeoutMS :: int
  fcDeadLetterPath :: string
  fcMetricsPort :: int
  fcMetricsReportIntervalMS :: int
  fcVerifyIntervalMS :: int

definition zeroFwdConfig :: FwdConfig where
  "zeroFwdConfig = \<lparr>fcServerURL = [], fcAuthBearerToken = [], fcSourceFile = [], fcAppName = [], fcTimestampField = [],
     fcParserMode = [], fcRegexPattern = [], fcDefaultLevel = [], fcPollIntervalMS = 0, fcBatchSize = 0,
     fcFlushIntervalMS = 0, fcCheckpointPath = [], fcRetryMaxAttempts = 0, fcRetryInitialBackoffMS = 0,
     fcRetryMaxBackoffMS = 0, fcRequestTimeoutMS = 0, fcDeadLetterPath = [], fcMetricsPort = 0,
     fcMetricsReportIntervalMS = 0, fcVerifyIntervalMS = 0\<rparr>"

datatype pathKind = NoSuchPath string | PlainFile | Directory

record FwdEnv =
  feRead :: "string \<Rightarrow> string result"
  feGetwd :: "string result"
  feStat :: "string \<Rightarrow> pathKind"
  feAbsoluteURL :: "string \<Rightarrow> bool"
  feRegexError :: "string \<Rightarrow> string option"

section \<open>Decoding\<close>

text \<open>A JSON number into an \<open>int\<close>: a fraction, an exponent or a value out of range is an error.\<close>

fun decodeInt :: "json \<Rightarrow> int \<Rightarrow> int option" where
  "decodeInt (JNum l) old = (case ParseInt l of (n, bad) \<Rightarrow> if bad then None else Some n)"
| "decodeInt JNull old = Some old"
| "decodeInt _ old = None"

fun decodeBool :: "json \<Rightarrow> bool \<Rightarrow> bool option" where
  "decodeBool (JBool b) old = Some b"
| "decodeBool JNull old = Some old"
| "decodeBool _ old = None"

text \<open>\<open>DisallowUnknownFields\<close>\<close>

fun decodeStrict :: "string list \<Rightarrow> (string \<Rightarrow> json \<Rightarrow> 'a \<Rightarrow> 'a option) \<Rightarrow> (string \<times> json) list \<Rightarrow> 'a \<Rightarrow> 'a option" where
  "decodeStrict names set_field [] x = Some x"
| "decodeStrict names set_field ((k, v) # kvs) x =
     (case matchField names k of
        None \<Rightarrow> None
      | Some f \<Rightarrow> (case set_field f v x of
            None \<Rightarrow> None
          | Some y \<Rightarrow> decodeStrict names set_field kvs y))"

text \<open>\<open>json.NewDecoder(file).Decode\<close> reads the first value and leaves what follows it.\<close>

definition decodeFirst :: "string list \<Rightarrow> (string \<Rightarrow> json \<Rightarrow> 'a \<Rightarrow> 'a option) \<Rightarrow> 'a \<Rightarrow> string \<Rightarrow> 'a option" where
  "decodeFirst names set_field zero s =
     (case parseVal (2 * length s + 2) maxNestingDepth s of
        Some (JObj kvs, _) \<Rightarrow> decodeStrict names set_field kvs zero
      | Some (JNull, _) \<Rightarrow> Some zero
      | _ \<Rightarrow> None)"

definition fwdFields :: "string list" where
  "fwdFields = [''server_url'', ''auth_bearer_token'', ''source_file'', ''app_name'', ''timestamp_field'', ''parser_mode'',
     ''regex_pattern'', ''default_level'', ''poll_interval_ms'', ''batch_size'', ''flush_interval_ms'', ''checkpoint_path'',
     ''retry_max_attempts'', ''retry_initial_backoff_ms'', ''retry_max_backoff_ms'', ''request_timeout_ms'',
     ''dead_letter_path'', ''metrics_port'', ''metrics_report_interval_ms'', ''verify_interval_ms'']"

definition setFwdField :: "string \<Rightarrow> json \<Rightarrow> FwdConfig \<Rightarrow> FwdConfig option" where
  "setFwdField f v c =
     (if f = ''server_url'' then map_option (\<lambda>s. c\<lparr>fcServerURL := s\<rparr>) (decodeString v (fcServerURL c))
      else if f = ''auth_bearer_token'' then map_option (\<lambda>s. c\<lparr>fcAuthBearerToken := s\<rparr>) (decodeString v (fcAuthBearerToken c))
      else if f = ''source_file'' then map_option (\<lambda>s. c\<lparr>fcSourceFile := s\<rparr>) (decodeString v (fcSourceFile c))
      else if f = ''app_name'' then map_option (\<lambda>s. c\<lparr>fcAppName := s\<rparr>) (decodeString v (fcAppName c))
      else if f = ''timestamp_field'' then map_option (\<lambda>s. c\<lparr>fcTimestampField := s\<rparr>) (decodeString v (fcTimestampField c))
      else if f = ''parser_mode'' then map_option (\<lambda>s. c\<lparr>fcParserMode := s\<rparr>) (decodeString v (fcParserMode c))
      else if f = ''regex_pattern'' then map_option (\<lambda>s. c\<lparr>fcRegexPattern := s\<rparr>) (decodeString v (fcRegexPattern c))
      else if f = ''default_level'' then map_option (\<lambda>s. c\<lparr>fcDefaultLevel := s\<rparr>) (decodeString v (fcDefaultLevel c))
      else if f = ''checkpoint_path'' then map_option (\<lambda>s. c\<lparr>fcCheckpointPath := s\<rparr>) (decodeString v (fcCheckpointPath c))
      else if f = ''dead_letter_path'' then map_option (\<lambda>s. c\<lparr>fcDeadLetterPath := s\<rparr>) (decodeString v (fcDeadLetterPath c))
      else if f = ''poll_interval_ms'' then map_option (\<lambda>n. c\<lparr>fcPollIntervalMS := n\<rparr>) (decodeInt v (fcPollIntervalMS c))
      else if f = ''batch_size'' then map_option (\<lambda>n. c\<lparr>fcBatchSize := n\<rparr>) (decodeInt v (fcBatchSize c))
      else if f = ''flush_interval_ms'' then map_option (\<lambda>n. c\<lparr>fcFlushIntervalMS := n\<rparr>) (decodeInt v (fcFlushIntervalMS c))
      else if f = ''retry_max_attempts'' then map_option (\<lambda>n. c\<lparr>fcRetryMaxAttempts := n\<rparr>) (decodeInt v (fcRetryMaxAttempts c))
      else if f = ''retry_initial_backoff_ms'' then map_option (\<lambda>n. c\<lparr>fcRetryInitialBackoffMS := n\<rparr>) (decodeInt v (fcRetryInitialBackoffMS c))
      else if f = ''retry_max_backoff_ms'' then map_option (\<lambda>n. c\<lparr>fcRetryMaxBackoffMS := n\<rparr>) (decodeInt v (fcRetryMaxBackoffMS c))
      else if f = ''request_timeout_ms'' then map_option (\<lambda>n. c\<lparr>fcRequestTimeoutMS := n\<rparr>) (decodeInt v (fcRequestTimeoutMS c))
      else if f = ''metrics_port'' then map_option (\<lambda>n. c\<lparr>fcMetricsPort := n\<rparr>) (decodeInt v (fcMetricsPort c))
      else if f = ''metrics_report_interval_ms'' then map_option (\<lambda>n. c\<lparr>fcMetricsReportIntervalMS := n\<rparr>) (decodeInt v (fcMetricsReportIntervalMS c))
      else map_option (\<lambda>n. c\<lparr>fcVerifyIntervalMS := n\<rparr>) (decodeInt v (fcVerifyIntervalMS c)))"

section \<open>Paths\<close>

definition isAbsPath :: "string \<Rightarrow> bool" where
  "isAbsPath p \<longleftrightarrow> p \<noteq> [] \<and> hd p = CHR ''/''"

text \<open>\<open>filepath.Dir\<close>: everything up to the last separator, cleaned.\<close>

definition dirPath :: "string \<Rightarrow> string" where
  "dirPath p = cleanPath (rev (dropWhile (\<lambda>c. c \<noteq> CHR ''/'') (rev p)))"

definition absPath :: "FwdEnv \<Rightarrow> string \<Rightarrow> string result" where
  "absPath env p =
     (if isAbsPath p then Inr (cleanPath p)
      else (case feGetwd env of Inl e \<Rightarrow> Inl e | Inr wd \<Rightarrow> Inr (joinPath wd p)))"

section \<open>Defaults\<close>

definition positiveOr :: "int \<Rightarrow> int \<Rightarrow> int" where
  "positiveOr n d = (if n \<le> 0 then d else n)"

definition presentOr :: "string \<Rightarrow> string \<Rightarrow> string" where
  "presentOr s d = (if s = [] then d else s)"

definition trimmedConfig :: "unicode \<Rightarrow> string \<Rightarrow> FwdConfig \<Rightarrow> FwdConfig" where
  "trimmedConfig uc configPath c =
     (let configDir = dirPath configPath in
      c\<lparr>fcServerURL := TrimSpace (fcServerURL c), fcAuthBearerToken := TrimSpace (fcAuthBearerToken c),
        fcSourceFile := TrimSpace (fcSourceFile c), fcAppName := TrimSpace (fcAppName c),
        fcTimestampField := TrimSpace (fcTimestampField c),
        fcParserMode := presentOr (ToLower uc (TrimSpace (fcParserMode c))) ''custom'',
        fcRegexPattern := TrimSpace (fcRegexPattern c),
        fcDefaultLevel := presentOr (ToUpper uc (TrimSpace (fcDefaultLevel c))) ''INFO'',
        fcPollIntervalMS := positiveOr (fcPollIntervalMS c) 250, fcBatchSize := positiveOr (fcBatchSize c) 1,
        fcFlushIntervalMS := positiveOr (fcFlushIntervalMS c) 1000,
        fcCheckpointPath := presentOr (TrimSpace (fcCheckpointPath c)) (joinPath configDir ''log-forwarder.checkpoint.json''),
        fcDeadLetterPath := presentOr (TrimSpace (fcDeadLetterPath c)) (joinPath configDir ''log-forwarder.deadletter.jsonl''),
        fcRetryMaxAttempts := positiveOr (fcRetryMaxAttempts c) 5,
        fcRetryInitialBackoffMS := positiveOr (fcRetryInitialBackoffMS c) 200,
        fcRetryMaxBackoffMS := positiveOr (fcRetryMaxBackoffMS c) 5000,
        fcRequestTimeoutMS := positiveOr (fcRequestTimeoutMS c) 10000,
        fcMetricsReportIntervalMS := positiveOr (fcMetricsReportIntervalMS c) 30000,
        fcVerifyIntervalMS := positiveOr (fcVerifyIntervalMS c) 60000\<rparr>)"

definition applyDefaults :: "unicode \<Rightarrow> FwdEnv \<Rightarrow> string \<Rightarrow> FwdConfig \<Rightarrow> FwdConfig result" where
  "applyDefaults uc env configPath c0 =
     (let c = trimmedConfig uc configPath c0 in
      case (if fcSourceFile c = [] then Inr [] else absPath env (fcSourceFile c)) of
        Inl e \<Rightarrow> Inl (ErrWrap ''resolve source_file path'' e)
      | Inr source \<Rightarrow>
     (case absPath env (fcCheckpointPath c) of
        Inl e \<Rightarrow> Inl (ErrWrap ''resolve checkpoint_path'' e)
      | Inr checkpoint \<Rightarrow>
     (case absPath env (fcDeadLetterPath c) of
        Inl e \<Rightarrow> Inl (ErrWrap ''resolve dead_letter_path'' e)
      | Inr deadLetter \<Rightarrow>
          Inr (c\<lparr>fcSourceFile := source, fcCheckpointPath := checkpoint, fcDeadLetterPath := deadLetter\<rparr>))))"

section \<open>Validation\<close>

definition problemIf :: "bool \<Rightarrow> string \<Rightarrow> string list" where
  "problemIf b msg = (if b then [msg] else [])"

definition fwdProblems :: "FwdEnv \<Rightarrow> FwdConfig \<Rightarrow> string list" where
  "fwdProblems env c =
     (if fcServerURL c = [] then [''server_url is required'']
      else problemIf (\<not> feAbsoluteURL env (fcServerURL c)) ''server_url must be a valid absolute URL'') @
     problemIf (fcAuthBearerToken c = []) ''auth_bearer_token is required'' @
     problemIf (fcSourceFile c = []) ''source_file is required'' @
     problemIf (fcAppName c = []) ''app_name is required'' @
     problemIf (fcTimestampField c = []) ''timestamp_field is required'' @
     problemIf (fcPollIntervalMS c \<le> 0) ''poll_interval_ms must be > 0'' @
     problemIf (fcBatchSize c \<le> 0) ''batch_size must be > 0'' @
     problemIf (fcFlushIntervalMS c \<le> 0) ''flush_interval_ms must be > 0'' @
     problemIf (fcRetryMaxAttempts c \<le> 0) ''retry_max_attempts must be > 0'' @
     problemIf (fcRetryInitialBackoffMS c \<le> 0) ''retry_initial_backoff_ms must be > 0'' @
     problemIf (fcRetryMaxBackoffMS c < fcRetryInitialBackoffMS c) ''retry_max_backoff_ms must be >= retry_initial_backoff_ms'' @
     problemIf (fcRequestTimeoutMS c \<le> 0) ''request_timeout_ms must be > 0'' @
     problemIf (fcMetricsPort c < 0 \<or> 65535 < fcMetricsPort c) ''metrics_port must be between 0 and 65535'' @
     problemIf (fcMetricsReportIntervalMS c \<le> 0) ''metrics_report_interval_ms must be > 0'' @
     problemIf (fcVerifyIntervalMS c \<le> 0) ''verify_interval_ms must be > 0'' @
     problemIf (fcParserMode c \<notin> set [''json'', ''regex'', ''custom'']) ''parser_mode must be one of: json, regex, custom'' @
     (if fcParserMode c = ''regex'' then
        (if fcRegexPattern c = [] then [''regex_pattern is required when parser_mode=regex'']
         else (case feRegexError env (fcRegexPattern c) of None \<Rightarrow> [] | Some e \<Rightarrow> [''regex_pattern is invalid: '' @ e]))
      else []) @
     (if fcSourceFile c = [] then []
      else (case feStat env (fcSourceFile c) of
          NoSuchPath e \<Rightarrow> [''source_file is not accessible: '' @ e]
        | Directory \<Rightarrow> [''source_file must be a file, not a directory'']
        | PlainFile \<Rightarrow> []))"

definition ValidateFwd :: "FwdEnv \<Rightarrow> FwdConfig \<Rightarrow> goerror option" where
  "ValidateFwd env c =
     (let problems = fwdProblems env c in
      if problems = [] then None else Some (ErrMsg (''invalid config: '' @ Join problems ''; '')))"

definition LoadFwdConfig :: "unicode \<Rightarrow> FwdEnv \<Rightarrow> string \<Rightarrow> FwdConfig result" where
  "LoadFwdConfig uc env path0 =
     (let path = TrimSpace path0 in
      if path = [] then Inl (ErrMsg ''config path is required'')
      else (case feRead env path of
          Inl e \<Rightarrow> Inl (ErrWrap ''open config'' e)
        | Inr text \<Rightarrow>
      (case decodeFirst fwdFields setFwdField zeroFwdConfig text of
          None \<Rightarrow> Inl (ErrWrap ''decode config'' ErrJSON)
        | Some cfg0 \<Rightarrow>
      (case applyDefaults uc env path cfg0 of
          Inl e \<Rightarrow> Inl e
        | Inr cfg \<Rightarrow> (case ValidateFwd env cfg of Some e \<Rightarrow> Inl e | None \<Rightarrow> Inr cfg)))))"

section \<open>The client the forwarder builds\<close>

text \<open>Milliseconds to a \<open>time.Duration\<close>.\<close>

definition msDuration :: "int \<Rightarrow> int" where
  "msDuration ms = wrap64 (ms * 1000000)"

definition forwarderClient :: "FwdConfig \<Rightarrow> Client" where
  "forwarderClient c =
     (NewClient (fcServerURL c))\<lparr>clAuthToken := fcAuthBearerToken c,
        clRetry := \<lparr>rcMaxAttempts = fcRetryMaxAttempts c, rcInitialBackoff = msDuration (fcRetryInitialBackoffMS c),
                    rcMaxBackoff = msDuration (fcRetryMaxBackoffMS c), rcMaxJitter = 100 * milliseconds,
                    rcJitterStrategy = ''full''\<rparr>,
        clOnRetry := True\<rparr>"

section \<open>A loaded configuration\<close>

definition usableConfig :: "FwdEnv \<Rightarrow> FwdConfig \<Rightarrow> bool" where
  "usableConfig env c \<longleftrightarrow>
     feAbsoluteURL env (fcServerURL c) \<and> fcAuthBearerToken c \<noteq> [] \<and> fcAppName c \<noteq> [] \<and> fcTimestampField c \<noteq> [] \<and>
     isAbsPath (fcSourceFile c) \<and> feStat env (fcSourceFile c) = PlainFile \<and>
     isAbsPath (fcCheckpointPath c) \<and> isAbsPath (fcDeadLetterPath c) \<and>
     0 < fcPollIntervalMS c \<and> 0 < fcRetryMaxAttempts c \<and> 0 < fcRetryInitialBackoffMS c \<and>
     fcRetryInitialBackoffMS c \<le> fcRetryMaxBackoffMS c \<and> 0 < fcRequestTimeoutMS c \<and>
     0 \<le> fcMetricsPort c \<and> fcMetricsPort c \<le> 65535 \<and> fcDefaultLevel c \<noteq> [] \<and>
     fcParserMode c \<in> {''json'', ''regex'', ''custom''} \<and>
     (fcParserMode c = ''regex'' \<longrightarrow> feRegexError env (fcRegexPattern c) = None)"

lemma isAbs_cleanPath: "isAbsPath p \<Longrightarrow> isAbsPath (cleanPath p)"
  by (auto simp: isAbsPath_def cleanPath_def Let_def split: list.split)

lemma isAbs_joinPath: "isAbsPath wd \<Longrightarrow> isAbsPath (joinPath wd p)"
  by (auto simp: joinPath_def isAbsPath_def split: list.split intro!: isAbs_cleanPath [unfolded isAbsPath_def])

lemma absPath_abs: "absPath env p = Inr q \<Longrightarrow> (\<And>wd. feGetwd env = Inr wd \<Longrightarrow> isAbsPath wd) \<Longrightarrow> isAbsPath q"
  by (auto simp: absPath_def isAbs_cleanPath isAbs_joinPath split: if_splits sum.splits)

lemma problemIf_Nil [simp]: "problemIf b m = [] \<longleftrightarrow> \<not> b"
  by (simp add: problemIf_def)

lemma LoadFwdConfig_cases:
  assumes "LoadFwdConfig uc env path = Inr c"
  obtains c0 where "applyDefaults uc env (TrimSpace path) c0 = Inr c" "fwdProblems env c = []"
  using assms
  by (auto simp: LoadFwdConfig_def ValidateFwd_def Let_def split: if_splits sum.splits option.splits)

lemma applyDefaults_paths:
  assumes "applyDefaults uc env path c0 = Inr c" "\<And>wd. feGetwd env = Inr wd \<Longrightarrow> isAbsPath wd"
  shows "isAbsPath (fcCheckpointPath c)" "isAbsPath (fcDeadLetterPath c)" "fcSourceFile c = [] \<or> isAbsPath (fcSourceFile c)"
    "fcDefaultLevel c \<noteq> []"
  using assms absPath_abs
  by (auto simp: applyDefaults_def trimmedConfig_def presentOr_def Let_def split: sum.splits if_splits)

lemma LoadFwdConfig_usable:
  assumes "LoadFwdConfig uc env path = Inr c" "\<And>wd. feGetwd env = Inr wd \<Longrightarrow> isAbsPath wd"
  shows "usableConfig env c"
proof -
  obtain c0 where c0: "applyDefaults uc env (TrimSpace path) c0 = Inr c" and p: "fwdProblems env c = []"
    using LoadFwdConfig_cases [OF assms(1)] by blast
  note paths = applyDefaults_paths [OF c0 assms(2)]
  have src: "fcSourceFile c \<noteq> []" "fcServerURL c \<noteq> []"
    using p by (auto simp: fwdProblems_def split: if_splits)
  show ?thesis
    using p paths src by (auto simp: fwdProblems_def usableConfig_def split: if_splits option.splits pathKind.splits)
qed

end
