(* ===== verification/Forwarder_Parser.thy ===== *)
theory Forwarder_Parser
  imports Forwarder_Config
begin

text \<open>
  \<open>cmd/log-forwarder/parser.go\<close>: a tailed line becomes a normalised event, by JSON, by the configured
  regular expression, or as plain text.  A compiled expression is its named groups and its
  \<open>FindStringSubmatch\<close>.
\<close>

record TailEvent =
  teLine :: string
  teSourceFile :: string
  teCommittedOffset :: int

record NormalizedEvent =
  neApp :: string
  neLevel :: string
  neMessage :: string
  neTimestampRaw :: string
  neParserMode :: string
  neSourceFile :: string
  neSourceOffset :: int
  neRawLine :: string
  neAdditionalFields :: gomap

record Regexp =
  reSubexpNames :: "string list"
  reFindStringSubmatch :: "string \<Rightarrow> string list option"

record LineParser =
  lpConfig :: FwdConfig
  lpCompiled :: "Regexp option"

definition NewLineParser :: "(string \<Rightarrow> Regexp result) \<Rightarrow> FwdConfig \<Rightarrow> LineParser result" where
  "NewLineParser compile cfg =
     (if fcParserMode cfg = ''regex''
      then (case compile (fcRegexPattern cfg) of
          Inl e \<Rightarrow> Inl (ErrWrap ''compile regex pattern'' e)
        | Inr re \<Rightarrow> Inr \<lparr>lpConfig = cfg, lpCompiled = Some re\<rparr>)
      else Inr \<lparr>lpConfig = cfg, lpCompiled = None\<rparr>)"

text \<open>The value under a key of a \<open>map[string]any\<close>, as text; a missing key reads as nil.\<close>

fun stringFromAny :: "json option \<Rightarrow> string" where
  "stringFromAny (Some (JStr v)) = TrimSpace v"
| "stringFromAny _ = []"

definition withBase :: "LineParser \<Rightarrow> NormalizedEvent \<Rightarrow> TailEvent \<Rightarrow> NormalizedEvent" where
  "withBase p parsed event = parsed\<lparr>neApp := fcAppName (lpConfig p), neSourceFile := teSourceFile event,
     neSourceOffset := teCommittedOffset event\<rparr>"

text \<open>Message, level and timestamp are taken out of the fields; the rest stays.\<close>

definition fromFields :: "unicode \<Rightarrow> LineParser \<Rightarrow> string \<Rightarrow> string \<Rightarrow> gomap \<Rightarrow> TailEvent \<Rightarrow> NormalizedEvent" where
  "fromFields uc p mode line fm event =
     (let tsField = fcTimestampField (lpConfig p);
          message0 = stringFromAny (mapGet fm ''message'');
          level0 = ToUpper uc (stringFromAny (mapGet fm ''level''))
      in withBase p
           \<lparr>neApp = [], neLevel = (if level0 = [] then fcDefaultLevel (lpConfig p) else level0),
            neMessage = (if message0 = [] then line else message0),
            neTimestampRaw = stringFromAny (mapGet fm tsField), neParserMode = mode, neSourceFile = [],
            neSourceOffset = 0, neRawLine = line,
            neAdditionalFields = filter (\<lambda>(k, v). k \<noteq> ''message'' \<and> k \<noteq> ''level'' \<and> k \<noteq> tsField) fm\<rparr> event)"

definition unmarshalAnyMap :: "string \<Rightarrow> gomap option option" where
  "unmarshalAnyMap s = (case parseJson s of None \<Rightarrow> None | Some v \<Rightarrow> decodeMap v None)"

definition tryJSON :: "unicode \<Rightarrow> LineParser \<Rightarrow> string \<Rightarrow> TailEvent \<Rightarrow> NormalizedEvent option" where
  "tryJSON uc p line event =
     (if line = [] then None
      else (case unmarshalAnyMap line of
          None \<Rightarrow> None
        | Some raw \<Rightarrow> Some (fromFields uc p ''json'' line (case raw of None \<Rightarrow> [] | Some m \<Rightarrow> m) event)))"

text \<open>The named groups of a match; a later group of the same name wins.\<close>

fun groupFields :: "(string \<times> string) list \<Rightarrow> gomap \<Rightarrow> gomap" where
  "groupFields [] m = m"
| "groupFields ((name, v) # gs) m = groupFields gs (if name = [] then m else mapPut name (JStr v) m)"

definition tryRegex :: "unicode \<Rightarrow> LineParser \<Rightarrow> string \<Rightarrow> TailEvent \<Rightarrow> NormalizedEvent option" where
  "tryRegex uc p line event =
     (case lpCompiled p of
        None \<Rightarrow> None
      | Some re \<Rightarrow>
          (case reFindStringSubmatch re line of
             None \<Rightarrow> None
           | Some matches \<Rightarrow>
               Some (fromFields uc p ''regex'' line (groupFields (tl (zip (reSubexpNames re) matches)) []) event)))"

definition fallbackPlain :: "LineParser \<Rightarrow> string \<Rightarrow> TailEvent \<Rightarrow> NormalizedEvent" where
  "fallbackPlain p line event =
     withBase p \<lparr>neApp = [], neLevel = fcDefaultLevel (lpConfig p), neMessage = line, neTimestampRaw = [],
       neParserMode = ''plain'', neSourceFile = [], neSourceOffset = 0, neRawLine = line,
       neAdditionalFields = [(''unparsed'', JBool True)]\<rparr> event"

definition parseJSONOnly :: "unicode \<Rightarrow> LineParser \<Rightarrow> string \<Rightarrow> TailEvent \<Rightarrow> NormalizedEvent result" where
  "parseJSONOnly uc p line event =
     (case tryJSON uc p line event of
        None \<Rightarrow> Inl (ErrMsg ''json parser could not parse line'')
      | Some parsed \<Rightarrow> Inr parsed)"

definition parseRegexOnly :: "unicode \<Rightarrow> LineParser \<Rightarrow> string \<Rightarrow> TailEvent \<Rightarrow> NormalizedEvent result" where
  "parseRegexOnly uc p line event =
     (if lpCompiled p = None then Inl (ErrMsg ''regex parser not configured'')
      else (case tryRegex uc p line event of
          None \<Rightarrow> Inl (ErrMsg ''regex parser could not parse line'')
        | Some parsed \<Rightarrow> Inr parsed))"

definition ParseLine :: "unicode \<Rightarrow> LineParser \<Rightarrow> TailEvent \<Rightarrow> NormalizedEvent result" where
  "ParseLine uc p event =
     (let line = TrimSpace (teLine event); mode = fcParserMode (lpConfig p) in
      if mode = ''json'' then parseJSONOnly uc p line event
      else if mode = ''regex'' then parseRegexOnly uc p line event
      else if mode = ''custom'' then
        (case tryJSON uc p line event of
           Some parsed \<Rightarrow> Inr parsed
         | None \<Rightarrow>
             (case (if lpCompiled p = None then None else tryRegex uc p line event) of
                Some parsed \<Rightarrow> Inr parsed
              | None \<Rightarrow> Inr (fallbackPlain p line event)))
      else Inl (ErrMsg (''unsupported parser_mode: '' @ mode)))"

section \<open>Facts\<close>

lemma fromFields_base [simp]:
  "neApp (fromFields uc p mode line fs ev) = fcAppName (lpConfig p)"
  "neSourceFile (fromFields uc p mode line fs ev) = teSourceFile ev"
  "neSourceOffset (fromFields uc p mode line fs ev) = teCommittedOffset ev"
  "neRawLine (fromFields uc p mode line fs ev) = line" "neParserMode (fromFields uc p mode line fs ev) = mode"
  by (simp_all add: fromFields_def Let_def withBase_def)

lemma fallbackPlain_base [simp]:
  "neApp (fallbackPlain p line ev) = fcAppName (lpConfig p)" "neSourceFile (fallbackPlain p line ev) = teSourceFile ev"
  "neSourceOffset (fallbackPlain p line ev) = teCommittedOffset ev" "neRawLine (fallbackPlain p line ev) = line"
  "neLevel (fallbackPlain p line ev) = fcDefaultLevel (lpConfig p)" "neMessage (fallbackPlain p line ev) = line"
  by (simp_all add: fallbackPlain_def withBase_def)

lemma try_forms:
  "tryJSON uc p line ev = Some n \<Longrightarrow> \<exists>mode fm. n = fromFields uc p mode line fm ev"
  "tryRegex uc p line ev = Some n \<Longrightarrow> \<exists>mode fm. n = fromFields uc p mode line fm ev"
  by (auto simp: tryJSON_def tryRegex_def split: if_splits option.splits)

lemma ParseLine_forms:
  assumes "ParseLine uc p ev = Inr n"
  shows "n = fallbackPlain p (TrimSpace (teLine ev)) ev \<or> (\<exists>mode fm. n = fromFields uc p mode (TrimSpace (teLine ev)) fm ev)"
proof (cases "n = fallbackPlain p (TrimSpace (teLine ev)) ev")
  case False
  then have "tryJSON uc p (TrimSpace (teLine ev)) ev = Some n \<or> tryRegex uc p (TrimSpace (teLine ev)) ev = Some n"
    using assms unfolding ParseLine_def Let_def parseJSONOnly_def parseRegexOnly_def
    by (simp split: if_splits option.splits)
  then show ?thesis using try_forms by blast
qed simp

text \<open>Whatever the mode, an event names its source and carries the trimmed line; its level is never
  empty, and its message is empty only for a blank line.\<close>

lemma fromFields_text:
  "fcDefaultLevel (lpConfig p) \<noteq> [] \<Longrightarrow> neLevel (fromFields uc p mode line fm ev) \<noteq> []"
  "neMessage (fromFields uc p mode line fm ev) = [] \<Longrightarrow> line = []"
  by (simp_all add: fromFields_def Let_def withBase_def split: if_splits)

lemma ParseLine_event:
  assumes "ParseLine uc p ev = Inr n" "fcDefaultLevel (lpConfig p) \<noteq> []"
  shows "neApp n = fcAppName (lpConfig p) \<and> neSourceFile n = teSourceFile ev \<and> neSourceOffset n = teCommittedOffset ev \<and>
    neRawLine n = TrimSpace (teLine ev) \<and> neLevel n \<noteq> [] \<and> (neMessage n = [] \<longrightarrow> TrimSpace (teLine ev) = [])"
  using ParseLine_forms [OF assms(1)] assms(2) by (elim disjE exE) (auto simp: fromFields_text(1) dest: fromFields_text(2))

text \<open>In custom mode no expression is ever compiled, so a configured pattern has no effect.\<close>

lemma custom_mode_no_regex:
  assumes "NewLineParser compile cfg = Inr p" "fcParserMode cfg = ''custom''"
  shows "ParseLine uc p ev = Inr (case tryJSON uc p (TrimSpace (teLine ev)) ev of
      Some parsed \<Rightarrow> parsed | None \<Rightarrow> fallbackPlain p (TrimSpace (teLine ev)) ev)"
  using assms by (auto simp: NewLineParser_def ParseLine_def Let_def split: option.split)

text \<open>Custom mode accepts every line.\<close>

lemma custom_mode_total: "fcParserMode (lpConfig p) = ''custom'' \<Longrightarrow> \<exists>n. ParseLine uc p ev = Inr n"
  by (auto simp: ParseLine_def Let_def split: option.split)

end
