(* ===== verification/Go_JsonIndent.thy ===== *)
theory Go_JsonIndent
  imports Go_JsonRound
begin

text \<open>
  \<open>json.MarshalIndent(v, "", "  ")\<close>: one member or element per line, two blanks per level.  An object of
  scalar members reads back as itself.
\<close>

definition indentNL :: "nat \<Rightarrow> string" where
  "indentNL lvl = CHR 0x0A # replicate (2 * lvl) CHR 0x20"

fun indentVal :: "nat \<Rightarrow> json \<Rightarrow> string"
  and indentElems :: "nat \<Rightarrow> json list \<Rightarrow> string"
  and indentMembers :: "nat \<Rightarrow> (string \<times> json) list \<Rightarrow> string" where
  "indentVal lvl (JArr xs) =
     (if xs = [] then ''[]'' else ''['' @ indentElems (Suc lvl) xs @ indentNL lvl @ '']'')"
| "indentVal lvl (JObj kvs) =
     (if kvs = [] then ''{}'' else ''{'' @ indentMembers (Suc lvl) kvs @ indentNL lvl @ ''}'')"
| "indentVal lvl v = encodeJson v"
| "indentElems lvl [] = []"
| "indentElems lvl (x # xs) = indentNL lvl @ indentVal lvl x @ (if xs = [] then [] else '','') @ indentElems lvl xs"
| "indentMembers lvl [] = []"
| "indentMembers lvl ((k, v) # kvs) =
     indentNL lvl @ quoteStr k @ '': '' @ indentVal lvl v @ (if kvs = [] then [] else '','') @ indentMembers lvl kvs"

definition MarshalIndent :: "json \<Rightarrow> string option" where
  "MarshalIndent v = (if numsOk v then Some (indentVal 0 v) else None)"

section \<open>Reading it back\<close>

lemma skipWs_indentNL [simp]: "skipWs (indentNL lvl @ s) = skipWs s"
proof -
  have "dropWhile isWs (replicate n CHR 0x20 @ s) = dropWhile isWs s" for n
    by (induction n) (simp_all add: isWs_def)
  then show ?thesis by (simp add: indentNL_def skipWs_def isWs_def)
qed

fun isScalar :: "json \<Rightarrow> bool" where
  "isScalar (JArr xs) = False"
| "isScalar (JObj kvs) = False"
| "isScalar v = True"

lemma indentVal_scalar: "isScalar v \<Longrightarrow> indentVal lvl v = encodeJson v"
  by (cases v) auto

lemma parseVal_blank: "parseVal n d (CHR 0x20 # s) = parseVal n d s"
  by (cases n) (simp_all add: parse_step skipWs_def isWs_def)

lemma need_scalar: "isScalar v \<Longrightarrow> need v = 1 \<and> jdepth v = 0"
  by (cases v) auto

lemma parse_indentMembers:
  assumes "list_all (\<lambda>(k, v). validUtf8 k \<and> okDoc v \<and> isScalar v) kvs" "kvs \<noteq> []" "length kvs < n"
  shows "parseMembers n d (indentMembers lvl kvs @ indentNL l @ CHR ''}'' # r) = Some (kvs, r)"
  using assms
proof (induction kvs arbitrary: n)
  case (Cons kv kvs)
  obtain k v where kv: "kv = (k, v)" by fastforce
  obtain m where n: "n = Suc m" "0 < m" using Cons.prems(3) by (cases n) auto
  have ok: "validUtf8 k" "okDoc v" "isScalar v" using Cons.prems(1) kv by auto
  define rest where "rest = (if kvs = [] then [] else '','') @ indentMembers lvl kvs @ indentNL l @ CHR ''}'' # r"
  have stop: "numStop rest"
    by (cases "kvs = []") (simp_all add: rest_def numStop_def indentNL_def isDigit_def digitVal_def)
  have val: "parseVal m d (CHR 0x20 # indentVal lvl v @ rest) = Some (v, rest)"
    using parse_encode(1) [OF ok(2) stop, of m d] need_scalar [OF ok(3)] n(2)
    by (simp add: parseVal_blank indentVal_scalar [OF ok(3)])
  have txt1: "indentMembers lvl (kv # kvs) @ indentNL l @ CHR ''}'' # r =
      indentNL lvl @ CHR 0x22 # encodeStr k @ CHR 0x22 # CHR '':'' # CHR 0x20 # indentVal lvl v @ rest"
    by (simp add: kv quoteStr_def rest_def)
  have start: "skipWs (indentMembers lvl (kv # kvs) @ indentNL l @ CHR ''}'' # r) =
      CHR 0x22 # encodeStr k @ CHR 0x22 # CHR '':'' # CHR 0x20 # indentVal lvl v @ rest"
    unfolding txt1 skipWs_indentNL by (simp add: skipWs_def isWs_def)
  have colon: "skipWs (CHR '':'' # s) = CHR '':'' # s" "skipWs (CHR '','' # s) = CHR '','' # s" "skipWs (CHR ''}'' # s) = CHR ''}'' # s" for s
    by (simp_all add: skipWs_def isWs_def)
  show ?case
  proof (cases "kvs = []")
    case True
    then have "skipWs rest = CHR ''}'' # r" by (simp add: rest_def colon)
    then show ?thesis using start val decodeStr_encodeStr [OF ok(1)] True by (simp add: n kv colon parse_step)
  next
    case False
    then have "skipWs rest = CHR '','' # indentMembers lvl kvs @ indentNL l @ CHR ''}'' # r" by (simp add: rest_def colon)
    moreover have "parseMembers m d (indentMembers lvl kvs @ indentNL l @ CHR ''}'' # r) = Some (kvs, r)"
      using Cons.IH [of m] Cons.prems False n by auto
    ultimately show ?thesis using start val decodeStr_encodeStr [OF ok(1)] by (simp add: n kv colon parse_step)
  qed
qed simp

lemma parse_indentObj:
  assumes "list_all (\<lambda>(k, v). validUtf8 k \<and> okDoc v \<and> isScalar v) kvs" "kvs \<noteq> []" "length kvs < n" "0 < d"
  shows "parseVal (Suc n) d (indentVal 0 (JObj kvs) @ r) = Some (JObj kvs, r)"
proof -
  obtain k v kvs' where kvs: "kvs = (k, v) # kvs'" using assms(2) by (cases kvs) auto
  let ?body = "indentMembers 1 kvs @ indentNL 0 @ CHR ''}'' # r"
  have body: "parseMembers n (d - 1) ?body = Some (kvs, r)" by (rule parse_indentMembers [OF assms(1-3)])
  define rest where "rest = quoteStr k @ '': '' @ indentVal 1 v @ (if kvs' = [] then [] else '','') @ indentMembers 1 kvs' @ indentNL 0 @ CHR ''}'' # r"
  have b: "?body = indentNL 1 @ rest" by (simp add: kvs rest_def)
  obtain t where q: "rest = CHR 0x22 # t" by (simp add: rest_def quoteStr_def)
  have ws: "skipWs ?body = rest" unfolding b skipWs_indentNL by (simp add: q skipWs_def isWs_def)
  have "parseMembers n (d - 1) rest = parseMembers n (d - 1) ?body"
    unfolding b by (cases n) (simp_all add: parse_step q)
  then show ?thesis
    using body ws assms(2,4) by (simp add: parse_step q)
qed

end
