(* ===== verification/Forwarder_Checkpoint.thy ===== *)
theory Forwarder_Checkpoint
  imports Forwarder_Config Go_JsonIndent
begin

text \<open>
  \<open>cmd/log-forwarder/checkpoint.go\<close>: the durable position of the follower.  The disk holds the
  checkpoint and its temporary file; the outcome of every system call of a save is an input.  A save
  goes through the states of \<open>saveState\<close>, so a process that dies on the way leaves one of them.
\<close>

record Checkpoint =
  cpFilePath :: string
  cpOffset :: int
  cpDev :: uint64
  cpInode :: uint64
  cpUpdatedAt :: string

definition zeroCheckpoint :: Checkpoint where
  "zeroCheckpoint = \<lparr>cpFilePath = [], cpOffset = 0, cpDev = 0, cpInode = 0, cpUpdatedAt = []\<rparr>"

definition checkpointMembers :: "Checkpoint \<Rightarrow> (string \<times> json) list" where
  "checkpointMembers cp =
     [(''file_path'', JStr (cpFilePath cp)), (''offset'', JNum (Itoa (cpOffset cp))),
      (''dev'', JNum (FormatUint (unat (cpDev cp)))), (''inode'', JNum (FormatUint (unat (cpInode cp)))),
      (''updated_at'', JStr (cpUpdatedAt cp))]"

definition checkpointFields :: "string list" where
  "checkpointFields = [''file_path'', ''offset'', ''dev'', ''inode'', ''updated_at'']"

definition setCheckpointField :: "string \<Rightarrow> json \<Rightarrow> Checkpoint \<Rightarrow> Checkpoint option" where
  "setCheckpointField f v cp =
     (if f = ''file_path'' then map_option (\<lambda>s. cp\<lparr>cpFilePath := s\<rparr>) (decodeString v (cpFilePath cp))
      else if f = ''offset'' then map_option (\<lambda>n. cp\<lparr>cpOffset := n\<rparr>) (decodeInt v (cpOffset cp))
      else if f = ''dev'' then map_option (\<lambda>n. cp\<lparr>cpDev := n\<rparr>) (decodeUint64 v (cpDev cp))
      else if f = ''inode'' then map_option (\<lambda>n. cp\<lparr>cpInode := n\<rparr>) (decodeUint64 v (cpInode cp))
      else map_option (\<lambda>s. cp\<lparr>cpUpdatedAt := s\<rparr>) (decodeString v (cpUpdatedAt cp)))"

section \<open>Load and save\<close>

text \<open>\<open>Inr None\<close> is a file that does not exist.\<close>

definition LoadCheckpoint :: "string option result \<Rightarrow> Checkpoint result" where
  "LoadCheckpoint opened =
     (case opened of
        Inl e \<Rightarrow> Inl (ErrWrap ''open checkpoint'' e)
      | Inr None \<Rightarrow> Inr zeroCheckpoint
      | Inr (Some content) \<Rightarrow>
          (case decodeFirst checkpointFields setCheckpointField zeroCheckpoint content of
             None \<Rightarrow> Inl (ErrWrap ''decode checkpoint'' ErrJSON)
           | Some cp \<Rightarrow> Inr (if cpOffset cp < 0 then cp\<lparr>cpOffset := 0\<rparr> else cp)))"

record Disk =
  dkCheckpoint :: "string option"
  dkTemp :: "string option"

text \<open>The error of each call, if any; a sync error comes with whether \<open>isIgnorableSyncErr\<close> holds for it,
  a failed write with the number of bytes it wrote.\<close>

record saveFaults =
  sfMkdir :: "goerror option"
  sfOpenTemp :: "goerror option"
  sfWrite :: "(nat \<times> goerror) option"
  sfSync :: "(goerror \<times> bool) option"
  sfClose :: "goerror option"
  sfRename :: "goerror option"
  sfDirOpen :: "goerror option"
  sfDirSeek :: "goerror option"
  sfDirSync :: "(goerror \<times> bool) option"

definition noSaveFaults :: saveFaults where
  "noSaveFaults = \<lparr>sfMkdir = None, sfOpenTemp = None, sfWrite = None, sfSync = None, sfClose = None, sfRename = None,
     sfDirOpen = None, sfDirSeek = None, sfDirSync = None\<rparr>"

definition syncError :: "(goerror \<times> bool) option \<Rightarrow> goerror option" where
  "syncError r = (case r of Some (e, ignorable) \<Rightarrow> if ignorable then None else Some e | None \<Rightarrow> None)"

definition syncDirectory :: "saveFaults \<Rightarrow> goerror option" where
  "syncDirectory io =
     (case sfDirOpen io of Some e \<Rightarrow> Some e | None \<Rightarrow>
     (case sfDirSeek io of Some e \<Rightarrow> Some e | None \<Rightarrow> syncError (sfDirSync io)))"

definition checkpointText :: "Checkpoint \<Rightarrow> string" where
  "checkpointText cp = indentVal 0 (JObj (checkpointMembers cp)) @ [CHR 0x0A]"

definition SaveCheckpoint :: "string \<Rightarrow> saveFaults \<Rightarrow> Checkpoint \<Rightarrow> Disk \<Rightarrow> goerror option \<times> Disk" where
  "SaveCheckpoint now io cp0 d =
     (case sfMkdir io of Some e \<Rightarrow> (Some (ErrWrap ''mkdir checkpoint dir'' e), d) | None \<Rightarrow>
       (let cp = cp0\<lparr>cpUpdatedAt := now\<rparr> in
        case MarshalIndent (JObj (checkpointMembers cp)) of
          None \<Rightarrow> (Some (ErrWrap ''marshal checkpoint'' ErrJSON), d)
        | Some bytes \<Rightarrow>
       (case sfOpenTemp io of Some e \<Rightarrow> (Some (ErrWrap ''open checkpoint temp file'' e), d) | None \<Rightarrow>
         (let line = bytes @ [CHR 0x0A] in
          case sfWrite io of
            Some (k, e) \<Rightarrow> (Some (ErrWrap ''write checkpoint temp file'' e), d\<lparr>dkTemp := Some (take k line)\<rparr>)
          | None \<Rightarrow>
              (let d1 = d\<lparr>dkTemp := Some line\<rparr> in
               case syncError (sfSync io) of
                 Some e \<Rightarrow> (Some (ErrWrap ''sync checkpoint temp file'' e), d1)
               | None \<Rightarrow>
               (case sfClose io of
                 Some e \<Rightarrow> (Some (ErrWrap ''close checkpoint temp file'' e), d1)
               | None \<Rightarrow>
               (case sfRename io of
                 Some e \<Rightarrow> (Some (ErrWrap ''replace checkpoint'' e), d1)
               | None \<Rightarrow>
                   (let d2 = \<lparr>dkCheckpoint = Some line, dkTemp = None\<rparr> in
                    case syncDirectory io of
                      Some e \<Rightarrow> (Some (ErrWrap ''sync checkpoint directory'' e), d2)
                    | None \<Rightarrow> (None, d2)))))))))"

section \<open>The states of a save\<close>

inductive saveState :: "string \<Rightarrow> Disk \<Rightarrow> Disk \<Rightarrow> bool" for line d0 where
  untouched: "saveState line d0 d0"
| tempWritten: "saveState line d0 d \<Longrightarrow> saveState line d0 (d\<lparr>dkTemp := Some (take k line)\<rparr>)"
| renamed: "saveState line d0 d \<Longrightarrow> dkTemp d = Some line \<Longrightarrow> saveState line d0 \<lparr>dkCheckpoint = Some line, dkTemp = None\<rparr>"

inductive_cases saveStateE: "saveState line d0 d"

lemma saveState_atomic:
  "saveState line d0 d \<Longrightarrow> dkCheckpoint d = dkCheckpoint d0 \<or> dkCheckpoint d = Some line"
  by (induction rule: saveState.induct) auto

lemma numsOk_checkpoint: "numsOkMembers (checkpointMembers cp) \<longleftrightarrow> isNumLit (Itoa (cpOffset cp))"
  by (simp add: checkpointMembers_def digits_isNumLit)

lemma Itoa_nonneg: "0 \<le> i \<Longrightarrow> Itoa i = FormatUint (nat i)"
  by (simp add: Itoa_def)

lemma SaveCheckpoint_cases:
  assumes "0 \<le> cpOffset cp"
  shows "saveState (checkpointText (cp\<lparr>cpUpdatedAt := now\<rparr>)) d (snd (SaveCheckpoint now io cp d)) \<and>
    (fst (SaveCheckpoint now io cp d) = None \<longrightarrow>
       dkCheckpoint (snd (SaveCheckpoint now io cp d)) = Some (checkpointText (cp\<lparr>cpUpdatedAt := now\<rparr>)))"
proof -
  let ?line = "checkpointText (cp\<lparr>cpUpdatedAt := now\<rparr>)"
  have m: "MarshalIndent (JObj (checkpointMembers (cp\<lparr>cpUpdatedAt := now\<rparr>))) =
      Some (indentVal 0 (JObj (checkpointMembers (cp\<lparr>cpUpdatedAt := now\<rparr>))))"
    using assms by (simp add: MarshalIndent_def numsOk_checkpoint Itoa_nonneg digits_isNumLit del: indentVal.simps)
  have t: "saveState ?line d (d\<lparr>dkTemp := Some (take k ?line)\<rparr>)" for k
    by (rule tempWritten [OF untouched])
  from t [of "length ?line"] have f: "saveState ?line d (d\<lparr>dkTemp := Some ?line\<rparr>)" by simp
  then have r: "saveState ?line d \<lparr>dkCheckpoint = Some ?line, dkTemp = None\<rparr>" by (rule renamed) simp
  show ?thesis
    using m t f r untouched [of ?line d]
    by (auto simp: SaveCheckpoint_def checkpointText_def Let_def simp del: indentVal.simps split: option.split)
qed

section \<open>Round trip\<close>

lemma matchField_checkpoint:
  "matchField checkpointFields ''file_path'' = Some ''file_path''" "matchField checkpointFields ''offset'' = Some ''offset''"
  "matchField checkpointFields ''dev'' = Some ''dev''" "matchField checkpointFields ''inode'' = Some ''inode''"
  "matchField checkpointFields ''updated_at'' = Some ''updated_at''"
  by (simp_all add: matchField_def checkpointFields_def)

definition okCheckpoint :: "Checkpoint \<Rightarrow> bool" where
  "okCheckpoint cp \<longleftrightarrow> validUtf8 (cpFilePath cp) \<and> validUtf8 (cpUpdatedAt cp) \<and> 0 \<le> cpOffset cp \<and> cpOffset cp \<le> maxInt64"

lemma decode_checkpoint:
  assumes "okCheckpoint cp"
  shows "decodeStrict checkpointFields setCheckpointField (checkpointMembers cp) zeroCheckpoint = Some cp"
proof -
  have "ParseInt (Itoa (cpOffset cp)) = (cpOffset cp, False)"
    using assms ParseInt_FormatUint [of "nat (cpOffset cp)"] by (simp add: okCheckpoint_def Itoa_nonneg)
  then show ?thesis
    by (simp add: checkpointMembers_def matchField_checkpoint setCheckpointField_def zeroCheckpoint_def)
qed

lemma Load_checkpointText:
  assumes "okCheckpoint cp"
  shows "LoadCheckpoint (Inr (Some (checkpointText cp))) = Inr cp"
proof -
  let ?t = "checkpointText cp"
  have ok: "list_all (\<lambda>(k, v). validUtf8 k \<and> okDoc v \<and> isScalar v) (checkpointMembers cp)"
    using assms by (simp add: okCheckpoint_def checkpointMembers_def Itoa_nonneg digits_isNumLit byteVal_def validUtf8_all_ASCII)
  have len: "length (checkpointMembers cp) = 5" "checkpointMembers cp \<noteq> []" by (simp_all add: checkpointMembers_def)
  have "6 \<le> 2 * length ?t" by (simp add: checkpointText_def checkpointMembers_def quoteStr_def indentNL_def)
  then obtain n where n: "2 * length ?t + 2 = Suc n" "5 < n" by (cases "2 * length ?t + 2") auto
  have "parseVal (Suc n) maxNestingDepth (indentVal 0 (JObj (checkpointMembers cp)) @ [CHR 0x0A]) =
      Some (JObj (checkpointMembers cp), [CHR 0x0A])"
    using n(2) len by (intro parse_indentObj [OF ok]) (simp_all add: maxNestingDepth_def)
  then show ?thesis
    using decode_checkpoint [OF assms] assms n(1)
    by (simp add: LoadCheckpoint_def decodeFirst_def checkpointText_def okCheckpoint_def del: indentVal.simps)
qed

end
