(* ===== verification/Forwarder_Follower.thy ===== *)
theory Forwarder_Follower
  imports Forwarder_Parser Forwarder_Checkpoint
begin

text \<open>
  \<open>cmd/log-forwarder/follower.go\<close>: the tail of a log file.  What the operating system answers in one
  round of the loop is a \<open>Poll\<close>: the chunks the reads return and how they end, the result of \<open>stat\<close>,
  and, after a rotation, the rest of the old file and the new one.  The handler of a line and the save
  of a checkpoint are functions on the state \<open>'h\<close> of the rest of the program.  Offsets are byte counts
  of a file and stay below 2 to the 63.
\<close>

section \<open>State\<close>

record FileIdentity =
  fiDev :: uint64
  fiInode :: uint64

record Follower =
  foOpen :: bool
  foIdentity :: FileIdentity
  foReadOffset :: int
  foCommittedOffset :: int
  foPending :: string

datatype readEnd = AtEOF | ReadError goerror

datatype statOutcome = StatMissing | StatFailed goerror | StatOk FileIdentity int

text \<open>What the system says: \<open>os.Stat\<close> with its error and whether that is \<open>os.ErrNotExist\<close>; opening a file and
  then its \<open>Stat\<close>; the identity is missing when the platform reports none.\<close>

type_synonym rawStat = "(goerror \<times> bool) + (FileIdentity option \<times> int)"
type_synonym rawOpen = "goerror + goerror + (FileIdentity option \<times> int)"

definition fileIdentityFromInfo :: "FileIdentity option \<Rightarrow> FileIdentity result" where
  "fileIdentityFromInfo sys = (case sys of None \<Rightarrow> Inl (ErrMsg ''file identity unavailable'') | Some i \<Rightarrow> Inr i)"

definition statFileWithIdentity :: "rawStat \<Rightarrow> statOutcome" where
  "statFileWithIdentity r =
     (case r of
        Inl (e, notExist) \<Rightarrow> if notExist then StatMissing else StatFailed (ErrWrap ''stat source file'' e)
      | Inr (sys, n) \<Rightarrow> (case fileIdentityFromInfo sys of Inl e \<Rightarrow> StatFailed e | Inr i \<Rightarrow> StatOk i n))"

definition openFileWithIdentity :: "rawOpen \<Rightarrow> (FileIdentity \<times> int) result" where
  "openFileWithIdentity r =
     (case r of
        Inl e \<Rightarrow> Inl (ErrWrap ''open source file'' e)
      | Inr (Inl e) \<Rightarrow> Inl (ErrWrap ''stat source file'' e)
      | Inr (Inr (sys, n)) \<Rightarrow> (case fileIdentityFromInfo sys of Inl e \<Rightarrow> Inl e | Inr i \<Rightarrow> Inr (i, n)))"

record Poll =
  poChunks :: "string list"
  poEnd :: readEnd
  poStat :: rawStat
  poSeek :: "goerror option"
  poOldChunks :: "string list"
  poOldEnd :: readEnd
  poReopen :: rawOpen

type_synonym 'h lineHandler = "TailEvent \<Rightarrow> 'h \<Rightarrow> goerror option \<times> 'h"
type_synonym 'h saver = "Checkpoint \<Rightarrow> 'h \<Rightarrow> goerror option \<times> 'h"

definition checkpointAt :: "string \<Rightarrow> FileIdentity \<Rightarrow> int \<Rightarrow> Checkpoint" where
  "checkpointAt src i off = \<lparr>cpFilePath = src, cpOffset = off, cpDev = fiDev i, cpInode = fiInode i, cpUpdatedAt = []\<rparr>"

section \<open>Opening\<close>

definition openFromCheckpoint :: "string \<Rightarrow> Checkpoint result \<Rightarrow> (FileIdentity \<times> int) result \<Rightarrow> (int \<Rightarrow> goerror option)
    \<Rightarrow> Follower result" where
  "openFromCheckpoint src loaded opened seek =
     (case loaded of Inl e \<Rightarrow> Inl e | Inr cp \<Rightarrow>
     (case opened of Inl e \<Rightarrow> Inl e | Inr (ident, fsize) \<Rightarrow>
       (let startOffset = (if cpFilePath cp = src \<and> 0 \<le> cpOffset cp \<and> cpOffset cp \<le> fsize \<and>
                              cpDev cp = fiDev ident \<and> cpInode cp = fiInode ident then cpOffset cp else 0)
        in case seek startOffset of
             Some e \<Rightarrow> Inl (ErrWrap ''seek source file'' e)
           | None \<Rightarrow> Inr \<lparr>foOpen = True, foIdentity = ident, foReadOffset = startOffset,
                          foCommittedOffset = startOffset, foPending = []\<rparr>)))"

section \<open>Reading\<close>

text \<open>The inner loop: every complete line of the pending bytes is handed over, then the position after
  it is saved.\<close>

function drainPending :: "'h lineHandler \<Rightarrow> 'h saver \<Rightarrow> string \<Rightarrow> Follower \<Rightarrow> 'h \<Rightarrow> goerror option \<times> Follower \<times> 'h" where
  "drainPending onLine save src f h =
     (if NL \<notin> set (foPending f) then (None, f, h)
      else
        (let raw = takeWhile (\<lambda>c. c \<noteq> NL) (foPending f);
             line = TrimSuffix raw [CHR 0x0D];
             f1 = f\<lparr>foPending := drop (Suc (length raw)) (foPending f),
                    foCommittedOffset := foCommittedOffset f + int (Suc (length raw))\<rparr>;
             event = \<lparr>teLine = line, teSourceFile = src, teCommittedOffset = foCommittedOffset f1\<rparr>
         in case onLine event h of
              (Some e, h1) \<Rightarrow> (Some e, f1, h1)
            | (None, h1) \<Rightarrow>
                (case save (checkpointAt src (foIdentity f) (foCommittedOffset f1)) h1 of
                   (Some e, h2) \<Rightarrow> (Some e, f1, h2)
                 | (None, h2) \<Rightarrow> drainPending onLine save src f1 h2)))"
  by pat_completeness auto
termination
  by (relation "measure (\<lambda>(_, _, _, f, _). length (foPending f))") (auto intro!: diff_less length_pos_if_in_set)

declare drainPending.simps [simp del]

fun readChunks :: "'h lineHandler \<Rightarrow> 'h saver \<Rightarrow> string \<Rightarrow> string list \<Rightarrow> readEnd \<Rightarrow> Follower \<Rightarrow> 'h
    \<Rightarrow> goerror option \<times> Follower \<times> 'h" where
  "readChunks onLine save src [] rend f h =
     (case rend of AtEOF \<Rightarrow> (None, f, h) | ReadError e \<Rightarrow> (Some (ErrWrap ''read source file'' e), f, h))"
| "readChunks onLine save src (c # cs) rend f h =
     (case drainPending onLine save src
             (f\<lparr>foReadOffset := foReadOffset f + int (length c), foPending := foPending f @ c\<rparr>) h of
        (Some e, f1, h1) \<Rightarrow> (Some e, f1, h1)
      | (None, f1, h1) \<Rightarrow> readChunks onLine save src cs rend f1 h1)"

definition readAvailable :: "'h lineHandler \<Rightarrow> 'h saver \<Rightarrow> string \<Rightarrow> string list \<Rightarrow> readEnd \<Rightarrow> Follower \<Rightarrow> 'h
    \<Rightarrow> goerror option \<times> Follower \<times> 'h" where
  "readAvailable onLine save src chunks rend f h =
     (if \<not> foOpen f then (Some (ErrMsg ''follower has no open file''), f, h)
      else readChunks onLine save src chunks rend f h)"

section \<open>Truncation and rotation\<close>

definition restartAt0 :: "FileIdentity \<Rightarrow> Follower \<Rightarrow> Follower" where
  "restartAt0 i f = f\<lparr>foOpen := True, foIdentity := i, foReadOffset := 0, foCommittedOffset := 0, foPending := []\<rparr>"

definition handleFileChanges :: "'h lineHandler \<Rightarrow> 'h saver \<Rightarrow> string \<Rightarrow> Poll \<Rightarrow> Follower \<Rightarrow> 'h
    \<Rightarrow> goerror option \<times> Follower \<times> 'h" where
  "handleFileChanges onLine save src p f h =
     (case statFileWithIdentity (poStat p) of
        StatMissing \<Rightarrow> (None, f, h)
      | StatFailed e \<Rightarrow> (Some e, f, h)
      | StatOk currentIdentity fsize \<Rightarrow>
          if currentIdentity = foIdentity f then
            (if fsize < foReadOffset f then
               (case poSeek p of
                  Some e \<Rightarrow> (Some (ErrWrap ''seek truncated file'' e), f, h)
                | None \<Rightarrow>
                    (let f1 = restartAt0 (foIdentity f) f;
                         (err, h1) = save (checkpointAt src (foIdentity f) 0) h
                     in (err, f1, h1)))
             else (None, f, h))
          else
            (case readAvailable onLine save src (poOldChunks p) (poOldEnd p) f h of
               (Some e, f1, h1) \<Rightarrow> (Some e, f1, h1)
             | (None, f1, h1) \<Rightarrow>
                 (case openFileWithIdentity (poReopen p) of
                    Inl e \<Rightarrow> (Some e, f1\<lparr>foOpen := False\<rparr>, h1)
                  | Inr (ident, _) \<Rightarrow>
                      (let (err, h2) = save (checkpointAt src ident 0) h1
                       in (err, restartAt0 ident f1, h2)))))"

section \<open>Run\<close>

text \<open>One round per poll; the context ends after the last.\<close>

fun followLoop :: "'h lineHandler \<Rightarrow> 'h saver \<Rightarrow> string \<Rightarrow> Poll list \<Rightarrow> Follower \<Rightarrow> 'h \<Rightarrow> goerror option \<times> Follower \<times> 'h" where
  "followLoop onLine save src [] f h = (None, f, h)"
| "followLoop onLine save src (p # ps) f h =
     (case readAvailable onLine save src (poChunks p) (poEnd p) f h of
        (Some e, f1, h1) \<Rightarrow> (Some e, f1, h1)
      | (None, f1, h1) \<Rightarrow>
          (case handleFileChanges onLine save src p f1 h1 of
             (Some e, f2, h2) \<Rightarrow> (Some e, f2, h2)
           | (None, f2, h2) \<Rightarrow> followLoop onLine save src ps f2 h2))"

definition FollowerRun :: "'h lineHandler \<Rightarrow> 'h saver \<Rightarrow> string \<Rightarrow> Checkpoint result \<Rightarrow> rawOpen \<Rightarrow>
    (int \<Rightarrow> goerror option) \<Rightarrow> Poll list \<Rightarrow> 'h \<Rightarrow> goerror option \<times> 'h" where
  "FollowerRun onLine save src loaded opened seek polls h =
     (case openFromCheckpoint src loaded (openFileWithIdentity opened) seek of
        Inl e \<Rightarrow> (Some e, h)
      | Inr f \<Rightarrow> (let (err, _, h') = followLoop onLine save src polls f h in (err, h')))"

section \<open>What a file's bytes mean\<close>

text \<open>The events of a run of bytes that starts at the offset \<open>off\<close>, and the bytes after its last
  complete line.\<close>

function lineEvents :: "string \<Rightarrow> int \<Rightarrow> string \<Rightarrow> TailEvent list" where
  "lineEvents src off s =
     (if NL \<notin> set s then []
      else (let raw = takeWhile (\<lambda>c. c \<noteq> NL) s; off' = off + int (Suc (length raw)) in
            \<lparr>teLine = TrimSuffix raw [CHR 0x0D], teSourceFile = src, teCommittedOffset = off'\<rparr>
            # lineEvents src off' (drop (Suc (length raw)) s)))"
  by pat_completeness auto
termination
  by (relation "measure (\<lambda>(_, _, s). length s)") (auto intro!: diff_less length_pos_if_in_set)

function restOf :: "string \<Rightarrow> string" where
  "restOf s = (if NL \<notin> set s then s else restOf (drop (Suc (length (takeWhile (\<lambda>c. c \<noteq> NL) s))) s))"
  by pat_completeness auto
termination
  by (relation "measure length") (auto intro!: diff_less length_pos_if_in_set)

declare lineEvents.simps [simp del] restOf.simps [simp del]

lemma no_line [simp]: "NL \<notin> set s \<Longrightarrow> lineEvents src off s = []" "NL \<notin> set s \<Longrightarrow> restOf s = s"
  by (simp_all add: lineEvents.simps [of src off s] restOf.simps [of s])

lemma one_line:
  assumes "NL \<notin> set raw"
  shows "lineEvents src off (raw @ NL # t) =
      \<lparr>teLine = TrimSuffix raw [CHR 0x0D], teSourceFile = src, teCommittedOffset = off + int (Suc (length raw))\<rparr>
      # lineEvents src (off + int (Suc (length raw))) t"
    "restOf (raw @ NL # t) = restOf t"
  using assms by (simp_all add: lineEvents.simps [of src off "raw @ NL # t"] restOf.simps [of "raw @ NL # t"] Let_def)

text \<open>Induction over the lines of a string.\<close>

lemma lines_induct [case_names rest line]:
  assumes "\<And>s. NL \<notin> set s \<Longrightarrow> P s" "\<And>raw t. NL \<notin> set raw \<Longrightarrow> P t \<Longrightarrow> P (raw @ NL # t)"
  shows "P s"
proof (induction s rule: length_induct)
  case (1 s)
  show ?case
  proof (cases "NL \<in> set s")
    case True
    then obtain raw t where "s = raw @ NL # t" "NL \<notin> set raw" by (meson split_list_first)
    then show ?thesis using assms(2) 1 by simp
  qed (rule assms(1))
qed

lemma restOf_no_NL [simp]: "NL \<notin> set (restOf s)"
  by (induction s rule: lines_induct) (simp_all add: one_line)

lemma length_restOf: "length (restOf s) \<le> length s"
  by (induction s rule: lines_induct) (simp_all add: one_line)

text \<open>Bytes that arrive in two pieces give the events of the whole.\<close>

lemma lineEvents_append:
  "lineEvents src off (a @ b) =
     lineEvents src off a @ lineEvents src (off + int (length a) - int (length (restOf a))) (restOf a @ b) \<and>
   restOf (restOf a @ b) = restOf (a @ b)"
proof (induction a arbitrary: off rule: lines_induct)
  case (line raw t)
  from line.IH [of "off + int (Suc (length raw))"] show ?case
    using one_line(1) [OF line(1), of src off] one_line(2) [OF line(1)] by (simp add: algebra_simps)
qed simp

section \<open>The follower hands over exactly those events\<close>

text \<open>Each event goes to the handler and then its position is saved; the first error ends it.\<close>

fun deliverAll :: "'h lineHandler \<Rightarrow> 'h saver \<Rightarrow> FileIdentity \<Rightarrow> TailEvent list \<Rightarrow> 'h \<Rightarrow> goerror option \<times> 'h" where
  "deliverAll onLine save i [] h = (None, h)"
| "deliverAll onLine save i (ev # evs) h =
     (case onLine ev h of
        (Some e, h1) \<Rightarrow> (Some e, h1)
      | (None, h1) \<Rightarrow>
          (case save (checkpointAt (teSourceFile ev) i (teCommittedOffset ev)) h1 of
             (Some e, h2) \<Rightarrow> (Some e, h2)
           | (None, h2) \<Rightarrow> deliverAll onLine save i evs h2))"

lemma deliverAll_append:
  "deliverAll onLine save i (xs @ ys) h =
     (case deliverAll onLine save i xs h of (Some e, h1) \<Rightarrow> (Some e, h1) | (None, h1) \<Rightarrow> deliverAll onLine save i ys h1)"
  by (induction xs arbitrary: h) (auto split: prod.split option.split)

definition settled :: "Follower \<Rightarrow> string \<Rightarrow> Follower" where
  "settled f s = f\<lparr>foPending := restOf s,
     foCommittedOffset := foCommittedOffset f + int (length s) - int (length (restOf s))\<rparr>"

lemma drainPending_events:
  "drainPending onLine save src f h = (err, f', h') \<Longrightarrow>
   deliverAll onLine save (foIdentity f) (lineEvents src (foCommittedOffset f) (foPending f)) h = (err, h') \<and>
   (err = None \<longrightarrow> f' = settled f (foPending f))"
proof (induction "foPending f" arbitrary: f h rule: lines_induct)
  case rest
  then show ?case by (simp add: drainPending.simps [of onLine save src f] settled_def)
next
  case (line raw t)
  let ?f1 = "f\<lparr>foPending := t, foCommittedOffset := foCommittedOffset f + int (Suc (length raw))\<rparr>"
  let ?ev = "\<lparr>teLine = TrimSuffix raw [CHR 0x0D], teSourceFile = src, teCommittedOffset = foCommittedOffset f + int (Suc (length raw))\<rparr>"
  note p = line.hyps(3) [symmetric]
  have dropLine: "drop (Suc (length raw)) (raw @ NL # t) = t" by simp
  have step: "drainPending onLine save src f h = (case onLine ?ev h of (Some e, h1) \<Rightarrow> (Some e, ?f1, h1)
      | (None, h1) \<Rightarrow> (case save (checkpointAt src (foIdentity f) (foCommittedOffset f + int (Suc (length raw)))) h1 of
          (Some e, h2) \<Rightarrow> (Some e, ?f1, h2) | (None, h2) \<Rightarrow> drainPending onLine save src ?f1 h2))"
    using line.hyps(1) by (subst drainPending.simps) (simp add: p Let_def dropLine del: drop_append split: prod.split option.split)
  have st: "settled ?f1 t = settled f (raw @ NL # t)"
    using one_line(2) [OF line.hyps(1)] by (simp add: settled_def)
  show ?case
    using line.prems line.hyps(2) [of ?f1] one_line(1) [OF line.hyps(1), of src "foCommittedOffset f" t] st unfolding step
    by (auto simp: p split: prod.splits option.splits)
qed

lemma readChunks_events:
  assumes "readChunks onLine save src cs AtEOF f h = (err, f', h')" "NL \<notin> set (foPending f)"
  shows "deliverAll onLine save (foIdentity f) (lineEvents src (foCommittedOffset f) (foPending f @ concat cs)) h = (err, h') \<and>
   (err = None \<longrightarrow> f' = (settled f (foPending f @ concat cs))\<lparr>foReadOffset := foReadOffset f + int (length (concat cs))\<rparr>)"
  using assms
proof (induction cs arbitrary: f h)
  case (Cons c cs)
  let ?f0 = "f\<lparr>foReadOffset := foReadOffset f + int (length c), foPending := foPending f @ c\<rparr>"
  let ?s = "foPending f @ c"
  obtain err1 f1 h1 where d: "drainPending onLine save src ?f0 h = (err1, f1, h1)" by (metis prod_cases3)
  note drain = drainPending_events [OF d]
  have evs: "lineEvents src (foCommittedOffset f) (foPending f @ concat (c # cs)) =
      lineEvents src (foCommittedOffset f) ?s @
      lineEvents src (foCommittedOffset f + int (length ?s) - int (length (restOf ?s))) (restOf ?s @ concat cs)"
    "restOf (restOf ?s @ concat cs) = restOf (foPending f @ concat (c # cs))"
    using lineEvents_append [of src "foCommittedOffset f" ?s "concat cs"] by simp_all
  show ?case
  proof (cases err1)
    case (Some e)
    then have "readChunks onLine save src (c # cs) AtEOF f h = (Some e, f1, h1)" using d by simp
    moreover have "deliverAll onLine save (foIdentity f) (lineEvents src (foCommittedOffset f) ?s) h = (Some e, h1)"
      using drain Some by simp
    ultimately show ?thesis using Cons.prems(1) unfolding evs(1) by (auto simp: deliverAll_append)
  next
    case None
    then have f1: "f1 = settled ?f0 ?s" and h1: "deliverAll onLine save (foIdentity f) (lineEvents src (foCommittedOffset f) ?s) h = (None, h1)"
      using drain by simp_all
    have rec: "readChunks onLine save src cs AtEOF f1 h1 = (err, f', h')" using Cons.prems(1) d None by simp
    have fs: "foPending f1 = restOf ?s" "foIdentity f1 = foIdentity f" "foReadOffset f1 = foReadOffset f + int (length c)"
      "foCommittedOffset f1 = foCommittedOffset f + int (length ?s) - int (length (restOf ?s))"
      by (simp_all add: f1 settled_def)
    have IH: "deliverAll onLine save (foIdentity f) (lineEvents src (foCommittedOffset f1) (restOf ?s @ concat cs)) h1 = (err, h') \<and>
      (err = None \<longrightarrow> f' = (settled f1 (restOf ?s @ concat cs))\<lparr>foReadOffset := foReadOffset f1 + int (length (concat cs))\<rparr>)"
      using Cons.IH [OF rec] by (simp add: fs)
    have "(settled f1 (restOf ?s @ concat cs))\<lparr>foReadOffset := foReadOffset f1 + int (length (concat cs))\<rparr> =
        (settled f (foPending f @ concat (c # cs)))\<lparr>foReadOffset := foReadOffset f + int (length (concat (c # cs)))\<rparr>"
      using evs(2) length_restOf [of ?s] by (simp add: settled_def f1)
    moreover have "deliverAll onLine save (foIdentity f) (lineEvents src (foCommittedOffset f) (foPending f @ concat (c # cs))) h = (err, h')"
      using IH h1 fs(4) unfolding evs(1) by (simp add: deliverAll_append)
    ultimately show ?thesis using IH by metis
  qed
qed (simp add: settled_def)

section \<open>Resuming\<close>

text \<open>The position saved after an event is where the events after it begin.\<close>

lemma lineEvents_offsets:
  "ev \<in> set (lineEvents src off s) \<Longrightarrow> off < teCommittedOffset ev \<and> teCommittedOffset ev \<le> off + int (length s) \<and> teSourceFile ev = src"
proof (induction s arbitrary: off rule: lines_induct)
  case (line raw t)
  let ?off = "off + int (Suc (length raw))"
  from line.prems consider "ev = \<lparr>teLine = TrimSuffix raw [CHR 0x0D], teSourceFile = src, teCommittedOffset = ?off\<rparr>"
    | "ev \<in> set (lineEvents src ?off t)" by (auto simp: one_line(1) [OF line(1)])
  then show ?case
  proof cases
    case 2
    from line.IH [OF this] show ?thesis by simp
  qed simp
qed simp

lemma lineEvents_resume:
  "k < length (lineEvents src off s) \<Longrightarrow> o' = teCommittedOffset (lineEvents src off s ! k) \<Longrightarrow>
   lineEvents src o' (drop (nat (o' - off)) s) = drop (Suc k) (lineEvents src off s)"
proof (induction s arbitrary: off k rule: lines_induct)
  case (line raw t)
  let ?off = "off + int (Suc (length raw))"
  show ?case
  proof (cases k)
    case 0
    then show ?thesis using line.prems by (simp add: one_line(1) [OF line(1)] nat_add_distrib)
  next
    case (Suc j)
    then have j: "j < length (lineEvents src ?off t)" "o' = teCommittedOffset (lineEvents src ?off t ! j)"
      using line.prems by (simp_all add: one_line(1) [OF line(1)])
    have lt: "?off < o'" using lineEvents_offsets [of "lineEvents src ?off t ! j" src ?off t] j by simp
    then have "drop (nat (o' - off)) (raw @ NL # t) = drop (nat (o' - ?off)) t"
    proof -
      have "nat (o' - off) = Suc (length raw) + nat (o' - ?off)" using lt by simp
      then have "drop (nat (o' - off)) (raw @ NL # t) = drop (nat (o' - ?off)) (drop (Suc (length raw)) (raw @ NL # t))"
        by (simp only: drop_drop add.commute)
      moreover have "drop (Suc (length raw)) (raw @ NL # t) = t" by simp
      ultimately show ?thesis by (simp only:)
    qed
    then show ?thesis using line.IH [OF j] Suc by (simp add: one_line(1) [OF line(1)])
  qed
qed simp

lemma openFromCheckpoint_resume:
  assumes "cpFilePath cp = src" "0 \<le> cpOffset cp" "cpOffset cp \<le> n" "cpDev cp = fiDev i" "cpInode cp = fiInode i"
    and "seek (cpOffset cp) = None"
  shows "openFromCheckpoint src (Inr cp) (Inr (i, n)) seek =
    Inr \<lparr>foOpen = True, foIdentity = i, foReadOffset = cpOffset cp, foCommittedOffset = cpOffset cp, foPending = []\<rparr>"
  using assms by (simp add: openFromCheckpoint_def Let_def)

text \<open>Between polls the bytes read are the bytes handed over and those pending, which hold no line end.\<close>

definition followOk :: "Follower \<Rightarrow> bool" where
  "followOk f \<longleftrightarrow> foReadOffset f = foCommittedOffset f + int (length (foPending f)) \<and> NL \<notin> set (foPending f)"

lemma readChunks_followOk:
  assumes "readChunks onLine save src cs AtEOF f h = (None, f', h')" "followOk f"
  shows "followOk f'"
  using readChunks_events [OF assms(1)] assms(2) by (simp add: followOk_def settled_def)

lemma handleFileChanges_followOk:
  assumes "handleFileChanges onLine save src p f h = (None, f', h')" "followOk f" "poOldEnd p = AtEOF"
  shows "followOk f'"
  using assms
  by (auto simp: handleFileChanges_def readAvailable_def Let_def restartAt0_def followOk_def
      split: statOutcome.splits if_splits option.splits prod.splits sum.splits)

text \<open>A rotation reads the old file to its end and then drops what follows its last line end.\<close>

lemma rotation_drops_partial_line:
  assumes "poStat p = Inr (Some i, n)" "i \<noteq> foIdentity f" "poReopen p = Inr (Inr (Some j, m))" "poOldEnd p = AtEOF"
    and "handleFileChanges onLine save src p f h = (None, f', h')" "foOpen f" "NL \<notin> set (foPending f)"
  shows "foPending f' = [] \<and> foCommittedOffset f' = 0 \<and>
    (\<exists>h1. deliverAll onLine save (foIdentity f) (lineEvents src (foCommittedOffset f) (foPending f @ concat (poOldChunks p))) h = (None, h1))"
proof -
  obtain f1 h1 where r: "readChunks onLine save src (poOldChunks p) AtEOF f h = (None, f1, h1)"
    using assms
    by (auto simp: handleFileChanges_def readAvailable_def statFileWithIdentity_def fileIdentityFromInfo_def split: option.splits prod.splits)
  then show ?thesis
    using readChunks_events [OF r assms(7)] assms
    by (auto simp: handleFileChanges_def readAvailable_def restartAt0_def Let_def statFileWithIdentity_def openFileWithIdentity_def
        fileIdentityFromInfo_def split: prod.splits)
qed

end
