(* ===== verification/Forwarder_Delivery.thy ===== *)
theory Forwarder_Delivery
  imports Forwarder_Follower
begin

text \<open>
  \<open>cmd/log-forwarder/delivery.go\<close> and \<open>metrics.go\<close>: the payload of an event, its idempotency key, the
  dead-letter file, the delivery through the client library, and the counters.
\<close>

section \<open>Payload and key\<close>

definition BuildPayload :: "NormalizedEvent \<Rightarrow> string \<Rightarrow> LogRequest" where
  "BuildPayload parsed idempotencyKey =
     (let base = fold (\<lambda>(k, v). mapPut k v)
            [(''source_file'', JStr (neSourceFile parsed)), (''source_offset'', JNum (Itoa (neSourceOffset parsed))),
             (''source_timestamp_raw'', JStr (neTimestampRaw parsed)), (''parser_mode'', JStr (neParserMode parsed)),
             (''raw_line'', JStr (neRawLine parsed)), (''idempotency_key'', JStr idempotencyKey)] []
      in \<lparr>lqApp = neApp parsed, lqLevel = neLevel parsed, lqMessage = neMessage parsed,
          lqMetadata = Some (fold (\<lambda>(k, v). mapPut k v) (neAdditionalFields parsed) base)\<rparr>)"

definition ComputeIdempotencyKey :: "string \<Rightarrow> string \<Rightarrow> int \<Rightarrow> string \<Rightarrow> string" where
  "ComputeIdempotencyKey appName sourceFile sourceOffset rawLine =
     sha256Hex (appName @ ''|'' @ sourceFile @ ''|'' @ Itoa sourceOffset @ ''|'' @ TrimSpace rawLine)"

section \<open>Dead letters\<close>

definition deadLetterJson :: "string \<Rightarrow> string \<Rightarrow> string \<Rightarrow> int \<Rightarrow> LogRequest \<Rightarrow> json" where
  "deadLetterJson now err sourceFile sourceOffset payload = JObj
     [(''created_at'', JStr now), (''error'', JStr err), (''source_file'', JStr sourceFile),
      (''source_offset'', JNum (Itoa sourceOffset)), (''payload'', requestJson payload)]"

record deadFaults =
  dfMkdir :: "goerror option"
  dfOpen :: "goerror option"
  dfWrite :: "(nat \<times> goerror) option"

definition noDeadFaults :: deadFaults where
  "noDeadFaults = \<lparr>dfMkdir = None, dfOpen = None, dfWrite = None\<rparr>"

text \<open>The file is \<open>None\<close> while it does not exist.\<close>

definition WriteDeadLetter :: "string \<Rightarrow> deadFaults \<Rightarrow> LogRequest \<Rightarrow> string \<Rightarrow> int \<Rightarrow> string \<Rightarrow> string option
    \<Rightarrow> goerror option \<times> string option" where
  "WriteDeadLetter now io payload sourceFile sourceOffset err dead =
     (case dfMkdir io of Some e \<Rightarrow> (Some (ErrWrap ''mkdir dead-letter dir'' e), dead) | None \<Rightarrow>
     (case Marshal (deadLetterJson now err sourceFile sourceOffset payload) of
        None \<Rightarrow> (Some (ErrWrap ''marshal dead-letter entry'' ErrJSON), dead)
      | Some bytes \<Rightarrow>
     (case dfOpen io of Some e \<Rightarrow> (Some (ErrWrap ''open dead-letter file'' e), dead) | None \<Rightarrow>
       (let old = (case dead of None \<Rightarrow> [] | Some c \<Rightarrow> c); line = bytes @ [NL] in
        case dfWrite io of
          Some (k, e) \<Rightarrow> (Some (ErrWrap ''append dead-letter entry'' e), Some (old @ take k line))
        | None \<Rightarrow> (None, Some (old @ line))))))"

section \<open>Metrics\<close>

record RuntimeMetrics =
  rmLinesRead :: uint64
  rmParsedOK :: uint64
  rmParseFailed :: uint64
  rmDeliverySuccess :: uint64
  rmDeliveryFailed :: uint64
  rmDeadLetterWrites :: uint64
  rmRetries :: uint64
  rmDuplicateKeys :: uint64
  rmSeen :: "string set"

definition NewRuntimeMetrics :: RuntimeMetrics where
  "NewRuntimeMetrics = \<lparr>rmLinesRead = 0, rmParsedOK = 0, rmParseFailed = 0, rmDeliverySuccess = 0, rmDeliveryFailed = 0,
     rmDeadLetterWrites = 0, rmRetries = 0, rmDuplicateKeys = 0, rmSeen = {}\<rparr>"

definition IncLinesRead :: "RuntimeMetrics \<Rightarrow> RuntimeMetrics" where
  "IncLinesRead m = m\<lparr>rmLinesRead := rmLinesRead m + 1\<rparr>"

definition IncParsedOK :: "RuntimeMetrics \<Rightarrow> RuntimeMetrics" where
  "IncParsedOK m = m\<lparr>rmParsedOK := rmParsedOK m + 1\<rparr>"

definition IncParseFailed :: "RuntimeMetrics \<Rightarrow> RuntimeMetrics" where
  "IncParseFailed m = m\<lparr>rmParseFailed := rmParseFailed m + 1\<rparr>"

definition IncDeliverySuccess :: "RuntimeMetrics \<Rightarrow> RuntimeMetrics" where
  "IncDeliverySuccess m = m\<lparr>rmDeliverySuccess := rmDeliverySuccess m + 1\<rparr>"

definition IncDeliveryFailed :: "RuntimeMetrics \<Rightarrow> RuntimeMetrics" where
  "IncDeliveryFailed m = m\<lparr>rmDeliveryFailed := rmDeliveryFailed m + 1\<rparr>"

definition IncDeadLetterWrites :: "RuntimeMetrics \<Rightarrow> RuntimeMetrics" where
  "IncDeadLetterWrites m = m\<lparr>rmDeadLetterWrites := rmDeadLetterWrites m + 1\<rparr>"

definition IncRetries :: "RuntimeMetrics \<Rightarrow> RuntimeMetrics" where
  "IncRetries m = m\<lparr>rmRetries := rmRetries m + 1\<rparr>"

definition MarkIdempotencyKey :: "string \<Rightarrow> RuntimeMetrics \<Rightarrow> bool \<times> RuntimeMetrics" where
  "MarkIdempotencyKey key m =
     (if key \<in> rmSeen m then (True, m\<lparr>rmDuplicateKeys := rmDuplicateKeys m + 1\<rparr>)
      else (False, m\<lparr>rmSeen := insert key (rmSeen m)\<rparr>))"

definition snapshotJson :: "RuntimeMetrics \<Rightarrow> json" where
  "snapshotJson m =
     (let num = (\<lambda>w :: uint64. JNum (FormatUint (unat w))) in JObj
      [(''lines_read'', num (rmLinesRead m)), (''parsed_ok'', num (rmParsedOK m)), (''parse_failed'', num (rmParseFailed m)),
       (''delivery_success'', num (rmDeliverySuccess m)), (''delivery_failed'', num (rmDeliveryFailed m)),
       (''dead_letter_writes'', num (rmDeadLetterWrites m)), (''retries'', num (rmRetries m)),
       (''duplicate_keys'', num (rmDuplicateKeys m))])"

definition healthzBody :: "RuntimeMetrics \<Rightarrow> string" where
  "healthzBody m = encodeJson (JObj [(''metrics'', snapshotJson m), (''status'', JStr ''ok'')]) @ [NL]"

definition metricsLine :: "RuntimeMetrics \<Rightarrow> string" where
  "metricsLine m =
     (let num = (\<lambda>w :: uint64. FormatUint (unat w)) in
      ''event=metrics lines_read='' @ num (rmLinesRead m) @ '' parsed_ok='' @ num (rmParsedOK m) @
      '' parse_failed='' @ num (rmParseFailed m) @ '' delivery_success='' @ num (rmDeliverySuccess m) @
      '' delivery_failed='' @ num (rmDeliveryFailed m) @ '' deadletter_writes='' @ num (rmDeadLetterWrites m) @
      '' retries='' @ num (rmRetries m) @ '' duplicate_keys='' @ num (rmDuplicateKeys m))"

section \<open>Delivery of one line\<close>

text \<open>The program around the follower: counters, client, dead-letter file, checkpoint disk, the outcomes
  the coming file operations will have, and the world of the client.\<close>

record 'w FwdState =
  fwMetrics :: RuntimeMetrics
  fwClient :: Client
  fwDead :: "string option"
  fwDisk :: Disk
  fwSaveFaults :: "saveFaults list"
  fwDeadFaults :: "deadFaults list"
  fwWorld :: 'w

text \<open>What the handler is built from: the parser, the client's world, the clock and the text of errors.\<close>

record 'w FwdRuntime =
  frUnicode :: unicode
  frParser :: LineParser
  frClientWorld :: "'w ClientWorld"
  frClock :: "'w \<Rightarrow> string"
  frErrorText :: "goerror \<Rightarrow> string"

definition DeliverParsedEvent :: "'w FwdRuntime \<Rightarrow> NormalizedEvent \<Rightarrow> 'w FwdState
    \<Rightarrow> LogResponse result \<times> clientEvent list \<times> 'w FwdState" where
  "DeliverParsedEvent rt parsed st =
     (let idempotencyKey = ComputeIdempotencyKey (neApp parsed) (neSourceFile parsed) (neSourceOffset parsed) (neRawLine parsed);
          payload = BuildPayload parsed idempotencyKey;
          client = (fwClient st)\<lparr>clHeaders := [(''x-idempotency-key'', idempotencyKey)]\<rparr>;
          (res, ev, w) = WriteLog (frClientWorld rt) client payload (fwWorld st)
      in (res, ev, st\<lparr>fwClient := client, fwWorld := w\<rparr>))"

definition countRetries :: "clientEvent list \<Rightarrow> RuntimeMetrics \<Rightarrow> RuntimeMetrics" where
  "countRetries ev m = fold (\<lambda>e m. case e of OnRetry _ _ _ \<Rightarrow> IncRetries m | _ \<Rightarrow> m) ev m"

definition nextDeadFault :: "'w FwdState \<Rightarrow> deadFaults \<times> 'w FwdState" where
  "nextDeadFault st = (case fwDeadFaults st of [] \<Rightarrow> (noDeadFaults, st) | io # ios \<Rightarrow> (io, st\<lparr>fwDeadFaults := ios\<rparr>))"

definition nextSaveFault :: "'w FwdState \<Rightarrow> saveFaults \<times> 'w FwdState" where
  "nextSaveFault st = (case fwSaveFaults st of [] \<Rightarrow> (noSaveFaults, st) | io # ios \<Rightarrow> (io, st\<lparr>fwSaveFaults := ios\<rparr>))"

definition onMetrics :: "(RuntimeMetrics \<Rightarrow> RuntimeMetrics) \<Rightarrow> 'w FwdState \<Rightarrow> 'w FwdState" where
  "onMetrics f st = st\<lparr>fwMetrics := f (fwMetrics st)\<rparr>"

text \<open>The function \<open>main\<close> passes to \<open>Run\<close>.\<close>

definition handleLine :: "'w FwdRuntime \<Rightarrow> 'w FwdState lineHandler" where
  "handleLine rt event st0 =
     (let st1 = onMetrics IncLinesRead st0 in
      case ParseLine (frUnicode rt) (frParser rt) event of
        Inl _ \<Rightarrow> (None, onMetrics IncParseFailed st1)
      | Inr parsed \<Rightarrow>
          (let idempotencyKey = ComputeIdempotencyKey (neApp parsed) (neSourceFile parsed) (neSourceOffset parsed) (neRawLine parsed);
               st2 = onMetrics (\<lambda>m. snd (MarkIdempotencyKey idempotencyKey m)) (onMetrics IncParsedOK st1);
               payload = BuildPayload parsed idempotencyKey;
               (res, ev, st3) = DeliverParsedEvent rt parsed st2;
               st4 = onMetrics (countRetries ev) st3
           in case res of
                Inr _ \<Rightarrow> (None, onMetrics IncDeliverySuccess st4)
              | Inl err \<Rightarrow>
                  (let (io, st5) = nextDeadFault (onMetrics IncDeliveryFailed st4);
                       (dlErr, dead) = WriteDeadLetter (frClock rt (fwWorld st5)) io payload (neSourceFile parsed)
                         (neSourceOffset parsed) (frErrorText rt err) (fwDead st5);
                       st6 = st5\<lparr>fwDead := dead\<rparr>
                   in case dlErr of
                        Some e \<Rightarrow> (Some e, st6)
                      | None \<Rightarrow> (None, onMetrics IncDeadLetterWrites st6))))"

definition saveLine :: "'w FwdRuntime \<Rightarrow> 'w FwdState saver" where
  "saveLine rt cp st =
     (let (io, st1) = nextSaveFault st;
          (err, d) = SaveCheckpoint (frClock rt (fwWorld st1)) io cp (fwDisk st1)
      in (err, st1\<lparr>fwDisk := d\<rparr>))"

section \<open>Every line is accounted for\<close>

text \<open>The counters of a program between two lines.\<close>

definition balanced :: "RuntimeMetrics \<Rightarrow> bool" where
  "balanced m \<longleftrightarrow> rmLinesRead m = rmParsedOK m + rmParseFailed m \<and>
     rmParsedOK m = rmDeliverySuccess m + rmDeliveryFailed m \<and> rmDeliveryFailed m = rmDeadLetterWrites m"

lemmas inc_defs = IncLinesRead_def IncParsedOK_def IncParseFailed_def IncDeliverySuccess_def IncDeliveryFailed_def
  IncDeadLetterWrites_def

lemma countRetries_counters [simp]:
  "rmLinesRead (countRetries ev m) = rmLinesRead m" "rmParsedOK (countRetries ev m) = rmParsedOK m"
  "rmParseFailed (countRetries ev m) = rmParseFailed m" "rmDeliverySuccess (countRetries ev m) = rmDeliverySuccess m"
  "rmDeliveryFailed (countRetries ev m) = rmDeliveryFailed m" "rmDeadLetterWrites (countRetries ev m) = rmDeadLetterWrites m"
  by (induction ev arbitrary: m) (auto simp: countRetries_def IncRetries_def split: clientEvent.split)

lemma mark_counters [simp]:
  "rmLinesRead (snd (MarkIdempotencyKey k m)) = rmLinesRead m" "rmParsedOK (snd (MarkIdempotencyKey k m)) = rmParsedOK m"
  "rmParseFailed (snd (MarkIdempotencyKey k m)) = rmParseFailed m"
  "rmDeliverySuccess (snd (MarkIdempotencyKey k m)) = rmDeliverySuccess m"
  "rmDeliveryFailed (snd (MarkIdempotencyKey k m)) = rmDeliveryFailed m"
  "rmDeadLetterWrites (snd (MarkIdempotencyKey k m)) = rmDeadLetterWrites m"
  by (simp_all add: MarkIdempotencyKey_def)

lemma Deliver_metrics [simp]: "DeliverParsedEvent rt parsed st = (res, ev, st') \<Longrightarrow> fwMetrics st' = fwMetrics st"
  by (auto simp: DeliverParsedEvent_def Let_def split: prod.splits)

lemma nextFault_metrics [simp]:
  "nextDeadFault st = (io, st') \<Longrightarrow> fwMetrics st' = fwMetrics st" "nextSaveFault st = (sio, st') \<Longrightarrow> fwMetrics st' = fwMetrics st"
  by (auto simp: nextDeadFault_def nextSaveFault_def split: list.splits)

lemma handleLine_counts:
  assumes "handleLine rt ev st = (err, st')" "balanced (fwMetrics st)"
  shows "rmLinesRead (fwMetrics st') = rmLinesRead (fwMetrics st) + 1 \<and> (err = None \<longrightarrow> balanced (fwMetrics st'))"
proof (cases "ParseLine (frUnicode rt) (frParser rt) ev")
  case (Inl e)
  then show ?thesis using assms by (auto simp: handleLine_def onMetrics_def balanced_def inc_defs)
next
  case (Inr parsed)
  define key where "key = ComputeIdempotencyKey (neApp parsed) (neSourceFile parsed) (neSourceOffset parsed) (neRawLine parsed)"
  define st2 where "st2 = onMetrics (\<lambda>m. snd (MarkIdempotencyKey key m)) (onMetrics IncParsedOK (onMetrics IncLinesRead st))"
  obtain res evs st3 where d: "DeliverParsedEvent rt parsed st2 = (res, evs, st3)" by (metis prod_cases3)
  have m3: "fwMetrics st3 = fwMetrics st2" by (rule Deliver_metrics [OF d])
  define st4 where "st4 = onMetrics (countRetries evs) st3"
  show ?thesis
  proof (cases res)
    case (Inr r)
    then have "(err, st') = (None, onMetrics IncDeliverySuccess st4)"
      using assms(1) \<open>ParseLine _ _ ev = Inr parsed\<close> d
      by (simp add: handleLine_def Let_def key_def st2_def st4_def)
    then show ?thesis using assms(2) by (simp add: st4_def m3 onMetrics_def st2_def balanced_def inc_defs)
  next
    case (Inl er)
    obtain io st5 where n: "nextDeadFault (onMetrics IncDeliveryFailed st4) = (io, st5)" by fastforce
    obtain dl dead where w: "WriteDeadLetter (frClock rt (fwWorld st5)) io (BuildPayload parsed key) (neSourceFile parsed)
        (neSourceOffset parsed) (frErrorText rt er) (fwDead st5) = (dl, dead)" by fastforce
    have "(err, st') = (case dl of Some e \<Rightarrow> (Some e, st5\<lparr>fwDead := dead\<rparr>)
        | None \<Rightarrow> (None, onMetrics IncDeadLetterWrites (st5\<lparr>fwDead := dead\<rparr>)))"
      using assms(1) \<open>ParseLine _ _ ev = Inr parsed\<close> d Inl n w
      by (simp add: handleLine_def Let_def key_def st2_def st4_def)
    moreover have "fwMetrics st5 = IncDeliveryFailed (countRetries evs (fwMetrics st2))"
      using nextFault_metrics(1) [OF n] by (simp add: st4_def m3 onMetrics_def)
    ultimately show ?thesis
      using assms(2) by (cases dl) (simp_all add: onMetrics_def st2_def balanced_def inc_defs)
  qed
qed

lemma saveLine_metrics: "saveLine rt cp st = (err, st') \<Longrightarrow> fwMetrics st' = fwMetrics st"
  by (auto simp: saveLine_def Let_def split: prod.splits)

lemma deliverAll_counts:
  assumes "deliverAll (handleLine rt) (saveLine rt) i evs st = (None, st')" "balanced (fwMetrics st)"
  shows "balanced (fwMetrics st') \<and> rmLinesRead (fwMetrics st') = rmLinesRead (fwMetrics st) + word_of_nat (length evs)"
  using assms
proof (induction evs arbitrary: st)
  case (Cons ev evs)
  obtain st1 where h: "handleLine rt ev st = (None, st1)"
    using Cons.prems(1) by (auto split: prod.splits option.splits)
  obtain st2 where s: "saveLine rt (checkpointAt (teSourceFile ev) i (teCommittedOffset ev)) st1 = (None, st2)"
    using Cons.prems(1) h by (auto split: prod.splits option.splits)
  have rest: "deliverAll (handleLine rt) (saveLine rt) i evs st2 = (None, st')" using Cons.prems(1) h s by simp
  have "fwMetrics st2 = fwMetrics st1" by (rule saveLine_metrics [OF s])
  with Cons.IH [OF rest] handleLine_counts [OF h Cons.prems(2)] show ?case by (simp add: algebra_simps)
qed simp

end
