(* ===== verification/Forwarder_Main.thy ===== *)
theory Forwarder_Main
  imports Forwarder_Delivery Go_Flag
begin

text \<open>
  \<open>cmd/log-forwarder/integrity.go\<close> and \<open>main.go\<close>: the periodic check of the remote chain, and the program
  from its flags to the end of the follower.  \<open>url.Parse\<close> and \<open>URL.String\<close> are parameters; the reporter and
  the verifier run beside the follower and share only the counters, which they read.
\<close>

section \<open>The integrity verifier\<close>

record URL =
  urScheme :: string
  urHost :: string
  urPath :: string
  urRawQuery :: string

text \<open>\<open>strings.Replace(s, old, new, 1)\<close>\<close>

fun replaceFirst :: "string \<Rightarrow> string \<Rightarrow> string \<Rightarrow> string" where
  "replaceFirst old new [] = []"
| "replaceFirst old new (c # s) =
     (if startsWith old (c # s) then new @ drop (length old) (c # s) else c # replaceFirst old new s)"

definition TrimRightSlash :: "string \<Rightarrow> string" where
  "TrimRightSlash s = rev (dropWhile (\<lambda>c. c = CHR ''/'') (rev s))"

definition VerifyEndpointFromLogsEndpoint :: "(string \<Rightarrow> URL result) \<Rightarrow> (URL \<Rightarrow> string) \<Rightarrow> string \<Rightarrow> string result" where
  "VerifyEndpointFromLogsEndpoint parseURL urlString logsEndpoint =
     (case parseURL logsEndpoint of
        Inl e \<Rightarrow> Inl e
      | Inr u \<Rightarrow>
          if urScheme u = [] \<or> urHost u = [] then Inl (ErrMsg ''invalid logs endpoint'')
          else
            (let path = (if Contains (urPath u) ''/v1/logs'' then replaceFirst ''/v1/logs'' ''/v1/verify'' (urPath u)
                         else TrimRightSlash (urPath u) @ ''/v1/verify'')
             in Inr (urlString (u\<lparr>urPath := path, urRawQuery := []\<rparr>))))"

record VerifyResponse =
  vrValid :: bool
  vrTotalEntries :: uint64

definition setVerifyField :: "string \<Rightarrow> json \<Rightarrow> VerifyResponse \<Rightarrow> VerifyResponse option" where
  "setVerifyField f v r =
     (if f = ''valid'' then map_option (\<lambda>b. r\<lparr>vrValid := b\<rparr>) (decodeBool v (vrValid r))
      else map_option (\<lambda>n. r\<lparr>vrTotalEntries := n\<rparr>) (decodeUint64 v (vrTotalEntries r)))"

definition unmarshalVerify :: "string \<Rightarrow> VerifyResponse option" where
  "unmarshalVerify s = (case parseJson s of
      None \<Rightarrow> None
    | Some v \<Rightarrow> decodeStruct [''valid'', ''totalEntries''] setVerifyField v \<lparr>vrValid = False, vrTotalEntries = 0\<rparr>)"

text \<open>What one tick logs.\<close>

datatype verifyLog = VerifyBuildFailed goerror | VerifyRequestFailed goerror | VerifyReadFailed goerror
  | VerifyBadStatus nat string | VerifyDecodeFailed | VerifyLogged VerifyResponse string

definition verifyRequest :: "string \<Rightarrow> string \<Rightarrow> HttpRequest" where
  "verifyRequest endpoint token =
     \<lparr>hqMethod = ''GET'', hqURL = endpoint,
      hqHeader = (if TrimSpace token = [] then Map.empty
                  else headerSet ''authorization'' (''Bearer '' @ TrimSpace token) Map.empty),
      hqBody = []\<rparr>"

definition verifyTick :: "'w ClientWorld \<Rightarrow> string \<Rightarrow> string \<Rightarrow> 'w \<Rightarrow> verifyLog \<times> 'w" where
  "verifyTick w endpoint token s =
     (case cwNewRequest w endpoint of
        Some e \<Rightarrow> (VerifyBuildFailed e, s)
      | None \<Rightarrow>
          (case cwDo w (verifyRequest endpoint token) s of
             (DoFails e, s') \<Rightarrow> (VerifyRequestFailed e, s')
           | (ReadFails e, s') \<Rightarrow> (VerifyReadFailed e, s')
           | (Replies status body, s') \<Rightarrow>
               if 300 \<le> status then (VerifyBadStatus status (TrimSpace body), s')
               else (case unmarshalVerify body of
                   None \<Rightarrow> (VerifyDecodeFailed, s')
                 | Some out \<Rightarrow> (VerifyLogged out endpoint, s'))))"

section \<open>main\<close>

datatype 'w fwdOutcome =
  FwdUsage flagError
| FwdFatal string goerror
| FwdValidated
| FwdStopped "'w FwdState"

definition startState :: "FwdConfig \<Rightarrow> Disk \<Rightarrow> string option \<Rightarrow> saveFaults list \<Rightarrow> deadFaults list \<Rightarrow> 'w \<Rightarrow> 'w FwdState" where
  "startState cfg disk dead sios dios w =
     \<lparr>fwMetrics = NewRuntimeMetrics, fwClient = forwarderClient cfg, fwDead = dead, fwDisk = disk,
      fwSaveFaults = sios, fwDeadFaults = dios, fwWorld = w\<rparr>"

definition runForwarder :: "unicode \<Rightarrow> (string \<Rightarrow> Regexp result) \<Rightarrow> 'w ClientWorld \<Rightarrow> ('w \<Rightarrow> string) \<Rightarrow> (goerror \<Rightarrow> string) \<Rightarrow>
    rawOpen \<Rightarrow> (int \<Rightarrow> goerror option) \<Rightarrow> Poll list \<Rightarrow> FwdConfig \<Rightarrow> 'w FwdState \<Rightarrow> 'w fwdOutcome" where
  "runForwarder uc compile cw clock errText opened seek polls cfg st =
     (case NewLineParser compile cfg of
        Inl e \<Rightarrow> FwdFatal ''event=parser_init status=failed'' e
      | Inr parser \<Rightarrow>
          (let rt = \<lparr>frUnicode = uc, frParser = parser, frClientWorld = cw, frClock = clock, frErrorText = errText\<rparr>
           in case FollowerRun (handleLine rt) (saveLine rt) (fcSourceFile cfg)
                     (LoadCheckpoint (Inr (dkCheckpoint (fwDisk st)))) opened seek polls st of
                (Some e, _) \<Rightarrow> FwdFatal ''event=follower status=failed'' e
              | (None, st') \<Rightarrow> FwdStopped st'))"

definition forwarderMain :: "unicode \<Rightarrow> FwdEnv \<Rightarrow> (string \<Rightarrow> Regexp result) \<Rightarrow> 'w ClientWorld \<Rightarrow> ('w \<Rightarrow> string) \<Rightarrow>
    (goerror \<Rightarrow> string) \<Rightarrow> rawOpen \<Rightarrow> (int \<Rightarrow> goerror option) \<Rightarrow> Poll list \<Rightarrow>
    (FwdConfig \<Rightarrow> 'w FwdState) \<Rightarrow> string list \<Rightarrow> 'w fwdOutcome" where
  "forwarderMain uc env compile cw clock errText opened seek polls start args =
     (case parseFlags [''config'' \<mapsto> StringFlag, ''validate-only'' \<mapsto> BoolFlag] args Map.empty of
        Inl e \<Rightarrow> FwdUsage e
      | Inr (vs, _) \<Rightarrow>
          (case LoadFwdConfig uc env (flagString vs ''config'' ''./configs/log-forwarder.json'') of
             Inl e \<Rightarrow> FwdFatal ''event=config_load status=failed'' e
           | Inr cfg \<Rightarrow>
               if flagBool vs ''validate-only'' False then FwdValidated
               else runForwarder uc compile cw clock errText opened seek polls cfg (start cfg)))"

end
