(* ===== verification/Forwarder_Properties.thy ===== *)
theory Forwarder_Properties
  imports Forwarder_Main
begin

text \<open>
  The properties of the log forwarder: a loaded configuration is usable, the follower hands over every
  line however the reads cut the file, a restart continues after the last saved line, a checkpoint
  survives a crash at any point, and every line read is delivered, dead-lettered or counted as unparsed.
\<close>

section \<open>Whole runs keep the counters balanced\<close>

lemma readChunks_balanced:
  assumes "readChunks (handleLine rt) (saveLine rt) src cs rend f st = (None, f', st')" "balanced (fwMetrics st)"
  shows "balanced (fwMetrics st')"
  using assms
proof (induction cs arbitrary: f st)
  case (Cons c cs)
  let ?f0 = "f\<lparr>foReadOffset := foReadOffset f + int (length c), foPending := foPending f @ c\<rparr>"
  obtain f1 st1 where d: "drainPending (handleLine rt) (saveLine rt) src ?f0 st = (None, f1, st1)"
    and r: "readChunks (handleLine rt) (saveLine rt) src cs rend f1 st1 = (None, f', st')"
    using Cons.prems(1) by (auto split: prod.splits option.splits)
  have "balanced (fwMetrics st1)" using drainPending_events [OF d] deliverAll_counts Cons.prems(2) by blast
  then show ?case by (rule Cons.IH [OF r])
qed (auto split: readEnd.splits)

lemma readAvailable_balanced:
  "readAvailable (handleLine rt) (saveLine rt) src cs rend f st = (None, f', st') \<Longrightarrow> balanced (fwMetrics st) \<Longrightarrow>
   balanced (fwMetrics st')"
  using readChunks_balanced by (auto simp: readAvailable_def split: if_splits)

lemma handleFileChanges_balanced:
  "handleFileChanges (handleLine rt) (saveLine rt) src p f st = (None, f', st') \<Longrightarrow> balanced (fwMetrics st) \<Longrightarrow>
   balanced (fwMetrics st')"
  using readAvailable_balanced
  by (fastforce simp: handleFileChanges_def Let_def dest: saveLine_metrics
      split: statOutcome.splits if_splits option.splits prod.splits sum.splits)

lemma followLoop_balanced:
  assumes "followLoop (handleLine rt) (saveLine rt) src ps f st = (None, f', st')" "balanced (fwMetrics st)"
  shows "balanced (fwMetrics st')"
  using assms
proof (induction ps arbitrary: f st)
  case (Cons p ps)
  obtain f1 st1 f2 st2 where r: "readAvailable (handleLine rt) (saveLine rt) src (poChunks p) (poEnd p) f st = (None, f1, st1)"
    "handleFileChanges (handleLine rt) (saveLine rt) src p f1 st1 = (None, f2, st2)"
    "followLoop (handleLine rt) (saveLine rt) src ps f2 st2 = (None, f', st')"
    using Cons.prems(1) by (auto split: prod.splits option.splits)
  from readAvailable_balanced [OF r(1) Cons.prems(2)] have "balanced (fwMetrics st2)"
    by (rule handleFileChanges_balanced [OF r(2)])
  then show ?case by (rule Cons.IH [OF r(3)])
qed simp

section \<open>Properties\<close>

text \<open>C29: every line read is accounted for.  When a run of the forwarder ends without an error, the
  number of lines read is the number delivered, plus the number written to the dead-letter file, plus
  the number that could not be parsed (all counted modulo 2 to the 64).\<close>

theorem every_line_is_accounted_for:
  assumes "runForwarder uc compile cw clock errText opened seek polls cfg (startState cfg disk dead sios dios w) = FwdStopped st'"
  shows "rmLinesRead (fwMetrics st') =
      rmDeliverySuccess (fwMetrics st') + rmDeadLetterWrites (fwMetrics st') + rmParseFailed (fwMetrics st') \<and>
    rmDeliveryFailed (fwMetrics st') = rmDeadLetterWrites (fwMetrics st')"
proof -
  have "balanced (fwMetrics (startState cfg disk dead sios dios w))"
    by (simp add: startState_def NewRuntimeMetrics_def balanced_def)
  then have "balanced (fwMetrics st')"
    using assms followLoop_balanced
    by (auto simp: runForwarder_def FollowerRun_def Let_def split: sum.splits prod.splits option.splits)
  then show ?thesis by (simp add: balanced_def)
qed

definition sampleFwdConfig :: FwdConfig where
  "sampleFwdConfig = zeroFwdConfig\<lparr>fcSourceFile := ''/s'', fcParserMode := ''json'', fcDefaultLevel := ''INFO''\<rparr>"

definition samplePoll :: Poll where
  "samplePoll = \<lparr>poChunks = [[NL]], poEnd = AtEOF, poStat = Inl (ErrOS [], True), poSeek = None, poOldChunks = [], poOldEnd = AtEOF,
     poReopen = Inl (ErrOS [])\<rparr>"

definition silentWorld :: "unit ClientWorld" where
  "silentWorld = \<lparr>cwNewRequest = (\<lambda>_. None), cwDo = (\<lambda>q s. (Replies 503 [], s)), cwInt63n = (\<lambda>n s. (0, s)), cwSleep = (\<lambda>d s. (None, s))\<rparr>"

definition sampleDisk :: Disk where
  "sampleDisk = \<lparr>dkCheckpoint = None, dkTemp = None\<rparr>"

lemma saveLine_ok:
  assumes "fwSaveFaults st = []" "0 \<le> cpOffset cp"
  shows "\<exists>d. saveLine rt cp st = (None, st\<lparr>fwDisk := d\<rparr>)"
proof -
  have "numsOkMembers (checkpointMembers (cp\<lparr>cpUpdatedAt := now\<rparr>))" for now
    using assms(2) by (simp add: numsOk_checkpoint Itoa_nonneg digits_isNumLit)
  then have "fst (SaveCheckpoint now noSaveFaults cp d) = None" for now d
    by (simp add: SaveCheckpoint_def noSaveFaults_def Let_def MarshalIndent_def syncError_def syncDirectory_def del: indentVal.simps)
  then show ?thesis
    using assms(1) by (auto simp: saveLine_def nextSaveFault_def Let_def split: prod.splits) (metis fst_conv)
qed

theorem every_line_is_accounted_for_witness:
  "\<exists>st'. runForwarder undefined (\<lambda>_. Inl ErrJSON) silentWorld (\<lambda>_. []) (\<lambda>_. []) (Inr (Inr (Some \<lparr>fiDev = 1, fiInode = 2\<rparr>, 1))) (\<lambda>_. None)
      [samplePoll] sampleFwdConfig (startState sampleFwdConfig sampleDisk None [] [] ()) = FwdStopped st' \<and>
    rmLinesRead (fwMetrics st') = 1 \<and> 1 = rmDeliverySuccess (fwMetrics st') + rmDeadLetterWrites (fwMetrics st') + rmParseFailed (fwMetrics st')"
proof -
  let ?rt = "\<lparr>frUnicode = undefined, frParser = \<lparr>lpConfig = sampleFwdConfig, lpCompiled = None\<rparr>, frClientWorld = silentWorld,
      frClock = (\<lambda>_. []), frErrorText = (\<lambda>_. [])\<rparr>" and ?i = "\<lparr>fiDev = 1, fiInode = 2\<rparr> :: FileIdentity"
  let ?st = "startState sampleFwdConfig sampleDisk None [] [] ()" and ?ev = "\<lparr>teLine = [], teSourceFile = ''/s'', teCommittedOffset = 1\<rparr>"
  let ?f = "\<lparr>foOpen = True, foIdentity = ?i, foReadOffset = 0, foCommittedOffset = 0, foPending = []\<rparr>"
  have src: "fcSourceFile sampleFwdConfig = ''/s''" "fcParserMode sampleFwdConfig = ''json''" by (simp_all add: sampleFwdConfig_def)
  have ev: "lineEvents ''/s'' 0 [NL] = [?ev]" using one_line(1) [of "[]" "''/s''" 0 "[]"] by (simp add: TrimSuffix_def HasSuffix_def startsWith_def)
  have line: "handleLine ?rt ?ev ?st = (None, onMetrics IncParseFailed (onMetrics IncLinesRead ?st))"
    by (simp add: handleLine_def ParseLine_def parseJSONOnly_def tryJSON_def src Let_def)
  have one: "fwSaveFaults (onMetrics IncParseFailed (onMetrics IncLinesRead ?st)) = []"
    by (simp add: onMetrics_def startState_def)
  obtain st2 where save: "saveLine ?rt (checkpointAt ''/s'' ?i 1) (onMetrics IncParseFailed (onMetrics IncLinesRead ?st)) = (None, st2)"
    "fwMetrics st2 = fwMetrics (onMetrics IncParseFailed (onMetrics IncLinesRead ?st))"
    using saveLine_ok [OF one, of "checkpointAt ''/s'' ?i 1" ?rt] by (auto simp: checkpointAt_def)
  obtain err f' st' where r: "readChunks (handleLine ?rt) (saveLine ?rt) ''/s'' [[NL]] AtEOF ?f ?st = (err, f', st')" by (metis prod_cases3)
  from readChunks_events [OF r] have read: "err = None" "st' = st2" using line save(1) by (simp_all add: ev)
  have open0: "openFromCheckpoint ''/s'' (LoadCheckpoint (Inr None)) (Inr (?i, 1)) (\<lambda>_. None) = Inr ?f"
    by (simp add: openFromCheckpoint_def LoadCheckpoint_def zeroCheckpoint_def Let_def)
  have "readAvailable (handleLine ?rt) (saveLine ?rt) ''/s'' [[NL]] AtEOF ?f ?st = (None, f', st2)"
    using r read by (simp add: readAvailable_def del: readChunks.simps)
  then have loop: "followLoop (handleLine ?rt) (saveLine ?rt) ''/s'' [samplePoll] ?f ?st = (None, f', st2)"
    by (simp add: samplePoll_def handleFileChanges_def statFileWithIdentity_def)
  have opened: "openFileWithIdentity (Inr (Inr (Some ?i, 1))) = Inr (?i, 1)"
    by (simp add: openFileWithIdentity_def fileIdentityFromInfo_def)
  have ck: "dkCheckpoint (fwDisk ?st) = None" by (simp add: startState_def sampleDisk_def)
  have run: "runForwarder undefined (\<lambda>_. Inl ErrJSON) silentWorld (\<lambda>_. []) (\<lambda>_. []) (Inr (Inr (Some ?i, 1))) (\<lambda>_. None)
      [samplePoll] sampleFwdConfig ?st = FwdStopped st2"
    using loop open0 ck opened by (simp add: runForwarder_def NewLineParser_def FollowerRun_def src Let_def del: followLoop.simps)
  moreover have "rmLinesRead (fwMetrics st2) = 1"
    by (simp add: save(2) onMetrics_def inc_defs startState_def NewRuntimeMetrics_def)
  ultimately show ?thesis using every_line_is_accounted_for [OF run] by auto
qed

text \<open>C25: the follower hands over every complete line exactly once and in order, with the offset after
  it, whatever pieces the reads return; what follows the last line end stays pending.\<close>

theorem follower_hands_over_every_line:
  assumes "readAvailable onLine save src chunks AtEOF f h = (err, f', h')" "foOpen f" "followOk f"
  shows "deliverAll onLine save (foIdentity f) (lineEvents src (foCommittedOffset f) (foPending f @ concat chunks)) h = (err, h') \<and>
    (err = None \<longrightarrow> followOk f' \<and> foPending f' = restOf (foPending f @ concat chunks) \<and>
       foReadOffset f' = foReadOffset f + int (length (concat chunks)))"
proof -
  have r: "readChunks onLine save src chunks AtEOF f h = (err, f', h')" using assms(1,2) by (simp add: readAvailable_def)
  have p: "NL \<notin> set (foPending f)" using assms(3) by (simp add: followOk_def)
  show ?thesis using readChunks_events [OF r p] readChunks_followOk assms(3) r by (auto simp: settled_def)
qed

definition sampleFollower :: Follower where
  "sampleFollower = \<lparr>foOpen = True, foIdentity = \<lparr>fiDev = 1, fiInode = 2\<rparr>, foReadOffset = 0, foCommittedOffset = 0, foPending = []\<rparr>"

definition collect :: "string list lineHandler" where
  "collect ev h = (None, h @ [teLine ev])"

definition noSave :: "string list saver" where
  "noSave cp h = (None, h)"

lemma sample_lines: "lineEvents src off (''ab'' @ NL # ''c'' @ NL # ''d'') =
  [\<lparr>teLine = ''ab'', teSourceFile = src, teCommittedOffset = off + 3\<rparr>, \<lparr>teLine = ''c'', teSourceFile = src, teCommittedOffset = off + 5\<rparr>]"
  using one_line(1) [of "''ab''" src off "''c'' @ NL # ''d''"] one_line(1) [of "''c''" src "off + 3" "''d''"]
  by (simp add: TrimSuffix_def HasSuffix_def startsWith_def)

theorem follower_hands_over_every_line_witness:
  "fst (readAvailable collect noSave ''f'' [''a'', ''b'' @ [NL] @ ''c'', [NL] @ ''d''] AtEOF sampleFollower []) = None \<and>
   snd (snd (readAvailable collect noSave ''f'' [''a'', ''b'' @ [NL] @ ''c'', [NL] @ ''d''] AtEOF sampleFollower [])) = [''ab'', ''c'']"
proof -
  obtain err f' h' where r: "readAvailable collect noSave ''f'' [''a'', ''b'' @ [NL] @ ''c'', [NL] @ ''d''] AtEOF sampleFollower [] =
      (err, f', h')" by (metis prod_cases3)
  have "foOpen sampleFollower" "followOk sampleFollower" by (simp_all add: sampleFollower_def followOk_def)
  from follower_hands_over_every_line [OF r this] r show ?thesis
    using sample_lines [of "''f''" 0] by (simp add: sampleFollower_def collect_def noSave_def)
qed

text \<open>C26: a restart continues after the last saved line.  If the checkpoint on disk is the one saved
  after the line number \<open>k\<close> of the file, the program opens the file there and hands over the lines
  after it, none skipped and none twice; a line whose checkpoint was not saved comes again.\<close>

theorem restart_resumes_after_checkpoint:
  fixes d :: Disk
  assumes "evs = lineEvents src 0 content" "k < length evs"
    and "LoadCheckpoint (Inr (dkCheckpoint d)) = Inr (checkpointAt src i (teCommittedOffset (evs ! k))\<lparr>cpUpdatedAt := now\<rparr>)"
    and "seek (teCommittedOffset (evs ! k)) = None" "concat chunks = drop (nat (teCommittedOffset (evs ! k))) content"
  shows "\<exists>f. openFromCheckpoint src (LoadCheckpoint (Inr (dkCheckpoint d))) (Inr (i, int (length content))) seek = Inr f \<and>
    (\<forall>onLine save h err f' h'. readAvailable onLine save src chunks AtEOF f h = (err, f', h') \<longrightarrow>
       deliverAll onLine save i (drop (Suc k) evs) h = (err, h'))"
proof -
  let ?o = "teCommittedOffset (evs ! k)"
  let ?f = "\<lparr>foOpen = True, foIdentity = i, foReadOffset = ?o, foCommittedOffset = ?o, foPending = []\<rparr>"
  have range: "0 < ?o \<and> ?o \<le> int (length content)"
    using lineEvents_offsets [of "evs ! k" src 0 content] assms(1,2) by simp
  have op: "openFromCheckpoint src (LoadCheckpoint (Inr (dkCheckpoint d))) (Inr (i, int (length content))) seek = Inr ?f"
    using openFromCheckpoint_resume [of "checkpointAt src i ?o\<lparr>cpUpdatedAt := now\<rparr>" src "int (length content)" i seek]
      range assms(3,4) by (simp add: checkpointAt_def)
  have evs: "lineEvents src ?o (concat chunks) = drop (Suc k) evs"
    using lineEvents_resume [of k src 0 content ?o] assms(1,2,5) by simp
  have "deliverAll onLine save i (drop (Suc k) evs) h = (err, h')"
    if "readAvailable onLine save src chunks AtEOF ?f h = (err, f', h')" for onLine save h err f' h'
    using readChunks_events [of onLine save src chunks ?f h err f' h'] that evs by (simp add: readAvailable_def)
  then show ?thesis using op by blast
qed

definition sampleCheckpoint :: Checkpoint where
  "sampleCheckpoint = checkpointAt ''f'' \<lparr>fiDev = 1, fiInode = 2\<rparr> 3"

lemma sampleCheckpoint_ok: "okCheckpoint (sampleCheckpoint\<lparr>cpUpdatedAt := ''t''\<rparr>)" "okCheckpoint sampleCheckpoint"
  by (simp_all add: okCheckpoint_def sampleCheckpoint_def checkpointAt_def validUtf8_all_ASCII byteVal_def)

theorem restart_resumes_after_checkpoint_witness:
  "\<exists>f. openFromCheckpoint ''f'' (LoadCheckpoint (Inr (Some (checkpointText (sampleCheckpoint\<lparr>cpUpdatedAt := ''t''\<rparr>)))))
      (Inr (\<lparr>fiDev = 1, fiInode = 2\<rparr>, 6)) (\<lambda>_. None) = Inr f \<and>
    snd (snd (readAvailable collect noSave ''f'' [''c'' @ NL # ''d''] AtEOF f [])) = [''c'']"
proof -
  let ?c = "''ab'' @ NL # ''c'' @ NL # ''d''" and ?i = "\<lparr>fiDev = 1, fiInode = 2\<rparr> :: FileIdentity"
  let ?d = "\<lparr>dkCheckpoint = Some (checkpointText (sampleCheckpoint\<lparr>cpUpdatedAt := ''t''\<rparr>)), dkTemp = None\<rparr>"
  have ev: "teCommittedOffset (lineEvents ''f'' 0 ?c ! 0) = 3" "length (lineEvents ''f'' 0 ?c) = 2"
    "drop (Suc 0) (lineEvents ''f'' 0 ?c) = [\<lparr>teLine = ''c'', teSourceFile = ''f'', teCommittedOffset = 5\<rparr>]"
    unfolding sample_lines by simp_all
  have load: "LoadCheckpoint (Inr (dkCheckpoint ?d)) =
      Inr (checkpointAt ''f'' ?i (teCommittedOffset (lineEvents ''f'' 0 ?c ! 0))\<lparr>cpUpdatedAt := ''t''\<rparr>)"
    unfolding ev(1) using Load_checkpointText [OF sampleCheckpoint_ok(1)] by (simp add: sampleCheckpoint_def)
  have k: "0 < length (lineEvents ''f'' 0 ?c)" using ev(2) by simp
  have rest: "concat [''c'' @ NL # ''d''] = drop (nat (teCommittedOffset (lineEvents ''f'' 0 ?c ! 0))) ?c" unfolding ev(1) by simp
  obtain f where f: "openFromCheckpoint ''f'' (LoadCheckpoint (Inr (dkCheckpoint ?d))) (Inr (?i, int (length ?c))) (\<lambda>_. None) = Inr f"
    and run: "\<forall>onLine save h err f' h'. readAvailable onLine save ''f'' [''c'' @ NL # ''d''] AtEOF f h = (err, f', h') \<longrightarrow>
       deliverAll onLine save ?i (drop (Suc 0) (lineEvents ''f'' 0 ?c)) h = (err, (h' :: string list))"
    using restart_resumes_after_checkpoint [where 'a = "string list", OF refl k load refl rest] by blast
  obtain err f' h' where r: "readAvailable collect noSave ''f'' [''c'' @ NL # ''d''] AtEOF f [] = (err, f', h')" by (metis prod_cases3)
  with run have "deliverAll collect noSave ?i (drop (Suc 0) (lineEvents ''f'' 0 ?c)) [] = (err, h')" by blast
  then show ?thesis using f r unfolding ev(3) by (simp add: collect_def noSave_def)
qed

text \<open>C27: a checkpoint is never torn.  Whatever call of a save fails, and wherever the process dies on the
  way, the checkpoint file holds what it held before or the complete new checkpoint; and a save that
  reports success loads back as the checkpoint saved, with the time of the save.\<close>

theorem checkpoint_survives_crash:
  assumes "okCheckpoint cp" "validUtf8 now" "line = checkpointText (cp\<lparr>cpUpdatedAt := now\<rparr>)"
  shows "(\<forall>d'. saveState line d d' \<longrightarrow> dkCheckpoint d' = dkCheckpoint d \<or>
      LoadCheckpoint (Inr (dkCheckpoint d')) = Inr (cp\<lparr>cpUpdatedAt := now\<rparr>)) \<and>
    saveState line d (snd (SaveCheckpoint now io cp d)) \<and>
    (fst (SaveCheckpoint now io cp d) = None \<longrightarrow>
       LoadCheckpoint (Inr (dkCheckpoint (snd (SaveCheckpoint now io cp d)))) = Inr (cp\<lparr>cpUpdatedAt := now\<rparr>))"
proof -
  have ok: "okCheckpoint (cp\<lparr>cpUpdatedAt := now\<rparr>)" "0 \<le> cpOffset cp" using assms(1,2) by (simp_all add: okCheckpoint_def)
  note load = Load_checkpointText [OF ok(1)]
  have "dkCheckpoint d' = dkCheckpoint d \<or> LoadCheckpoint (Inr (dkCheckpoint d')) = Inr (cp\<lparr>cpUpdatedAt := now\<rparr>)"
    if "saveState line d d'" for d' using saveState_atomic [OF that] load assms(3) by auto
  then show ?thesis using SaveCheckpoint_cases [OF ok(2), of now d io] load assms(3) by simp
qed

theorem checkpoint_survives_crash_witness:
  "LoadCheckpoint (Inr (dkCheckpoint (snd (SaveCheckpoint ''t'' noSaveFaults sampleCheckpoint sampleDisk)))) =
     Inr (sampleCheckpoint\<lparr>cpUpdatedAt := ''t''\<rparr>)"
proof -
  have "numsOkMembers (checkpointMembers (sampleCheckpoint\<lparr>cpUpdatedAt := ''t''\<rparr>))"
    by (simp add: numsOk_checkpoint sampleCheckpoint_def checkpointAt_def Itoa_nonneg digits_isNumLit)
  then have "fst (SaveCheckpoint ''t'' noSaveFaults sampleCheckpoint sampleDisk) = None"
    by (simp add: SaveCheckpoint_def noSaveFaults_def Let_def MarshalIndent_def syncError_def syncDirectory_def del: indentVal.simps)
  moreover have "validUtf8 ''t''" by (simp add: validUtf8_all_ASCII byteVal_def)
  ultimately show ?thesis
    using checkpoint_survives_crash [OF sampleCheckpoint_ok(2) _ refl, of "''t''" sampleDisk noSaveFaults] by blast
qed

text \<open>C30: a configuration that loads is usable: an absolute server URL, a token, absolute paths, an
  existing source file, positive intervals, ordered backoffs, a port in range, a known parser mode and
  a pattern that compiles when one is needed.\<close>

theorem loaded_config_is_usable:
  assumes "LoadFwdConfig uc env path = Inr c" "\<And>wd. feGetwd env = Inr wd \<Longrightarrow> isAbsPath wd"
  shows "usableConfig env c"
  by (rule LoadFwdConfig_usable [OF assms])

definition sampleFwdMembers :: "(string \<times> json) list" where
  "sampleFwdMembers = [(''server_url'', JStr ''u''), (''auth_bearer_token'', JStr ''t''), (''source_file'', JStr ''/s''),
     (''app_name'', JStr ''a''), (''timestamp_field'', JStr ''ts'')]"

definition sampleFwdEnv :: FwdEnv where
  "sampleFwdEnv = \<lparr>feRead = (\<lambda>_. Inr (encodeJson (JObj sampleFwdMembers))), feGetwd = Inr ''/'', feStat = (\<lambda>_. PlainFile),
     feAbsoluteURL = (\<lambda>_. True), feRegexError = (\<lambda>_. None)\<rparr>"

definition plainUnicode :: unicode where
  "plainUnicode = \<lparr>uniLower = map lowerByte, uniUpper = map upperByte, uniFold = foldASCII\<rparr>"

theorem loaded_config_is_usable_witness:
  "\<exists>c. LoadFwdConfig plainUnicode sampleFwdEnv ''/c'' = Inr c \<and> usableConfig sampleFwdEnv c"
proof -
  let ?v = "JObj sampleFwdMembers"
  have doc: "okDoc ?v" "jdepth ?v = 1" by (simp_all add: sampleFwdMembers_def validUtf8_all_ASCII byteVal_def)
  have "parseVal (2 * length (encodeJson ?v) + 2) maxNestingDepth (encodeJson ?v @ []) = Some (?v, [])"
    using parse_encode(1) [OF doc(1), of "[]"] need_bound(1) [OF doc(1)] doc(2) by (simp add: numStop_def maxNestingDepth_def)
  then have dec: "decodeFirst fwdFields setFwdField zeroFwdConfig (encodeJson ?v) = Some (zeroFwdConfig\<lparr>fcServerURL := ''u'',
      fcAuthBearerToken := ''t'', fcSourceFile := ''/s'', fcAppName := ''a'', fcTimestampField := ''ts''\<rparr>)" (is "_ = Some ?c0")
    by (simp add: decodeFirst_def sampleFwdMembers_def matchField_def fwdFields_def setFwdField_def zeroFwdConfig_def)
  have trims: "TrimSpace ''u'' = ''u''" "TrimSpace ''t'' = ''t''" "TrimSpace ''/s'' = ''/s''" "TrimSpace ''a'' = ''a''"
    "TrimSpace ''ts'' = ''ts''" "TrimSpace ''/c'' = ''/c''" by code_simp+
  have abs: "\<exists>q. absPath sampleFwdEnv p = Inr q" "\<exists>q. absPath sampleFwdEnv (CHR ''/'' # p) = Inr (CHR ''/'' # q)" for p
    by (auto simp: absPath_def sampleFwdEnv_def isAbsPath_def cleanPath_def Let_def)
  obtain s cp dl where paths: "absPath sampleFwdEnv ''/s'' = Inr (CHR ''/'' # s)"
    "absPath sampleFwdEnv (joinPath (dirPath ''/c'') ''log-forwarder.checkpoint.json'') = Inr cp"
    "absPath sampleFwdEnv (joinPath (dirPath ''/c'') ''log-forwarder.deadletter.jsonl'') = Inr dl"
    using abs by blast
  obtain c where c: "applyDefaults plainUnicode sampleFwdEnv ''/c'' ?c0 = Inr c" "fwdProblems sampleFwdEnv c = []"
    using paths trims
    by (simp add: applyDefaults_def trimmedConfig_def zeroFwdConfig_def presentOr_def positiveOr_def Let_def ToLower_def ToUpper_def
        isASCII_def fwdProblems_def problemIf_def) (simp add: sampleFwdEnv_def)
  then have "LoadFwdConfig plainUnicode sampleFwdEnv ''/c'' = Inr c"
    using dec trims by (simp add: LoadFwdConfig_def ValidateFwd_def sampleFwdEnv_def)
  moreover have "isAbsPath wd" if "feGetwd sampleFwdEnv = Inr wd" for wd using that by (auto simp: sampleFwdEnv_def isAbsPath_def)
  ultimately show ?thesis using loaded_config_is_usable by blast
qed

end
