(* ===== verification/Forwarder_EndToEnd.thy ===== *)
theory Forwarder_EndToEnd
  imports Client_Properties Forwarder_Properties
begin

text \<open>
  The whole path of a line: the follower reads it, the forwarder's handler parses it and sends it with
  the Go client, the server's router authenticates the request, stamps the record and appends it to the
  file store.
\<close>

section \<open>The record a line stands for\<close>

definition eventPayload :: "NormalizedEvent \<Rightarrow> LogRequest" where
  "eventPayload n =
     BuildPayload n (ComputeIdempotencyKey (neApp n) (neSourceFile n) (neSourceOffset n) (neRawLine n))"

definition lineRecord :: "unicode \<Rightarrow> LineParser \<Rightarrow> TailEvent \<Rightarrow> LogRecord option" where
  "lineRecord uc p ev =
     (case ParseLine uc p ev of Inl _ \<Rightarrow> None | Inr n \<Rightarrow> Some (clientRecord (eventPayload n)))"

text \<open>A record the server takes and can read again: complete, text in UTF-8, within the payload limit, and
  far from the nesting limit and the scanner's buffer of a mebibyte.\<close>

definition acceptable :: "Config \<Rightarrow> Principal \<Rightarrow> LogRecord \<Rightarrow> bool" where
  "acceptable cfg pr r \<longleftrightarrow> completeRecord r \<and> okRecord r \<and> recordDepth r < maxNestingDepth \<and>
     int (length (encodeJson (recordJson r))) \<le> cfgMaxPayloadBytes cfg \<and>
     length (encodeJson (recordJson (stampedRecord pr r))) \<le> 1000000"

definition okClock :: "('s \<Rightarrow> string) \<Rightarrow> bool" where
  "okClock clock \<longleftrightarrow> (\<forall>st. validUtf8 (clock st) \<and> length (quoteStr (clock st)) \<le> 40)"

text \<open>The forwarder talks to the server with a token the registry accepts, and its disk works.\<close>

definition admitted :: "(string \<Rightarrow> Principal result) \<Rightarrow> Principal \<Rightarrow> 'w FwdState \<Rightarrow> bool" where
  "admitted auth pr st \<longleftrightarrow>
     (let token = TrimSpace (clAuthToken (fwClient st)) in
      token \<noteq> [] \<and> list_all edgeByte token \<and> auth token = Inr pr) \<and>
     pClientID pr \<noteq> [] \<and> validUtf8 (pClientID pr) \<and> fwSaveFaults st = []"

lemma fsFits_acceptable:
  assumes "acceptable cfg pr (clientRecord p)" "chainLog es" "Suc (length es) < 2 ^ 63" "length (quoteStr ts) \<le> 40"
  shows "fsFits es ts (stampedRecord pr (clientRecord p))"
  using assms logLine_length [OF assms(2), of ts "stampedRecord pr (clientRecord p)"]
  by (simp add: fsFits_def acceptable_def recordDepth_stamped maxTokenSize_def)

lemma idempotency_header: "CanonicalHeaderKey ''x-idempotency-key'' \<noteq> ''Authorization''"
  by (simp add: CanonicalHeaderKey_def isTokenByte_def upperByte_def lowerByte_def byteVal_def char_of_def bit_0)

section \<open>One line\<close>

lemma Deliver_appends:
  assumes "frClientWorld rt = serverWorld cfg uc auth clock" "okClock clock" "admitted auth pr st"
    and "fsRep (fwWorld st) es" "Suc (length es) < 2 ^ 63" "acceptable cfg pr (clientRecord (eventPayload n))"
  shows "\<exists>res ev c w e. DeliverParsedEvent rt n st = (Inr res, ev, st\<lparr>fwClient := c, fwWorld := w\<rparr>) \<and>
    clAuthToken c = clAuthToken (fwClient st) \<and> fsRep w (es @ [e]) \<and>
    eRecord e = normRecord (stampedRecord pr (clientRecord (eventPayload n)))"
proof -
  define c where "c = (fwClient st)\<lparr>clHeaders := [(''x-idempotency-key'',
      ComputeIdempotencyKey (neApp n) (neSourceFile n) (neSourceOffset n) (neRawLine n))]\<rparr>"
  let ?ts = "clock (fwWorld st)" and ?r = "stampedRecord pr (clientRecord (eventPayload n))"
  have ts: "validUtf8 ?ts" "length (quoteStr ?ts) \<le> 40" using assms(2) by (simp_all add: okClock_def)
  have fits: "fsFits es ?ts ?r"
    using fsFits_acceptable [OF assms(6) _ assms(5) ts(2)] fstore.rep_chain [OF assms(4)] by simp
  have "\<exists>w. WriteLog (serverWorld cfg uc auth clock) c (eventPayload n) (fwWorld st) =
      (Inr \<lparr>lrIndex = eIndex (nextEntry es ?ts ?r), lrTimestamp = eTimestamp (nextEntry es ?ts ?r),
            lrEntryHash = eEntryHash (nextEntry es ?ts ?r), lrPrevHash = ePrevHash (nextEntry es ?ts ?r)\<rparr>,
       [Sent (buildRequest c (encodeJson (recordJson (clientRecord (eventPayload n)))))], w) \<and>
      fsRep w (es @ [normEntry (nextEntry es ?ts ?r)])"
    by (rule WriteLog_appends [where token = "TrimSpace (clAuthToken (fwClient st))" and pr = pr])
      (use assms(3,4,6) ts(1) fits idempotency_header in
        \<open>simp_all add: c_def admitted_def acceptable_def Let_def list_all_iff\<close>)
  then obtain w where w: "WriteLog (serverWorld cfg uc auth clock) c (eventPayload n) (fwWorld st) =
      (Inr \<lparr>lrIndex = eIndex (nextEntry es ?ts ?r), lrTimestamp = eTimestamp (nextEntry es ?ts ?r),
            lrEntryHash = eEntryHash (nextEntry es ?ts ?r), lrPrevHash = ePrevHash (nextEntry es ?ts ?r)\<rparr>,
       [Sent (buildRequest c (encodeJson (recordJson (clientRecord (eventPayload n)))))], w)"
    "fsRep w (es @ [normEntry (nextEntry es ?ts ?r)])" by blast
  have "eRecord (normEntry (nextEntry es ?ts ?r)) = normRecord ?r" by (simp add: nextEntry_def normEntry_def)
  moreover have "clAuthToken c = clAuthToken (fwClient st)" by (simp add: c_def)
  moreover have "DeliverParsedEvent rt n st = (Inr \<lparr>lrIndex = eIndex (nextEntry es ?ts ?r), lrTimestamp = eTimestamp (nextEntry es ?ts ?r),
            lrEntryHash = eEntryHash (nextEntry es ?ts ?r), lrPrevHash = ePrevHash (nextEntry es ?ts ?r)\<rparr>,
       [Sent (buildRequest c (encodeJson (recordJson (clientRecord (eventPayload n)))))], st\<lparr>fwClient := c, fwWorld := w\<rparr>)"
    using w(1) assms(1) by (simp add: DeliverParsedEvent_def Let_def eventPayload_def c_def)
  ultimately show ?thesis using w(2) by blast
qed

text \<open>What the handler leaves behind after a line: the log, grown by the line's record if it has one, and a
  forwarder that is as ready as before.\<close>

definition lineRecords :: "unicode \<Rightarrow> LineParser \<Rightarrow> TailEvent list \<Rightarrow> LogRecord list" where
  "lineRecords uc p evs = List.map_filter (lineRecord uc p) evs"

lemma lineRecords_simps [simp]:
  "lineRecords uc p [] = []"
  "lineRecords uc p (ev # evs) = (case lineRecord uc p ev of None \<Rightarrow> [] | Some r \<Rightarrow> [r]) @ lineRecords uc p evs"
  by (simp_all add: lineRecords_def List.map_filter_simps split: option.split)

lemma admitted_onMetrics [simp]: "admitted auth pr (onMetrics g st) = admitted auth pr st"
  by (simp add: admitted_def onMetrics_def)

lemma onMetrics_frame [simp]: "fwWorld (onMetrics g st) = fwWorld st" "fwDead (onMetrics g st) = fwDead st"
  by (simp_all add: onMetrics_def)

lemma handleLine_appends:
  assumes "frClientWorld rt = serverWorld cfg uc auth clock" "okClock clock" "admitted auth pr st"
    and "fsRep (fwWorld st) es" "Suc (length es) < 2 ^ 63"
    and "\<And>r. lineRecord (frUnicode rt) (frParser rt) ev = Some r \<Longrightarrow> acceptable cfg pr r"
  shows "\<exists>st' fs. handleLine rt ev st = (None, st') \<and> admitted auth pr st' \<and> fwDead st' = fwDead st \<and>
    fsRep (fwWorld st') (es @ fs) \<and> length fs \<le> 1 \<and>
    map eRecord fs = map (\<lambda>r. normRecord (stampedRecord pr r)) (lineRecords (frUnicode rt) (frParser rt) [ev])"
proof (cases "ParseLine (frUnicode rt) (frParser rt) ev")
  case (Inl e)
  then show ?thesis using assms(3,4) by (simp add: handleLine_def lineRecord_def exI [of _ "[]"])
next
  case (Inr n)
  let ?key = "ComputeIdempotencyKey (neApp n) (neSourceFile n) (neSourceOffset n) (neRawLine n)"
  let ?st = "onMetrics (\<lambda>m. snd (MarkIdempotencyKey ?key m)) (onMetrics IncParsedOK (onMetrics IncLinesRead st))"
  have "acceptable cfg pr (clientRecord (eventPayload n))" using assms(6) Inr by (simp add: lineRecord_def)
  then obtain res evs c w e where d: "DeliverParsedEvent rt n ?st = (Inr res, evs, ?st\<lparr>fwClient := c, fwWorld := w\<rparr>)"
    "clAuthToken c = clAuthToken (fwClient ?st)" "fsRep w (es @ [e])"
    "eRecord e = normRecord (stampedRecord pr (clientRecord (eventPayload n)))"
    using Deliver_appends [OF assms(1,2), of pr ?st es n] assms(3,4,5) by auto
  let ?st' = "onMetrics IncDeliverySuccess (onMetrics (countRetries evs) (?st\<lparr>fwClient := c, fwWorld := w\<rparr>))"
  have "handleLine rt ev st = (None, ?st')" using d(1) Inr by (simp add: handleLine_def Let_def)
  moreover have "admitted auth pr ?st'" "fwDead ?st' = fwDead st" "fwWorld ?st' = w"
    using assms(3) d(2) by (simp_all add: admitted_def onMetrics_def)
  ultimately show ?thesis using d(3,4) Inr by (auto simp: lineRecord_def intro!: exI [of _ "[e]"])
qed

section \<open>All lines\<close>

lemma deliverAll_appends:
  assumes "frClientWorld rt = serverWorld cfg uc auth clock" "okClock clock"
  shows "admitted auth pr st \<Longrightarrow> fsRep (fwWorld st) es \<Longrightarrow> length es + length evs < 2 ^ 63 \<Longrightarrow>
    (\<And>ev. ev \<in> set evs \<Longrightarrow> 0 \<le> teCommittedOffset ev) \<Longrightarrow>
    (\<And>r. r \<in> set (lineRecords (frUnicode rt) (frParser rt) evs) \<Longrightarrow> acceptable cfg pr r) \<Longrightarrow>
    \<exists>st' fs. deliverAll (handleLine rt) (saveLine rt) i evs st = (None, st') \<and> fwDead st' = fwDead st \<and>
      fsRep (fwWorld st') (es @ fs) \<and>
      map eRecord fs = map (\<lambda>r. normRecord (stampedRecord pr r)) (lineRecords (frUnicode rt) (frParser rt) evs)"
proof (induction evs arbitrary: st es)
  case Nil
  then show ?case by (auto intro: exI [of _ "[]"])
next
  case (Cons ev evs)
  have acc: "acceptable cfg pr r" if "lineRecord (frUnicode rt) (frParser rt) ev = Some r" for r
    using Cons.prems(5) that by simp
  obtain st1 fs where one: "handleLine rt ev st = (None, st1)" "admitted auth pr st1" "fwDead st1 = fwDead st"
    "fsRep (fwWorld st1) (es @ fs)" "length fs \<le> 1"
    "map eRecord fs = map (\<lambda>r. normRecord (stampedRecord pr r)) (lineRecords (frUnicode rt) (frParser rt) [ev])"
    using handleLine_appends [of rt cfg uc auth clock pr st es ev] assms Cons.prems(1-3) acc by auto
  have "fwSaveFaults st1 = []" using one(2) by (simp add: admitted_def)
  then obtain d where save: "saveLine rt (checkpointAt (teSourceFile ev) i (teCommittedOffset ev)) st1 = (None, st1\<lparr>fwDisk := d\<rparr>)"
    using saveLine_ok [of st1 "checkpointAt (teSourceFile ev) i (teCommittedOffset ev)" rt] Cons.prems(4) [of ev]
    by (auto simp: checkpointAt_def)
  let ?st2 = "st1\<lparr>fwDisk := d\<rparr>"
  have "admitted auth pr ?st2" "fsRep (fwWorld ?st2) (es @ fs)" using one(2,4) by (simp_all add: admitted_def)
  moreover have "length (es @ fs) + length evs < 2 ^ 63" using Cons.prems(3) one(5) by simp
  ultimately obtain st' gs where "deliverAll (handleLine rt) (saveLine rt) i evs ?st2 = (None, st')" "fwDead st' = fwDead ?st2"
    "fsRep (fwWorld st') ((es @ fs) @ gs)"
    "map eRecord gs = map (\<lambda>r. normRecord (stampedRecord pr r)) (lineRecords (frUnicode rt) (frParser rt) evs)"
    using Cons.IH [of ?st2 "es @ fs"] Cons.prems(4,5) by fastforce
  then show ?case
    using one(1,3,6) save by (intro exI [of _ st'] exI [of _ "fs @ gs"]) simp
qed

text \<open>C28: forwarded lines reach the log.  The forwarder reads a file up to its end, against this server and
  with an accepted token, and the record of every line that parses is \<open>acceptable\<close> to the server: app,
  level and message are not blank, the text is UTF-8, the record is within the payload limit, below the
  nesting limit and at most a million bytes long in the log.  Then for every complete line that parses the
  log gains one entry with that line's record, stamped with the forwarder's client id; the entries stand in
  the order of the lines, the grown log verifies, and nothing goes to the dead-letter file.  (A line whose
  record is not acceptable, such as a blank one in custom mode, whose message is empty, is refused with a
  400 and does go to the dead-letter file.)\<close>

theorem forwarded_lines_reach_log:
  assumes "frClientWorld rt = serverWorld cfg uc auth clock" "okClock clock" "admitted auth pr st"
    and "fsRep (fwWorld st) es" "foOpen f" "followOk f" "0 \<le> foCommittedOffset f"
    and "evs = lineEvents src (foCommittedOffset f) (foPending f @ concat chunks)" "length es + length evs < 2 ^ 63"
    and "list_all (acceptable cfg pr) (lineRecords (frUnicode rt) (frParser rt) evs)"
    and "readAvailable (handleLine rt) (saveLine rt) src chunks AtEOF f st = (err, f', st')"
  shows "err = None \<and> fwDead st' = fwDead st \<and>
    (\<exists>fs h. fsRep (fwWorld st') (es @ fs) \<and>
       map eRecord fs = map (\<lambda>r. normRecord (stampedRecord pr r)) (lineRecords (frUnicode rt) (frParser rt) evs) \<and>
       FileStore_Verify None (fwWorld st') = Inr (validResult (word_of_nat (length es + length fs)) h))"
proof -
  have offs: "0 \<le> teCommittedOffset ev" if "ev \<in> set evs" for ev
    using lineEvents_offsets [of ev src "foCommittedOffset f"] that assms(7,8) by fastforce
  have r: "readChunks (handleLine rt) (saveLine rt) src chunks AtEOF f st = (err, f', st')"
    using assms(5,11) by (simp add: readAvailable_def)
  have "deliverAll (handleLine rt) (saveLine rt) (foIdentity f) evs st = (err, st')"
    using readChunks_events [OF r] assms(6,8) by (simp add: followOk_def)
  with deliverAll_appends [OF assms(1,2,3,4,9), of "foIdentity f"] offs assms(10)
  obtain fs where "err = None" "fwDead st' = fwDead st" "fsRep (fwWorld st') (es @ fs)"
    "map eRecord fs = map (\<lambda>r. normRecord (stampedRecord pr r)) (lineRecords (frUnicode rt) (frParser rt) evs)"
    by (auto simp: list_all_iff)
  moreover from fstore.verify_rep [OF this(3)] have "\<exists>h. FileStore_Verify None (fwWorld st') =
      Inr (validResult (word_of_nat (length es + length fs)) h)" by auto
  ultimately show ?thesis by blast
qed

text \<open>A plain line, in custom mode.\<close>

definition plainConfig :: FwdConfig where
  "plainConfig = zeroFwdConfig\<lparr>fcAppName := ''app'', fcAuthBearerToken := ''alog_c1_s'', fcSourceFile := ''f'',
     fcParserMode := ''custom'', fcDefaultLevel := ''INFO''\<rparr>"

definition plainRuntime :: "FileStore FwdRuntime" where
  "plainRuntime = \<lparr>frUnicode = asciiUnicode, frParser = \<lparr>lpConfig = plainConfig, lpCompiled = None\<rparr>,
     frClientWorld = serverWorld (loadConfig asciiUnicode (\<lambda>_. [])) asciiUnicode (\<lambda>_. Inr samplePrincipal) (\<lambda>_. sampleTime),
     frClock = (\<lambda>_. []), frErrorText = (\<lambda>_. [])\<rparr>"

definition plainEvent :: TailEvent where
  "plainEvent = \<lparr>teLine = ''hi'', teSourceFile = ''f'', teCommittedOffset = 3\<rparr>"

definition plainRecord :: LogRecord where
  "plainRecord = \<lparr>recClientID = [], recApp = ''app'', recLevel = ''INFO'', recMessage = ''hi'', recMetadata = Some
     [(''idempotency_key'', JStr (sha256Hex ''app|f|3|hi'')), (''parser_mode'', JStr ''plain''), (''raw_line'', JStr ''hi''),
      (''source_file'', JStr ''f''), (''source_offset'', JNum ''3''), (''source_timestamp_raw'', JStr []), (''unparsed'', JBool True)]\<rparr>"

lemma plain_trims: "TrimSpace ''INFO'' = ''INFO''" "Itoa 3 = ''3''" "unmarshalAnyMap ''hi'' = None"
  by code_simp+

lemma one_digit_text:
  assumes "m \<noteq> 0" "candidates (neg, m, e) 1 = t # ts" "isNumLit t" "ParseFloat t = Some (neg, m, e)"
  shows "canonNum t = Some t"
proof -
  have "[1..<18] = 1 # [2..<18 :: nat]" by (simp add: upt_rec)
  then show ?thesis using assms by (simp add: canonNum_def shortestText_def del: One_nat_def)
qed

lemma number_three: "isNumLit ''3''" "canonNum ''3'' = Some ''3''"
proof -
  show lit: "isNumLit ''3''"
    by (simp add: isNumLit_def scanNumber_def scanParts_def scanSign_def scanInt_def scanFrac_def scanExp_def isDigit_def digitVal_def)
  have pf: "ParseFloat ''3'' = Some (False, 6755399441055744, -51)"
    by (simp add: ParseFloat_def scanParts_def scanSign_def scanInt_def scanFrac_def scanExp_def isDigit_def digitVal_def
        expValue_def scaleBy_def roundFloat_def leadExp_def roundHalfEven_def bitLen.simps)
  have "candidates (False, 6755399441055744, -51) 1 = [''3'', ''4'']"
    by (simp add: candidates_def scaleBy_def decimalExp_def formatDigits_def formatF_def stripZeros_def FormatUint.simps digitChar_def)
  from one_digit_text [OF _ this lit pf] show "canonNum ''3'' = Some ''3''" by simp
qed

lemma plainEvent_record: "lineRecord asciiUnicode \<lparr>lpConfig = plainConfig, lpCompiled = None\<rparr> plainEvent = Some plainRecord"
  by (simp add: lineRecord_def ParseLine_def plainConfig_def plainEvent_def sample_trims plain_trims tryJSON_def fallbackPlain_def
      withBase_def eventPayload_def BuildPayload_def ComputeIdempotencyKey_def clientRecord_def plainRecord_def Let_def)

lemma plainRecord_acceptable: "acceptable (loadConfig asciiUnicode (\<lambda>_. [])) samplePrincipal plainRecord"
proof -
  have "okRecord plainRecord"
    by (simp add: okRecord_def plainRecord_def okGoMap_def byteVal_def number_three sortedMap_def)
  moreover have "recordDepth plainRecord < maxNestingDepth"
    by (simp add: recordDepth_def recordJson_def plainRecord_def metadataMembers_def maxNestingDepth_def)
  moreover have "length (encodeJson (recordJson plainRecord)) \<le> 1000"
    by (simp add: recordJson_def plainRecord_def metadataMembers_def jsonSafe_def byteVal_def)
  moreover have "length (encodeJson (recordJson (stampedRecord samplePrincipal plainRecord))) \<le> 1000"
    by (simp add: recordJson_def plainRecord_def metadataMembers_def jsonSafe_def byteVal_def stampedRecord_def samplePrincipal_def
        sample_trims plain_trims)
  moreover have "completeRecord plainRecord" by (simp add: completeRecord_def plainRecord_def)
  ultimately show ?thesis by (simp add: acceptable_def default_payload_limit)
qed

theorem forwarded_lines_reach_log_witness:
  "\<exists>f' st' fs. readAvailable (handleLine plainRuntime) (saveLine plainRuntime) ''f'' [''h'', ''i'' @ NL # ''x''] AtEOF sampleFollower
      (startState plainConfig sampleDisk None [] [] emptyStore) = (None, f', st') \<and>
    fsRep (fwWorld st') fs \<and> map (recMessage \<circ> eRecord) fs = [''hi''] \<and> map (recClientID \<circ> eRecord) fs = [''c1'']"
proof -
  let ?st = "startState plainConfig sampleDisk None [] [] emptyStore" and ?cfg = "loadConfig asciiUnicode (\<lambda>_. [])"
  let ?chunks = "[''h'', ''i'' @ NL # ''x'']"
  obtain err f' st' where r: "readAvailable (handleLine plainRuntime) (saveLine plainRuntime) ''f'' ?chunks AtEOF sampleFollower ?st =
      (err, f', st')" by (metis prod_cases3)
  have evs: "[plainEvent] = lineEvents ''f'' (foCommittedOffset sampleFollower) (foPending sampleFollower @ concat ?chunks)"
    using one_line(1) [of "''hi''" "''f''" 0 "''x''"]
    by (simp add: sampleFollower_def plainEvent_def TrimSuffix_def HasSuffix_def startsWith_def)
  have world: "frClientWorld plainRuntime = serverWorld ?cfg asciiUnicode (\<lambda>_. Inr samplePrincipal) (\<lambda>_. sampleTime)"
    by (simp add: plainRuntime_def)
  have clock: "okClock (\<lambda>_ :: FileStore. sampleTime)"
    using sample_ok(2) by (simp add: okClock_def sampleTime_def jsonSafe_def byteVal_def)
  have adm: "admitted (\<lambda>_. Inr samplePrincipal) samplePrincipal ?st"
    by (simp add: admitted_def startState_def forwarderClient_def plainConfig_def sample_trims edgeByte_def goSpaces_def
        samplePrincipal_def byteVal_def)
  have recs: "lineRecords (frUnicode plainRuntime) (frParser plainRuntime) [plainEvent] = [plainRecord]"
    by (simp add: plainRuntime_def plainEvent_record)
  have sf: "foOpen sampleFollower" "followOk sampleFollower" "0 \<le> foCommittedOffset sampleFollower"
    by (simp_all add: sampleFollower_def followOk_def)
  have st: "fsRep (fwWorld ?st) []" using sample_ok(4) by (simp add: startState_def)
  have "stampedRecord samplePrincipal plainRecord = plainRecord\<lparr>recClientID := ''c1''\<rparr>"
    by (simp add: stampedRecord_def samplePrincipal_def plainRecord_def sample_trims plain_trims)
  then have norm: "normRecord (stampedRecord samplePrincipal plainRecord) = plainRecord\<lparr>recClientID := ''c1''\<rparr>"
    by (simp add: normRecord_def plainRecord_def)
  have "err = None \<and> (\<exists>fs. fsRep (fwWorld st') fs \<and> map eRecord fs = [plainRecord\<lparr>recClientID := ''c1''\<rparr>])"
    using forwarded_lines_reach_log [OF world clock adm st sf evs _ _ r, unfolded recs] plainRecord_acceptable
    by (auto simp: norm)
  then show ?thesis using r by (auto simp: plainRecord_def simp flip: map_map)
qed

end
