(* ===== verification/Dashboard_Model.thy ===== *)
theory Dashboard_Model
  imports Forwarder_Config
begin

text \<open>
  \<open>cmd/security-dashboard/main.go\<close>: the data of the manifest (checks, results, runs, tasks, standards).  A
  \<open>CheckResult\<close> embeds its \<open>CheckDef\<close>, so it is a record extension.  Text outside ASCII is written as its
  UTF-8 bytes.
\<close>

record Suppression =
  spRule :: string
  spPath :: string
  spReason :: string

record CheckDef =
  ckKey :: string
  ckName :: string
  ckCategory :: string
  ckTool :: string
  ckGating :: bool
  ckCommand :: string
  ckParser :: string
  ckDir :: string
  ckInstallHint :: string
  ckProbe :: string
  ckSuppress :: "Suppression list"
  ckSource :: string
  ckDisabled :: bool
  ckReason :: string

record CheckResult = CheckDef +
  resStatus :: string
  resSummary :: string
  resFindings :: int
  resReportFile :: string
  resDurationMs :: int

record Totals =
  ttPass :: int
  ttFail :: int
  ttWarn :: int
  ttSkipped :: int
  ttGatingFail :: int

record Run =
  rnID :: string
  rnStartedAt :: string
  rnGitSHA :: string
  rnGitBranch :: string
  rnTrigger :: string
  rnChecks :: "CheckResult list"
  rnTotals :: Totals

record Task =
  tkID :: string
  tkTitle :: string
  tkCategory :: string
  tkCadence :: string
  tkOwner :: string
  tkStatus :: string
  tkLastRun :: string
  tkNextDue :: string
  tkDocAnchor :: string
  tkNotes :: string
  tkLastNote :: string
  tkIntervalDays :: int
  tkSource :: string

record Standard =
  stName :: string
  stNote :: string
  stFramework :: string

record ComplianceDoc =
  cdID :: string
  cdTitle :: string
  cdPath :: string

record ASVSReqItem =
  aiID :: string
  aiName :: string
  aiCoverage :: string
  aiEvidence :: string

record ASVS =
  avTargetLevel :: string
  avNote :: string
  avRequirements :: "ASVSReqItem list option"

record AppInfo =
  apName :: string
  apDescription :: string
  apRepo :: string
  apTeam :: string
  apContact :: string

record Conformance =
  cfName :: string
  cfSuite :: string
  cfStatus :: string
  cfSummary :: string
  cfLastRun :: string
  cfReport :: string

text \<open>A slice is an option where the program prints it and nil shows, as \<open>null\<close>.\<close>

record DashConfig =
  dcApp :: AppInfo
  dcManualDoc :: string
  dcStandards :: "Standard list option"
  dcComplianceDocs :: "ComplianceDoc list"
  dcASVS :: "ASVS option"
  dcConformance :: "Conformance list option"
  dcChecks :: "CheckDef list"

definition emDash :: string where
  "emDash = [CHR 0xE2, CHR 0x80, CHR 0x94]"

definition plural :: "int \<Rightarrow> string \<Rightarrow> string \<Rightarrow> string" where
  "plural n one many = (if n = 1 then ''1 '' @ one else Itoa n @ '' '' @ many)"

definition tally :: "CheckResult list \<Rightarrow> Totals" where
  "tally checks = fold (\<lambda>c t.
      if resStatus c = ''pass'' then t\<lparr>ttPass := ttPass t + 1\<rparr>
      else if resStatus c = ''fail'' \<or> resStatus c = ''error'' then
        (let t1 = t\<lparr>ttFail := ttFail t + 1\<rparr> in if ckGating c then t1\<lparr>ttGatingFail := ttGatingFail t1 + 1\<rparr> else t1)
      else if resStatus c = ''warn'' then t\<lparr>ttWarn := ttWarn t + 1\<rparr>
      else if resStatus c = ''skipped'' then t\<lparr>ttSkipped := ttSkipped t + 1\<rparr>
      else t) checks \<lparr>ttPass = 0, ttFail = 0, ttWarn = 0, ttSkipped = 0, ttGatingFail = 0\<rparr>"

definition statusGlyph :: "string \<Rightarrow> string" where
  "statusGlyph status =
     (if status = ''pass'' then [CHR 0xE2, CHR 0x9C, CHR 0x93] @ '' pass''
      else if status = ''fail'' \<or> status = ''error'' then [CHR 0xE2, CHR 0x9C, CHR 0x97] @ '' FAIL''
      else if status = ''warn'' then ''! warn''
      else if status = ''skipped'' then [CHR 0xE2, CHR 0x80, CHR 0x93] @ '' skipped''
      else status)"

text \<open>The counts of a tally are the numbers of checks with each status.\<close>

lemma tally_counts:
  "ttPass (tally cs) = int (length (filter (\<lambda>c. resStatus c = ''pass'') cs))"
  "ttFail (tally cs) = int (length (filter (\<lambda>c. resStatus c = ''fail'' \<or> resStatus c = ''error'') cs))"
  "ttWarn (tally cs) = int (length (filter (\<lambda>c. resStatus c = ''warn'') cs))"
  "ttSkipped (tally cs) = int (length (filter (\<lambda>c. resStatus c = ''skipped'') cs))"
  "ttGatingFail (tally cs) = int (length (filter (\<lambda>c. (resStatus c = ''fail'' \<or> resStatus c = ''error'') \<and> ckGating c) cs))"
proof -
  let ?step = "\<lambda>c t. if resStatus c = ''pass'' then t\<lparr>ttPass := ttPass t + 1\<rparr>
      else if resStatus c = ''fail'' \<or> resStatus c = ''error'' then
        (let t1 = t\<lparr>ttFail := ttFail t + 1\<rparr> in if ckGating c then t1\<lparr>ttGatingFail := ttGatingFail t1 + 1\<rparr> else t1)
      else if resStatus c = ''warn'' then t\<lparr>ttWarn := ttWarn t + 1\<rparr>
      else if resStatus c = ''skipped'' then t\<lparr>ttSkipped := ttSkipped t + 1\<rparr> else t"
  have "ttPass (fold ?step cs t) = ttPass t + int (length (filter (\<lambda>c. resStatus c = ''pass'') cs)) \<and>
    ttFail (fold ?step cs t) = ttFail t + int (length (filter (\<lambda>c. resStatus c = ''fail'' \<or> resStatus c = ''error'') cs)) \<and>
    ttWarn (fold ?step cs t) = ttWarn t + int (length (filter (\<lambda>c. resStatus c = ''warn'') cs)) \<and>
    ttSkipped (fold ?step cs t) = ttSkipped t + int (length (filter (\<lambda>c. resStatus c = ''skipped'') cs)) \<and>
    ttGatingFail (fold ?step cs t) = ttGatingFail t +
      int (length (filter (\<lambda>c. (resStatus c = ''fail'' \<or> resStatus c = ''error'') \<and> ckGating c) cs))" for t :: Totals
    by (induction cs arbitrary: t) (simp_all add: Let_def)
  from this [of "\<lparr>ttPass = 0, ttFail = 0, ttWarn = 0, ttSkipped = 0, ttGatingFail = 0\<rparr>"]
  show "ttPass (tally cs) = int (length (filter (\<lambda>c. resStatus c = ''pass'') cs))"
  "ttFail (tally cs) = int (length (filter (\<lambda>c. resStatus c = ''fail'' \<or> resStatus c = ''error'') cs))"
  "ttWarn (tally cs) = int (length (filter (\<lambda>c. resStatus c = ''warn'') cs))"
  "ttSkipped (tally cs) = int (length (filter (\<lambda>c. resStatus c = ''skipped'') cs))"
  "ttGatingFail (tally cs) = int (length (filter (\<lambda>c. (resStatus c = ''fail'' \<or> resStatus c = ''error'') \<and> ckGating c) cs))"
    by (simp_all add: tally_def)
qed

end
