(* ===== verification/Go_ParseFloat.thy ===== *)
theory Go_ParseFloat
  imports Go_Json
begin

text \<open>
  \<open>strconv.ParseFloat(s, 64)\<close> on an arbitrary string: decimal and hexadecimal literals with their
  underscores, the infinities and NaN.  The syntax follows \<open>readFloat\<close>, \<open>underscoreOK\<close> and \<open>special\<close>;
  the rounding is that of \<open>Go_Float\<close>.
\<close>

datatype gofloat = NotANumber | Infinite bool | Finite float64

definition lowerText :: "string \<Rightarrow> string" where
  "lowerText s = map lowerByte s"

definition isHexPrefixed :: "string \<Rightarrow> bool" where
  "isHexPrefixed s \<longleftrightarrow> lowerText (take 2 s) = ''0x''"

definition isBasePrefixed :: "string \<Rightarrow> bool" where
  "isBasePrefixed s \<longleftrightarrow> lowerText (take 2 s) \<in> {''0b'', ''0o'', ''0x''}"

definition isFloatDigit :: "bool \<Rightarrow> char \<Rightarrow> bool" where
  "isFloatDigit hex c \<longleftrightarrow> isDigit c \<or> hex \<and> hexVal c \<noteq> None"

text \<open>The digits before and after the point, and what follows the mantissa.\<close>

fun scanMant :: "bool \<Rightarrow> bool \<Rightarrow> string \<Rightarrow> string \<times> string \<times> string" where
  "scanMant hex dot [] = ([], [], [])"
| "scanMant hex dot (c # s) =
     (if c = CHR ''_'' then scanMant hex dot s
      else if c = CHR ''.'' then (if dot then ([], [], c # s) else scanMant hex True s)
      else if isFloatDigit hex c then
        (let (i, f, r) = scanMant hex dot s in if dot then (i, c # f, r) else (c # i, f, r))
      else ([], [], c # s))"

definition baseValue :: "nat \<Rightarrow> string \<Rightarrow> nat" where
  "baseValue b ds = foldl (\<lambda>n c. n * b + (case hexVal c of None \<Rightarrow> 0 | Some d \<Rightarrow> d)) 0 ds"

text \<open>The exponent after its letter; \<open>None\<close> unless it is a sign, a digit, then digits and underscores up to the end.\<close>

definition scanExponent :: "string \<Rightarrow> int option" where
  "scanExponent s =
     (let (neg, t) = (case s of c # r \<Rightarrow> if c = CHR ''+'' then (False, r) else if c = CHR ''-'' then (True, r) else (False, s)
                      | [] \<Rightarrow> (False, s))
      in case t of
           [] \<Rightarrow> None
         | c # _ \<Rightarrow>
             if isDigit c \<and> list_all (\<lambda>x. isDigit x \<or> x = CHR ''_'') t
             then (let e = int (baseValue 10 (filter isDigit t)) in Some (if neg then - e else e))
             else None)"

text \<open>\<open>underscoreOK\<close>: \<open>prev\<close> is the last character seen, \<open>'^'\<close> at the start, \<open>'0'\<close> a digit, \<open>'_'\<close>, or \<open>'!'\<close>.\<close>

fun underscoresFrom :: "bool \<Rightarrow> char \<Rightarrow> string \<Rightarrow> bool" where
  "underscoresFrom hex prev [] \<longleftrightarrow> prev \<noteq> CHR ''_''"
| "underscoresFrom hex prev (c # s) \<longleftrightarrow>
     (if isFloatDigit hex c then underscoresFrom hex CHR ''0'' s
      else if c = CHR ''_'' then prev = CHR ''0'' \<and> underscoresFrom hex CHR ''_'' s
      else prev \<noteq> CHR ''_'' \<and> underscoresFrom hex CHR ''!'' s)"

definition underscoreOK :: "string \<Rightarrow> bool" where
  "underscoreOK s =
     (if isBasePrefixed s then underscoresFrom (isHexPrefixed s) CHR ''0'' (drop 2 s)
      else underscoresFrom False CHR ''^'' s)"

definition parseFinite :: "bool \<Rightarrow> string \<Rightarrow> float64 option" where
  "parseFinite neg s =
     (let hex = isHexPrefixed s \<and> 2 < length s;
          (i, f, r) = scanMant hex False (if hex then drop 2 s else s);
          ex = (case r of
                  [] \<Rightarrow> if hex then None else Some 0
                | c # t \<Rightarrow> if lowerByte c = (if hex then CHR ''p'' else CHR ''e'') then scanExponent t else None)
      in case ex of
           None \<Rightarrow> None
         | Some e \<Rightarrow>
             if i @ f = [] \<or> \<not> underscoreOK s then None
             else if hex
             then roundFloat neg (scaleBy 2 (e - 4 * int (length f)) (baseValue 16 (i @ f), 1))
             else roundFloat neg (scaleBy 10 (e - int (length f)) (baseValue 10 (i @ f), 1)))"

definition parseFloatText :: "string \<Rightarrow> gofloat option" where
  "parseFloatText s =
     (let signed = (s \<noteq> [] \<and> (hd s = CHR ''+'' \<or> hd s = CHR ''-''));
          neg = (s \<noteq> [] \<and> hd s = CHR ''-'');
          t = (if signed then tl s else s)
      in if lowerText t \<in> {''inf'', ''infinity''} then Some (Infinite neg)
         else if lowerText s = ''nan'' then Some NotANumber
         else map_option Finite (parseFinite neg t))"

definition floatAtLeast :: "nat \<Rightarrow> gofloat \<Rightarrow> bool" where
  "floatAtLeast k x =
     (case x of
        NotANumber \<Rightarrow> False
      | Infinite neg \<Rightarrow> \<not> neg
      | Finite (neg, m, e) \<Rightarrow>
          (let (n, d) = scaleBy 2 e (m, 1) in k * d \<le> n \<and> (neg \<longrightarrow> k * d = 0 \<and> n = 0)))"

end
