(* ===== verification/Dashboard_Checks.thy ===== *)
theory Dashboard_Checks
  imports Dashboard_Model Go_ParseFloat
begin

text \<open>
  \<open>cmd/security-dashboard/checks.go\<close>: the report parsers and the running of the checks.  The five
  regular expressions are matchers written out by hand.  The tools themselves are a parameter: what
  \<open>exec.LookPath\<close>, \<open>os.Stat\<close> and \<open>sh -c\<close> answer for a check.
\<close>

section \<open>The regular expressions\<close>

text \<open>The leftmost position at which a matcher succeeds, and how often it does on inputs whose matches cannot overlap.\<close>

fun findFrom :: "(string \<Rightarrow> 'a option) \<Rightarrow> string \<Rightarrow> 'a option" where
  "findFrom m [] = m []"
| "findFrom m (c # s) = (case m (c # s) of None \<Rightarrow> findFrom m s | Some x \<Rightarrow> Some x)"

fun countFrom :: "(string \<Rightarrow> bool) \<Rightarrow> string \<Rightarrow> nat" where
  "countFrom m [] = (if m [] then 1 else 0)"
| "countFrom m (c # s) = (if m (c # s) then 1 else 0) + countFrom m s"

text \<open>\<open>affected by (\d+) vulnerabilit\<close>, giving the digits\<close>

definition matchAffected :: "string \<Rightarrow> string option" where
  "matchAffected s =
     (if HasPrefix s ''affected by '' then
        (let t = TrimPrefix s ''affected by ''; ds = takeWhile isDigit t in
         if ds \<noteq> [] \<and> HasPrefix (drop (length ds) t) '' vulnerabilit'' then Some ds else None)
      else None)"

text \<open>\<open>Vulnerability #\d+\<close>; a match holds one \<open>V\<close>, so two never overlap.\<close>

definition matchVuln :: "string \<Rightarrow> bool" where
  "matchVuln s \<longleftrightarrow> HasPrefix s ''Vulnerability #'' \<and> takeWhile isDigit (TrimPrefix s ''Vulnerability #'') \<noteq> []"

text \<open>A literal under \<open>(?i)\<close>: letters in either case, the Kelvin sign as a \<open>k\<close> and the long s as an \<open>s\<close>.\<close>

fun matchFold :: "string \<Rightarrow> string \<Rightarrow> string option" where
  "matchFold [] s = Some s"
| "matchFold (p # ps) s =
     (if p = CHR ''k'' \<and> HasPrefix s [CHR 0xE2, CHR 0x84, CHR 0xAA] then matchFold ps (drop 3 s)
      else if p = CHR ''s'' \<and> HasPrefix s [CHR 0xC5, CHR 0xBF] then matchFold ps (drop 2 s)
      else (case s of [] \<Rightarrow> None | c # t \<Rightarrow> if lowerByte c = p then matchFold ps t else None))"

definition reSpace :: "char \<Rightarrow> bool" where
  "reSpace c \<longleftrightarrow> c \<in> {CHR 0x09, CHR 0x0A, CHR 0x0C, CHR 0x0D, CHR 0x20}"

text \<open>\<open>(?i)leaks found:?\s*(\d+)\<close>, giving the digits\<close>

definition matchLeaks :: "string \<Rightarrow> string option" where
  "matchLeaks s =
     (case matchFold ''leaks found'' s of
        None \<Rightarrow> None
      | Some t \<Rightarrow>
          (let ds = takeWhile isDigit (dropWhile reSpace (TrimPrefix t '':'')) in if ds = [] then None else Some ds))"

text \<open>\<open>^\<close> under \<open>(?m)\<close>: the start of the text and the position after every newline\<close>

fun lineStarts :: "string \<Rightarrow> string list" where
  "lineStarts [] = []"
| "lineStarts (c # s) = (if c = NL then s # lineStarts s else lineStarts s)"

definition findAtLine :: "(string \<Rightarrow> 'a option) \<Rightarrow> string \<Rightarrow> 'a option" where
  "findAtLine m s = (case List.find (\<lambda>l. m l \<noteq> None) (s # lineStarts s) of None \<Rightarrow> None | Some l \<Rightarrow> m l)"

text \<open>\<open>(?m)^ok\s+\S+\<close>: the pattern has no group, so the submatches are the match alone.\<close>

definition matchTestOK :: "string \<Rightarrow> string list option" where
  "matchTestOK s =
     (if HasPrefix s ''ok'' then
        (let t = drop 2 s; sp = takeWhile reSpace t; w = takeWhile (\<lambda>c. \<not> reSpace c) (drop (length sp) t) in
         if sp = [] \<or> w = [] then None else Some [''ok'' @ sp @ w])
      else None)"

text \<open>\<open>(?m)^--- FAIL\<close>\<close>

definition countTestFail :: "string \<Rightarrow> nat" where
  "countTestFail s = length (filter (\<lambda>l. HasPrefix l ''--- FAIL'') (s # lineStarts s))"

definition atoi :: "string \<Rightarrow> int" where
  "atoi s = foldl (\<lambda>n c. wrap64 (n * 10 + int (case digitVal c of None \<Rightarrow> 0 | Some d \<Rightarrow> d))) 0 (takeWhile isDigit s)"

section \<open>The JSON reports\<close>

text \<open>A slice: the elements are decoded onto the ones it already had, which matters for a repeated key only.\<close>

fun decodeElems :: "(json \<Rightarrow> 'a \<Rightarrow> 'a option) \<Rightarrow> 'a \<Rightarrow> json list \<Rightarrow> 'a list \<Rightarrow> 'a list option" where
  "decodeElems dec zero [] olds = Some []"
| "decodeElems dec zero (v # vs) olds =
     (case dec v (case olds of [] \<Rightarrow> zero | x # _ \<Rightarrow> x) of
        None \<Rightarrow> None
      | Some y \<Rightarrow> map_option (\<lambda>ys. y # ys) (decodeElems dec zero vs (tl olds)))"

fun decodeSlice :: "(json \<Rightarrow> 'a \<Rightarrow> 'a option) \<Rightarrow> 'a \<Rightarrow> json \<Rightarrow> 'a list \<Rightarrow> 'a list option" where
  "decodeSlice dec zero (JArr vs) olds = decodeElems dec zero vs olds"
| "decodeSlice dec zero JNull olds = Some []"
| "decodeSlice dec zero _ olds = None"

text \<open>A pointer: \<open>null\<close> is nil, anything else is decoded into what it points to.\<close>

fun decodePtr :: "(json \<Rightarrow> 'a \<Rightarrow> 'a option) \<Rightarrow> 'a \<Rightarrow> json \<Rightarrow> 'a option \<Rightarrow> 'a option option" where
  "decodePtr dec zero JNull old = Some None"
| "decodePtr dec zero v old = map_option Some (dec v (case old of None \<Rightarrow> zero | Some x \<Rightarrow> x))"

text \<open>A struct with one field, and the path through nested ones.\<close>

definition decodeField :: "string \<Rightarrow> (json \<Rightarrow> 'a \<Rightarrow> 'a option) \<Rightarrow> json \<Rightarrow> 'a \<Rightarrow> 'a option" where
  "decodeField name dec v old = decodeStruct [name] (\<lambda>f. dec) v old"

definition countJSONArray :: "string \<Rightarrow> string \<Rightarrow> nat option" where
  "countJSONArray output field =
     (case parseJson output of
        Some (JObj kvs) \<Rightarrow>
          (case map_of (rev kvs) field of
             None \<Rightarrow> Some 0
           | Some (JArr xs) \<Rightarrow> Some (length xs)
           | Some JNull \<Rightarrow> Some 0
           | Some _ \<Rightarrow> None)
      | Some JNull \<Rightarrow> Some 0
      | _ \<Rightarrow> None)"

record SarifRule =
  srID :: string
  srSeverity :: string

record SarifResult =
  sfRuleID :: string
  sfLevel :: string
  sfLocations :: "string list"
  sfSuppressions :: "string list"

record SarifTool =
  soDriver :: "SarifRule list"
  soExtensions :: "SarifRule list list"

record SarifRun =
  suTool :: SarifTool
  suResults :: "SarifResult list"

definition zeroRule :: SarifRule where
  "zeroRule = \<lparr>srID = [], srSeverity = []\<rparr>"

definition zeroResult :: SarifResult where
  "zeroResult = \<lparr>sfRuleID = [], sfLevel = [], sfLocations = [], sfSuppressions = []\<rparr>"

definition zeroSarifRun :: SarifRun where
  "zeroSarifRun = \<lparr>suTool = \<lparr>soDriver = [], soExtensions = []\<rparr>, suResults = []\<rparr>"

definition decodeRule :: "json \<Rightarrow> SarifRule \<Rightarrow> SarifRule option" where
  "decodeRule = decodeStruct [''id'', ''properties''] (\<lambda>f v r.
     if f = ''id'' then map_option (\<lambda>s. r\<lparr>srID := s\<rparr>) (decodeString v (srID r))
     else map_option (\<lambda>s. r\<lparr>srSeverity := s\<rparr>) (decodeField ''security-severity'' decodeString v (srSeverity r)))"

definition decodeRules :: "json \<Rightarrow> SarifRule list \<Rightarrow> SarifRule list option" where
  "decodeRules = decodeField ''rules'' (decodeSlice decodeRule zeroRule)"

definition decodeTool :: "json \<Rightarrow> SarifTool \<Rightarrow> SarifTool option" where
  "decodeTool = decodeStruct [''driver'', ''extensions''] (\<lambda>f v t.
     if f = ''driver'' then map_option (\<lambda>rs. t\<lparr>soDriver := rs\<rparr>) (decodeRules v (soDriver t))
     else map_option (\<lambda>es. t\<lparr>soExtensions := es\<rparr>) (decodeSlice decodeRules [] v (soExtensions t)))"

definition decodeLocation :: "json \<Rightarrow> string \<Rightarrow> string option" where
  "decodeLocation = decodeField ''physicalLocation'' (decodeField ''artifactLocation'' (decodeField ''uri'' decodeString))"

definition decodeSarifResult :: "json \<Rightarrow> SarifResult \<Rightarrow> SarifResult option" where
  "decodeSarifResult = decodeStruct [''ruleId'', ''level'', ''locations'', ''suppressions''] (\<lambda>f v r.
     if f = ''ruleId'' then map_option (\<lambda>s. r\<lparr>sfRuleID := s\<rparr>) (decodeString v (sfRuleID r))
     else if f = ''level'' then map_option (\<lambda>s. r\<lparr>sfLevel := s\<rparr>) (decodeString v (sfLevel r))
     else if f = ''locations''
     then map_option (\<lambda>ls. r\<lparr>sfLocations := ls\<rparr>) (decodeSlice decodeLocation [] v (sfLocations r))
     else map_option (\<lambda>ks. r\<lparr>sfSuppressions := ks\<rparr>)
            (decodeSlice (decodeField ''kind'' decodeString) [] v (sfSuppressions r)))"

definition decodeSarifRun :: "json \<Rightarrow> SarifRun \<Rightarrow> SarifRun option" where
  "decodeSarifRun = decodeStruct [''tool'', ''results''] (\<lambda>f v r.
     if f = ''tool'' then map_option (\<lambda>t. r\<lparr>suTool := t\<rparr>) (decodeTool v (suTool r))
     else map_option (\<lambda>rs. r\<lparr>suResults := rs\<rparr>) (decodeSlice decodeSarifResult zeroResult v (suResults r)))"

definition decodeSarif :: "json \<Rightarrow> SarifRun list option option" where
  "decodeSarif v = decodeField ''runs'' (decodePtr (decodeSlice decodeSarifRun zeroSarifRun) []) v None"

definition suppressed :: "Suppression list \<Rightarrow> string \<Rightarrow> string \<Rightarrow> bool" where
  "suppressed ls rule path \<longleftrightarrow> list_ex (\<lambda>s. spRule s = rule \<and> spPath s = path) ls"

text \<open>The severity map of a run: of two scores for a rule the later one stays.\<close>

definition severityOf :: "SarifRun \<Rightarrow> (string \<times> gofloat) list" where
  "severityOf r = rev (List.map_filter (\<lambda>rl. map_option (Pair (srID rl)) (parseFloatText (srSeverity rl)))
     (soDriver (suTool r) @ concat (soExtensions (suTool r))))"

definition sarifReported :: "Suppression list \<Rightarrow> SarifRun \<Rightarrow> SarifResult list" where
  "sarifReported dismissed r = filter (\<lambda>res.
     sfSuppressions res = [] \<and>
     \<not> suppressed dismissed (sfRuleID res) (case sfLocations res of [] \<Rightarrow> [] | p # _ \<Rightarrow> p)) (suResults r)"

definition sarifHigh :: "SarifRun \<Rightarrow> SarifResult \<Rightarrow> bool" where
  "sarifHigh r res =
     (case map_of (severityOf r) (sfRuleID res) of
        Some s \<Rightarrow> floatAtLeast 7 s
      | None \<Rightarrow> sfLevel res = ''error'')"

definition sarifCounts :: "string \<Rightarrow> Suppression list \<Rightarrow> (nat \<times> nat) option" where
  "sarifCounts output dismissed =
     (case parseJson output of
        None \<Rightarrow> None
      | Some v \<Rightarrow>
          (case decodeSarif v of
             None \<Rightarrow> None
           | Some None \<Rightarrow> None
           | Some (Some runs) \<Rightarrow>
               Some (sum_list (map (\<lambda>r. length (sarifReported dismissed r)) runs),
                     sum_list (map (\<lambda>r. length (filter (sarifHigh r) (sarifReported dismissed r))) runs))))"

definition decodeCounts :: "string \<Rightarrow> string \<Rightarrow> json \<Rightarrow> int \<times> int \<Rightarrow> (int \<times> int) option" where
  "decodeCounts one two = decodeStruct [one, two] (\<lambda>f v c.
     if f = one then map_option (\<lambda>n. (n, snd c)) (decodeInt v (fst c))
     else map_option (\<lambda>n. (fst c, n)) (decodeInt v (snd c)))"

definition eslintCounts :: "string \<Rightarrow> (int \<times> int) option" where
  "eslintCounts output =
     (case parseJson output of
        None \<Rightarrow> None
      | Some v \<Rightarrow>
          map_option (\<lambda>files. fold (\<lambda>c t. (wrap64 (fst t + fst c), wrap64 (snd t + snd c))) files (0, 0))
            (decodeSlice (decodeCounts ''errorCount'' ''warningCount'') (0, 0) v []))"

definition vitestCounts :: "string \<Rightarrow> (int \<times> int) option" where
  "vitestCounts output =
     (case parseJson output of
        None \<Rightarrow> None
      | Some v \<Rightarrow>
          (case decodeStruct [''numTotalTests'', ''numFailedTests''] (\<lambda>f v c.
                  if f = ''numTotalTests'' then map_option (\<lambda>n. (n, snd c)) (decodePtr decodeInt 0 v (fst c))
                  else map_option (\<lambda>n. (fst c, n)) (decodeInt v (snd c))) v (None, 0) of
             Some (Some n, failed) \<Rightarrow> Some (n, failed)
           | _ \<Rightarrow> None))"

definition npmAuditCounts :: "string \<Rightarrow> (int \<times> int) option" where
  "npmAuditCounts output =
     (case parseJson output of
        None \<Rightarrow> None
      | Some v \<Rightarrow> decodeField ''metadata'' (decodeField ''vulnerabilities'' (decodeCounts ''critical'' ''high'')) v (0, 0))"

section \<open>Classifying a result\<close>

definition structured :: "string \<Rightarrow> string \<Rightarrow> string" where
  "structured stdout combined = (if TrimSpace stdout \<noteq> [] then stdout else combined)"

definition graded :: "CheckResult \<Rightarrow> string \<Rightarrow> string \<Rightarrow> CheckResult" where
  "graded res status summary = res\<lparr>resStatus := status, resSummary := summary\<rparr>"

definition unparseable :: "CheckResult \<Rightarrow> string \<Rightarrow> int \<Rightarrow> CheckResult" where
  "unparseable res what exit = graded res ''error'' (''could not parse '' @ what @ '' output (exit '' @ Itoa exit @ '')'')"

definition gradeFindings :: "CheckResult \<Rightarrow> string \<Rightarrow> string \<Rightarrow> CheckResult" where
  "gradeFindings res one many =
     graded res (if 0 < resFindings res then ''warn'' else ''pass'') (plural (resFindings res) one many)"

definition parseGovulncheck :: "CheckResult \<Rightarrow> string \<Rightarrow> CheckResult" where
  "parseGovulncheck res output =
     (let n = (case findFrom matchAffected output of
                 Some ds \<Rightarrow> atoi ds
               | None \<Rightarrow> if Contains output ''No vulnerabilities found'' then 0
                         else int (countFrom matchVuln output));
          res1 = res\<lparr>resFindings := n\<rparr>
      in if 0 < n then graded res1 ''fail'' (plural n ''vulnerability your code calls'' ''vulnerabilities your code calls'')
         else graded res1 ''pass'' ''no known vulnerable dependencies called'')"

definition parseGitleaks :: "CheckResult \<Rightarrow> string \<Rightarrow> int \<Rightarrow> CheckResult" where
  "parseGitleaks res output exit =
     (let res1 = (case findFrom matchLeaks output of
                    Some ds \<Rightarrow> res\<lparr>resFindings := atoi ds\<rparr>
                  | None \<Rightarrow> if exit \<noteq> 0 then res\<lparr>resFindings := 1\<rparr> else res)
      in if 0 < resFindings res1 then graded res1 ''fail'' (plural (resFindings res1) ''secret leaked'' ''secrets leaked'')
         else graded res1 ''pass'' ''no secrets detected'')"

definition parseSarif :: "CheckResult \<Rightarrow> string \<Rightarrow> int \<Rightarrow> CheckResult" where
  "parseSarif res doc exit =
     (case sarifCounts doc (ckSuppress res) of
        None \<Rightarrow> graded res ''error'' (if exit \<noteq> 0 then ''no SARIF output (exit '' @ Itoa exit @ '')'' else ''no SARIF output'')
      | Some (n, high) \<Rightarrow>
          (let res1 = res\<lparr>resFindings := int n\<rparr>; found = plural (int n) ''finding'' ''findings'' in
           if 0 < high then graded res1 ''fail'' (found @ '', '' @ Itoa (int high) @ '' high or critical'')
           else if 0 < n then graded res1 ''warn'' found
           else graded res1 ''pass'' ''no findings''))"

definition parseGotest :: "CheckResult \<Rightarrow> string \<Rightarrow> int \<Rightarrow> CheckResult" where
  "parseGotest res output exit =
     (if exit = 0 then
        graded res ''pass''
          (if (case findAtLine matchTestOK output of Some m \<Rightarrow> length m = 2 | None \<Rightarrow> False)
           then ''package tests passed'' else ''passed'')
      else (let n = int (countTestFail output) in
            graded (res\<lparr>resFindings := n\<rparr>) ''fail'' (plural n ''test failed'' ''tests failed'')))"

definition parseResult :: "CheckResult \<Rightarrow> string \<Rightarrow> string \<Rightarrow> int \<Rightarrow> CheckResult" where
  "parseResult res stdout combined exit =
     (let doc = structured stdout combined; parser = ckParser res in
      if parser = ''govulncheck'' then parseGovulncheck res combined
      else if parser = ''gosec-json'' then
        (case countJSONArray doc ''Issues'' of
           None \<Rightarrow> unparseable res ''gosec JSON'' exit
         | Some n \<Rightarrow> gradeFindings (res\<lparr>resFindings := int n\<rparr>) ''issue'' ''issues'')
      else if parser = ''semgrep-json'' then
        (case countJSONArray doc ''results'' of
           None \<Rightarrow> unparseable res ''Semgrep JSON'' exit
         | Some n \<Rightarrow> gradeFindings (res\<lparr>resFindings := int n\<rparr>) ''finding'' ''findings'')
      else if parser = ''gitleaks'' then parseGitleaks res combined exit
      else if parser = ''npm-audit'' then
        (case npmAuditCounts doc of
           None \<Rightarrow> unparseable res ''npm audit JSON'' exit
         | Some (crit, high) \<Rightarrow>
             graded (res\<lparr>resFindings := wrap64 (crit + high)\<rparr>)
               (if 0 < crit then ''fail'' else if 0 < high then ''warn'' else ''pass'')
               (Itoa crit @ '' critical, '' @ Itoa high @ '' high''))
      else if parser = ''sarif'' then parseSarif res doc exit
      else if parser = ''eslint-json'' then
        (case eslintCounts doc of
           None \<Rightarrow> unparseable res ''ESLint JSON'' exit
         | Some (errs, warns) \<Rightarrow>
             graded (res\<lparr>resFindings := wrap64 (errs + warns)\<rparr>)
               (if 0 < errs then ''fail'' else if 0 < warns then ''warn'' else ''pass'')
               (Itoa errs @ '' error(s), '' @ Itoa warns @ '' warning(s)''))
      else if parser = ''vitest-json'' then
        (case vitestCounts doc of
           None \<Rightarrow> unparseable res ''Vitest JSON'' exit
         | Some (n, failed) \<Rightarrow>
             (let res1 = res\<lparr>resFindings := failed\<rparr> in
              if 0 < failed then graded res1 ''fail'' (Itoa failed @ '' of '' @ Itoa n @ '' tests failing'')
              else graded res1 ''pass'' (plural n ''test passed'' ''tests passed'')))
      else if parser = ''gotest'' then parseGotest res combined exit
      else if exit = 0 then graded res ''pass'' ''passed''
      else graded res ''fail'' ''non-zero exit'')"

section \<open>Running a check\<close>

text \<open>What \<open>cmd.Run\<close> reports: an exit status, with the text of the \<open>ExitError\<close>, or another error.\<close>

datatype runError = ExitError string int | StartError string

record ProcOutcome =
  poStdout :: string
  poStderr :: string
  poError :: "runError option"
  poMillis :: int

record ToolEnv =
  teLookPath :: "string \<Rightarrow> bool"
  teStat :: "string \<Rightarrow> bool"
  teRun :: "string \<Rightarrow> string \<Rightarrow> ProcOutcome"

fun runErrorText :: "runError \<Rightarrow> string" where
  "runErrorText (ExitError t c) = t"
| "runErrorText (StartError t) = t"

definition exitCode :: "runError option \<Rightarrow> int" where
  "exitCode err =
     (case err of
        None \<Rightarrow> 0
      | Some e \<Rightarrow>
          if Contains (runErrorText e) ''executable file not found'' then 127
          else (case e of ExitError _ c \<Rightarrow> c | StartError _ \<Rightarrow> 1))"

definition firstWord :: "string \<Rightarrow> string" where
  "firstWord s = takeWhile (\<lambda>c. c \<noteq> CHR 0x20) (TrimSpace s)"

definition shellSyntax :: "string \<Rightarrow> bool" where
  "shellSyntax cmd \<longleftrightarrow> list_ex (\<lambda>c. c \<in> set '';|&$`'') cmd"

text \<open>\<open>filepath.Base\<close> of a path that does not end in a separator\<close>

definition basePath :: "string \<Rightarrow> string" where
  "basePath p = (if p = [] then ''.'' else rev (takeWhile (\<lambda>c. c \<noteq> CHR ''/'') (rev p)))"

definition joinPaths :: "string list \<Rightarrow> string" where
  "joinPaths ws = (case filter (\<lambda>w. w \<noteq> []) ws of [] \<Rightarrow> [] | us \<Rightarrow> cleanPath (Join us ''/''))"

definition toolMissing :: "ToolEnv \<Rightarrow> CheckDef \<Rightarrow> bool" where
  "toolMissing env d =
     (if ckProbe d \<noteq> [] then \<not> teLookPath env (ckProbe d)
      else (let bin = firstWord (ckCommand d) in
            bin \<noteq> ''go'' \<and> bin \<noteq> ''npm'' \<and> \<not> shellSyntax (ckCommand d) \<and> \<not> teLookPath env bin))"

definition newResult :: "CheckDef \<Rightarrow> CheckResult" where
  "newResult d = CheckDef.extend d \<lparr>resStatus = [], resSummary = [], resFindings = 0, resReportFile = [], resDurationMs = 0\<rparr>"

definition reportText :: "ProcOutcome \<Rightarrow> string" where
  "reportText o1 =
     (if poStderr o1 \<noteq> [] then ''=== stderr ==='' @ [NL] @ poStderr o1 @ [NL] @ ''=== stdout ==='' @ [NL] else []) @ poStdout o1"

text \<open>The result and, when the tool ran, the report file written next to the run.\<close>

definition runCheck :: "ToolEnv \<Rightarrow> CheckDef \<Rightarrow> string \<Rightarrow> CheckResult \<times> (string \<times> string) list" where
  "runCheck env d runDir =
     (let res = newResult d in
      if toolMissing env d then (graded res ''skipped'' ''not installed'', [])
      else if ckDir d \<noteq> [] \<and> \<not> teStat env (ckDir d) then (graded res ''skipped'' (ckDir d @ '' not present''), [])
      else
        (let o1 = teRun env (ckCommand d) (ckDir d);
             reportName = ckKey d @ ''.txt'';
             res1 = res\<lparr>resDurationMs := poMillis o1,
                        resReportFile := joinPaths [''runs'', basePath runDir, reportName]\<rparr>
         in (parseResult res1 (poStdout o1) (poStderr o1 @ poStdout o1) (exitCode (poError o1)),
             [(joinPaths [runDir, reportName], reportText o1)])))"

section \<open>A scan\<close>

text \<open>The clock and git answer with text; a failing git is the empty string.\<close>

record ScanInfo =
  siRunID :: string
  siStartedAt :: string
  siGitSHA :: "string option"
  siGitBranch :: "string option"

definition gitOut :: "string option \<Rightarrow> string" where
  "gitOut out = (case out of None \<Rightarrow> [] | Some t \<Rightarrow> TrimSpace t)"

definition performScan :: "ToolEnv \<Rightarrow> ScanInfo \<Rightarrow> DashConfig \<Rightarrow> string \<Rightarrow> string \<Rightarrow> Run \<times> (string \<times> string) list" where
  "performScan env info cfg dir trigger =
     (let runDir = joinPaths [dir, ''runs'', siRunID info];
          outs = map (\<lambda>d. runCheck env d runDir) (filter (\<lambda>d. \<not> ckDisabled d) (dcChecks cfg))
      in (\<lparr>rnID = siRunID info, rnStartedAt = siStartedAt info, rnGitSHA = gitOut (siGitSHA info),
           rnGitBranch = gitOut (siGitBranch info), rnTrigger = trigger, rnChecks = map fst outs,
           rnTotals = tally (map fst outs)\<rparr>,
          concat (map snd outs)))"

section \<open>Which statuses a check can have\<close>

lemma resStatus_graded [simp]: "resStatus (graded r st sm) = st"
  by (simp add: graded_def)

lemma truncate_result [simp]:
  "CheckDef.truncate (graded r st sm) = CheckDef.truncate r"
  "CheckDef.truncate (r\<lparr>resFindings := n\<rparr>) = CheckDef.truncate (r :: CheckResult)"
  "CheckDef.truncate (r\<lparr>resDurationMs := m, resReportFile := f\<rparr>) = CheckDef.truncate (r :: CheckResult)"
  by (simp_all add: graded_def CheckDef.truncate_def)

definition jsonParsers :: "string list" where
  "jsonParsers = [''gosec-json'', ''semgrep-json'', ''npm-audit'', ''sarif'', ''eslint-json'', ''vitest-json'']"

definition ranStatus :: "string \<Rightarrow> bool" where
  "ranStatus st \<longleftrightarrow> st \<in> {''pass'', ''fail'', ''warn'', ''error''}"

lemma ranStatus_values [simp]: "ranStatus ''pass''" "ranStatus ''fail''" "ranStatus ''warn''" "ranStatus ''error''"
  by (simp_all add: ranStatus_def)

lemma parser_status [simp]:
  "ranStatus (resStatus (parseGovulncheck res o1))"
  "ranStatus (resStatus (parseGitleaks res o1 exit))"
  "ranStatus (resStatus (parseSarif res o1 exit))"
  "ranStatus (resStatus (parseGotest res o1 exit))"
  "ranStatus (resStatus (gradeFindings res one many))"
  "ranStatus (resStatus (unparseable res what exit))"
  by (simp_all add: parseGovulncheck_def parseGitleaks_def parseSarif_def parseGotest_def gradeFindings_def
      unparseable_def Let_def split: option.split)

lemma parseResult_status: "ranStatus (resStatus (parseResult res out both exit))"
  unfolding parseResult_def Let_def
  by (auto split: option.split)

lemma parser_keeps_def [simp]:
  "CheckDef.truncate (parseGovulncheck res o1) = CheckDef.truncate res"
  "CheckDef.truncate (parseGitleaks res o1 exit) = CheckDef.truncate res"
  "CheckDef.truncate (parseSarif res o1 exit) = CheckDef.truncate res"
  "CheckDef.truncate (parseGotest res o1 exit) = CheckDef.truncate res"
  "CheckDef.truncate (gradeFindings res one many) = CheckDef.truncate res"
  "CheckDef.truncate (unparseable res what exit) = CheckDef.truncate res"
  by (simp_all add: parseGovulncheck_def parseGitleaks_def parseSarif_def parseGotest_def gradeFindings_def
      unparseable_def Let_def split: option.split)

lemma parseResult_keeps_def: "CheckDef.truncate (parseResult res out both exit) = CheckDef.truncate res"
  by (simp add: parseResult_def Let_def split: option.split)

lemma truncate_newResult [simp]: "CheckDef.truncate (newResult d) = d"
  by (simp add: newResult_def CheckDef.extend_def CheckDef.truncate_def)

lemma runCheck_keeps_def: "CheckDef.truncate (fst (runCheck env d runDir)) = d"
  by (simp add: runCheck_def Let_def parseResult_keeps_def)

lemma runCheck_status: "ranStatus (resStatus (fst (runCheck env d runDir))) \<or> resStatus (fst (runCheck env d runDir)) = ''skipped''"
  by (simp add: runCheck_def Let_def parseResult_status)

lemma gating_truncate: "ckGating (CheckDef.truncate r) = ckGating r"
  by (simp add: CheckDef.truncate_def)

lemma runCheck_gating [simp]: "ckGating (fst (runCheck env d runDir)) = ckGating d"
  using runCheck_keeps_def [of env d runDir] gating_truncate by metis

lemma unreadable_report:
  assumes "ckParser res \<in> set jsonParsers" and "parseJson (structured out both) = None"
  shows "resStatus (parseResult res out both exit) = ''error''"
  using assms
  by (auto simp: jsonParsers_def parseResult_def countJSONArray_def npmAuditCounts_def sarifCounts_def eslintCounts_def
      vitestCounts_def parseSarif_def unparseable_def Let_def)

end
