(* ===== verification/Go_Time.thy ===== *)
theory Go_Time
  imports Go_Float
begin

text \<open>
  The calendar of package \<open>time\<close> as the programs use it: \<open>time.Parse\<close> with the layouts \<open>2006-01-02\<close>,
  RFC 3339 and \<open>2006-01-02T15:04:05\<close>, truncation to a day and printing of a date.  A day is counted from
  1970-01-01.  The process's own time zone is a fixed offset (no daylight saving), so a time with an
  offset keeps that offset whether or not it is the local one.
\<close>

section \<open>Civil dates\<close>

definition leapYear :: "int \<Rightarrow> bool" where
  "leapYear y \<longleftrightarrow> y mod 4 = 0 \<and> (y mod 100 \<noteq> 0 \<or> y mod 400 = 0)"

definition daysIn :: "int \<Rightarrow> int \<Rightarrow> int" where
  "daysIn m y = (if m = 2 then (if leapYear y then 29 else 28) else if m \<in> {4, 6, 9, 11} then 30 else 31)"

definition validDate :: "int \<times> int \<times> int \<Rightarrow> bool" where
  "validDate date = (case date of (y, m, d) \<Rightarrow> 1 \<le> m \<and> m \<le> 12 \<and> 1 \<le> d \<and> d \<le> daysIn m y)"

text \<open>Years are counted from 1 March, so that the leap day is the last of its year; an era is 400 years.\<close>

definition yearStart :: "int \<Rightarrow> int" where
  "yearStart y = y * 365 + y div 4 - y div 100"

definition daysFromCivil :: "int \<times> int \<times> int \<Rightarrow> int" where
  "daysFromCivil date =
     (case date of (y, m, d) \<Rightarrow>
        let y' = (if m \<le> 2 then y - 1 else y);
            mp = (if m \<le> 2 then m + 9 else m - 3)
        in y' div 400 * 146097 + yearStart (y' mod 400) + ((153 * mp + 2) div 5 + d - 1) - 719468)"

definition eraDays :: "int \<Rightarrow> int" where
  "eraDays n = n - n div 1460 + n div 36524 - n div 146096"

definition monthOfDay :: "int \<Rightarrow> int \<times> int" where
  "monthOfDay doy =
     (let mp = (5 * doy + 2) div 153 in (if mp < 10 then mp + 3 else mp - 9, doy - (153 * mp + 2) div 5 + 1))"

definition civilFromDays :: "int \<Rightarrow> int \<times> int \<times> int" where
  "civilFromDays days =
     (let era = (days + 719468) div 146097;
          doe = (days + 719468) mod 146097;
          yoe = eraDays doe div 365;
          (m, d) = monthOfDay (doe - yearStart yoe)
      in (era * 400 + yoe + (if m \<le> 2 then 1 else 0), m, d))"

section \<open>Parsing\<close>

type_synonym 'a scanned = "('a \<times> string) option"

definition fixedNum :: "nat \<Rightarrow> string \<Rightarrow> int scanned" where
  "fixedNum n s = (if n \<le> length s \<and> list_all isDigit (take n s)
     then Some (int (the (parseDigits 0 (take n s))), drop n s) else None)"

definition literalText :: "string \<Rightarrow> string \<Rightarrow> string option" where
  "literalText l s = (if HasPrefix s l then Some (drop (length l) s) else None)"

definition scanDate :: "string \<Rightarrow> (int \<times> int \<times> int) scanned" where
  "scanDate s =
     (case fixedNum 4 s of None \<Rightarrow> None | Some (y, s1) \<Rightarrow>
     (case literalText ''-'' s1 of None \<Rightarrow> None | Some s2 \<Rightarrow>
     (case fixedNum 2 s2 of None \<Rightarrow> None | Some (m, s3) \<Rightarrow>
     (case literalText ''-'' s3 of None \<Rightarrow> None | Some s4 \<Rightarrow>
     (case fixedNum 2 s4 of None \<Rightarrow> None | Some (d, s5) \<Rightarrow>
        if validDate (y, m, d) then Some ((y, m, d), s5) else None)))))"

text \<open>The hour of a layout may be one digit; a fraction of a second is accepted although no layout has one.\<close>

definition scanHour :: "string \<Rightarrow> int scanned" where
  "scanHour s = (case fixedNum 2 s of Some r \<Rightarrow> Some r | None \<Rightarrow> fixedNum 1 s)"

definition skipFraction :: "string \<Rightarrow> string" where
  "skipFraction s =
     (case s of
        c # d # r \<Rightarrow> if (c = CHR ''.'' \<or> c = CHR '','') \<and> isDigit d then dropWhile isDigit r else s
      | _ \<Rightarrow> s)"

text \<open>The seconds since the start of the day.\<close>

definition scanClock :: "string \<Rightarrow> int scanned" where
  "scanClock s =
     (case scanHour s of None \<Rightarrow> None | Some (h, s1) \<Rightarrow>
     (case literalText '':'' s1 of None \<Rightarrow> None | Some s2 \<Rightarrow>
     (case fixedNum 2 s2 of None \<Rightarrow> None | Some (m, s3) \<Rightarrow>
     (case literalText '':'' s3 of None \<Rightarrow> None | Some s4 \<Rightarrow>
     (case fixedNum 2 s4 of None \<Rightarrow> None | Some (sec, s5) \<Rightarrow>
        if h < 24 \<and> m < 60 \<and> sec < 60 then Some (h * 3600 + m * 60 + sec, skipFraction s5) else None)))))"

text \<open>\<open>Z07:00\<close>, in seconds east of UTC; 24 hours and 60 minutes are let through.\<close>

definition scanZone :: "string \<Rightarrow> int scanned" where
  "scanZone s =
     (case s of
        [] \<Rightarrow> None
      | c # r \<Rightarrow>
          if c = CHR ''Z'' then Some (0, r)
          else (case fixedNum 2 r of None \<Rightarrow> None | Some (h, s1) \<Rightarrow>
               (case literalText '':'' s1 of None \<Rightarrow> None | Some s2 \<Rightarrow>
               (case fixedNum 2 s2 of None \<Rightarrow> None | Some (m, s3) \<Rightarrow>
                  if h \<le> 24 \<and> m \<le> 60 \<and> (c = CHR ''+'' \<or> c = CHR ''-'')
                  then Some ((if c = CHR ''-'' then - 1 else 1) * (h * 60 + m) * 60, s3) else None))))"

text \<open>A time truncated to 24 hours: the UTC day, and the offset it is printed in.\<close>

record DayTime =
  dtDay :: int
  dtOffset :: int

definition parseDateOnly :: "string \<Rightarrow> DayTime option" where
  "parseDateOnly s =
     (case scanDate s of
        Some (date, []) \<Rightarrow> Some \<lparr>dtDay = daysFromCivil date, dtOffset = 0\<rparr>
      | _ \<Rightarrow> None)"

definition scanDateTime :: "string \<Rightarrow> ((int \<times> int \<times> int) \<times> int) scanned" where
  "scanDateTime s =
     (case scanDate s of None \<Rightarrow> None | Some (date, s1) \<Rightarrow>
     (case literalText ''T'' s1 of None \<Rightarrow> None | Some s2 \<Rightarrow>
     (case scanClock s2 of None \<Rightarrow> None | Some (secs, s3) \<Rightarrow> Some ((date, secs), s3))))"

definition parseRFC3339 :: "string \<Rightarrow> DayTime option" where
  "parseRFC3339 s =
     (case scanDateTime s of
        None \<Rightarrow> None
      | Some ((date, secs), s1) \<Rightarrow>
          (case scanZone s1 of
             Some (off, []) \<Rightarrow>
               Some \<lparr>dtDay = (daysFromCivil date * 86400 + secs - off) div 86400, dtOffset = off\<rparr>
           | _ \<Rightarrow> None))"

definition parseLocalTime :: "string \<Rightarrow> DayTime option" where
  "parseLocalTime s =
     (case scanDateTime s of
        Some ((date, secs), []) \<Rightarrow> Some \<lparr>dtDay = daysFromCivil date, dtOffset = 0\<rparr>
      | _ \<Rightarrow> None)"

section \<open>Printing\<close>

definition padNum :: "nat \<Rightarrow> int \<Rightarrow> string" where
  "padNum w n =
     (let ds = FormatUint (nat \<bar>n\<bar>) in
      (if n < 0 then ''-'' else []) @ replicate (w - length ds) CHR ''0'' @ ds)"

section \<open>Instants\<close>

text \<open>A \<open>Time\<close> without a fraction: seconds since 1 January of year 1, an \<open>int64\<close>, and the offset it is printed in.\<close>

record GoTime =
  gtSec :: int
  gtOffset :: int

definition unixToInternal :: int where
  "unixToInternal = 62135596800"

definition timeOf :: "DayTime \<Rightarrow> GoTime" where
  "timeOf t = \<lparr>gtSec = wrap64 (dtDay t * 86400 + unixToInternal), gtOffset = dtOffset t\<rparr>"

text \<open>\<open>t.AddDate(0, 0, n)\<close> at a fixed offset: \<open>time.Date\<close> computes the seconds with wrap-around.\<close>

definition addDays :: "int \<Rightarrow> GoTime \<Rightarrow> GoTime" where
  "addDays n t = t\<lparr>gtSec := wrap64 (gtSec t + n * 86400)\<rparr>"

text \<open>\<open>int(t.Sub(u).Hours() / 24)\<close> for times without a fraction: a \<open>Duration\<close> holds at most 9223372036 whole seconds
  either way, and the conversion truncates.\<close>

definition subDays :: "GoTime \<Rightarrow> GoTime \<Rightarrow> int" where
  "subDays t u =
     (let d = max (- 9223372036) (min 9223372036 (gtSec t - gtSec u))
      in if d < 0 then - (- d div 86400) else d div 86400)"

text \<open>A date is printed from an unsigned count of seconds that starts 292277022400 years of the calendar before
  1 March of year 0.\<close>

definition absDays :: int where
  "absDays = 292277022400 * 3652425 div 10000 + 306"

definition formatDate :: "GoTime \<Rightarrow> string" where
  "formatDate t =
     (case civilFromDays ((gtSec t + gtOffset t + absDays * 86400) mod 2 ^ 64 div 86400 - absDays - unixToInternal div 86400) of
        (y, m, d) \<Rightarrow> padNum 4 y @ ''-'' @ padNum 2 m @ ''-'' @ padNum 2 d)"

section \<open>The calendar is consistent\<close>

definition yearLast :: "int \<Rightarrow> int" where
  "yearLast y = yearStart y + (if leapYear (y + 1) then 365 else 364)"

lemma year_table: "list_all (\<lambda>y. eraDays (yearStart y) div 365 = y \<and> eraDays (yearLast y) div 365 = y \<and>
    (if y = 399 then yearLast y = 146096 else yearLast y + 1 = yearStart (y + 1))) [0..399]"
  by code_simp

lemma div_step: "0 < k \<Longrightarrow> (n + 1) div k \<le> n div k + 1 \<and> n div k \<le> (n + 1) div (k :: int)"
proof
  assume k: "0 < k"
  have "(n + 1) div k \<le> (n + k) div k" using k by (intro zdiv_mono1) simp_all
  also have "(n + k) div k = n div k + 1" using k by (intro div_add_self2) simp
  finally show "(n + 1) div k \<le> n div k + 1" .
  show "n div k \<le> (n + 1) div k" using k by (intro zdiv_mono1) simp_all
qed

lemma quarter_step: "(a :: int) \<le> b \<Longrightarrow> b \<le> a + 1 \<Longrightarrow> b div 4 - a div 4 \<le> b - a"
  using div_step [of 4 a] by (cases "b = a") (auto dest: order_antisym)

lemma eraDays_step: "eraDays n \<le> eraDays (n + 1)"
proof -
  have "n div 146096 = n div 36524 div 4" for n :: int
    by (simp add: zdiv_zmult2_eq [symmetric])
  then have e: "eraDays n = n - n div 1460 + (n div 36524 - n div 36524 div 4)" for n
    by (simp add: eraDays_def)
  have "(n + 1) div 36524 div 4 - n div 36524 div 4 \<le> (n + 1) div 36524 - n div 36524"
    using div_step [of 36524 n] by (intro quarter_step) simp_all
  moreover have "(n + 1) div 1460 \<le> n div 1460 + 1"
    using div_step [of 1460 n] by simp
  ultimately show ?thesis unfolding e by (simp only: algebra_simps)
qed

lemma eraDays_mono: "m \<le> n \<Longrightarrow> eraDays m \<le> eraDays n"
  by (induction n rule: int_ge_induct) (use eraDays_step order_trans in blast)+

lemma year_covers:
  assumes "0 \<le> n" and "n \<le> 146096"
  shows "\<exists>y\<in>{0..399}. yearStart y \<le> n \<and> n \<le> yearLast y"
proof -
  have "\<exists>y\<in>{0..399}. yearStart y \<le> n \<and> n \<le> yearLast y" if "0 \<le> k" "k \<le> 399" "n \<le> yearLast k" for k
    using that
  proof (induction k rule: int_ge_induct)
    case base
    then show ?case using assms by (intro bexI [of _ 0]) (auto simp: yearStart_def)
  next
    case (step k)
    have "yearLast k + 1 = yearStart (k + 1)"
      using year_table step.hyps step.prems by (simp add: list_all_iff)
    with step show ?case
      by (cases "n \<le> yearLast k") (auto intro!: bexI [of _ "k + 1"])
  qed
  from this [of 399] assms show ?thesis by (simp add: yearLast_def yearStart_def leapYear_def)
qed

lemma eraDays_year:
  assumes "yearStart y \<le> n" "n \<le> yearLast y" "0 \<le> y" "y \<le> 399"
  shows "eraDays n div 365 = y"
proof -
  have "eraDays (yearStart y) div 365 = y" "eraDays (yearLast y) div 365 = y"
    using year_table assms by (auto simp: list_all_iff)
  moreover have "eraDays (yearStart y) div 365 \<le> eraDays n div 365" "eraDays n div 365 \<le> eraDays (yearLast y) div 365"
    using assms by (auto intro!: zdiv_mono1 eraDays_mono)
  ultimately show ?thesis by simp
qed

lemma month_table: "list_all (\<lambda>doy. case monthOfDay doy of (m, d) \<Rightarrow>
    1 \<le> m \<and> m \<le> 12 \<and> 1 \<le> d \<and> d \<le> daysIn m (if doy = 365 then 4 else 1) \<and>
    (153 * (if m \<le> 2 then m + 9 else m - 3) + 2) div 5 + d - 1 = doy) [0..365]"
  by code_simp

lemma leapYear_era: "leapYear (era * 400 + y) = leapYear y"
proof -
  have "(era * 400 + y) mod 400 = y mod 400" by simp
  moreover have "(era * 400 + y) mod 100 = y mod 100" using mod_mult_self3 [of "era * 4" 100 y] by (simp add: mult.commute)
  moreover have "(era * 400 + y) mod 4 = y mod 4" using mod_mult_self3 [of "era * 100" 4 y] by (simp add: mult.commute)
  ultimately show ?thesis by (simp add: leapYear_def)
qed

lemma civil_days:
  "daysFromCivil (civilFromDays k) = k" "validDate (civilFromDays k)"
proof -
  define era doe where "era = (k + 719468) div 146097" and "doe = (k + 719468) mod 146097"
  have k: "k = era * 146097 + doe - 719468" by (simp add: era_def doe_def)
  have "0 \<le> doe" "doe \<le> 146096" by (simp_all add: doe_def)
  then obtain y where y: "0 \<le> y" "y \<le> 399" "yearStart y \<le> doe" "doe \<le> yearLast y"
    using year_covers [of doe] by auto
  define doy where "doy = doe - yearStart y"
  have doy: "0 \<le> doy" "doy \<le> 365" "doy = 365 \<Longrightarrow> leapYear (y + 1)"
    using y by (auto simp: doy_def yearLast_def split: if_splits)
  obtain m d where md: "monthOfDay doy = (m, d)" by fastforce
  have t: "1 \<le> m" "m \<le> 12" "1 \<le> d" "d \<le> daysIn m (if doy = 365 then 4 else 1)"
    "(153 * (if m \<le> 2 then m + 9 else m - 3) + 2) div 5 + d - 1 = doy"
    using month_table [unfolded list_all_iff, THEN bspec, of doy] doy(1,2) md by simp_all
  have c: "civilFromDays k = (era * 400 + y + (if m \<le> 2 then 1 else 0), m, d)"
    using eraDays_year [OF y(3,4,1,2)] md
    by (simp add: civilFromDays_def Let_def era_def [symmetric] doe_def [symmetric] doy_def [symmetric])
  have "(era * 400 + y) div 400 = era" "(era * 400 + y) mod 400 = y" using y by simp_all
  then show "daysFromCivil (civilFromDays k) = k"
    using t k unfolding c daysFromCivil_def
    by (cases "m \<le> 2") (simp_all add: Let_def doy_def algebra_simps)
  have "daysIn m (if doy = 365 then 4 else 1) \<le> daysIn m (era * 400 + y + (if m \<le> 2 then 1 else 0))"
    using doy leapYear_era [of era "y + 1"] by (auto simp: daysIn_def leapYear_def add.assoc)
  with t show "validDate (civilFromDays k)" unfolding c by (simp add: validDate_def)
qed

text \<open>A printed date reads back as the day it names.\<close>

lemma FormatUint_length: "v < 10 ^ n \<Longrightarrow> 0 < n \<Longrightarrow> length (FormatUint v) \<le> n"
proof (induction v arbitrary: n rule: FormatUint.induct)
  case (1 v)
  show ?case
  proof (cases "v < 10")
    case False
    with "1.prems" obtain k where "n = Suc k" "0 < k" by (cases n; cases "n - 1") auto
    moreover have "v div 10 < 10 ^ k" using "1.prems" calculation by (simp add: less_mult_imp_div_less mult.commute)
    ultimately show ?thesis using False "1.IH" [of k] by (simp add: FormatUint.simps [of v])
  qed (use "1.prems" in \<open>simp add: FormatUint.simps [of v]\<close>)
qed

lemma parseDigits_zeros: "parseDigits 0 (replicate k CHR ''0'' @ s) = parseDigits 0 s"
  by (induction k) (simp_all add: digitVal_def)

lemma fixedNum_padNum:
  assumes "0 \<le> v" and "nat v < 10 ^ n" and "0 < n"
  shows "fixedNum n (padNum n v @ r) = Some (v, r)"
proof -
  have l: "length (padNum n v) = n" using FormatUint_length [of "nat v" n] assms by (simp add: padNum_def Let_def)
  have "list_all isDigit (padNum n v)"
  proof -
    have "isDigit c" if "c \<in> set (FormatUint (nat v))" for c
      using FormatUint_digits [OF that] by (auto simp: isDigit_def)
    moreover have "isDigit CHR ''0''" by (simp add: isDigit_def digitVal_def)
    ultimately show ?thesis using assms by (auto simp: padNum_def Let_def list_all_iff)
  qed
  moreover have "parseDigits 0 (padNum n v) = Some (nat v)"
    using assms by (simp add: padNum_def Let_def parseDigits_zeros parseDigits_FormatUint)
  ultimately show ?thesis using l assms by (simp add: fixedNum_def)
qed

lemma literalText_append [simp]: "literalText l (l @ r) = Some r"
  by (simp add: literalText_def)

lemma daysIn_le: "daysIn m y \<le> 31"
  by (simp add: daysIn_def)

text \<open>Near the present nothing wraps.\<close>

lemma addDays_exact:
  assumes "\<bar>dtDay t\<bar> \<le> 10 ^ 7" "0 \<le> n" "n \<le> 10 ^ 14"
  shows "gtSec (addDays n (timeOf t)) = (dtDay t + n) * 86400 + unixToInternal"
proof -
  have "int64 (dtDay t * 86400 + unixToInternal)" "int64 (dtDay t * 86400 + unixToInternal + n * 86400)"
    using assms by (auto simp: int64_def unixToInternal_def abs_le_iff)
  then show ?thesis by (simp add: addDays_def timeOf_def algebra_simps)
qed

lemma formatDate_timeOf:
  assumes "\<bar>dtDay t\<bar> \<le> 10 ^ 7" "\<bar>dtOffset t\<bar> \<le> 10 ^ 6" "civilFromDays (dtDay t + dtOffset t div 86400) = (y, m, d)"
  shows "formatDate (timeOf t) = padNum 4 y @ ''-'' @ padNum 2 m @ ''-'' @ padNum 2 d"
proof -
  let ?s = "dtDay t * 86400 + unixToInternal + dtOffset t + absDays * 86400"
  have "int64 (dtDay t * 86400 + unixToInternal)" using assms(1) by (auto simp: int64_def unixToInternal_def abs_le_iff)
  moreover have "?s mod 2 ^ 64 = ?s" using assms(1,2) by (intro mod_pos_pos_trivial) (auto simp: unixToInternal_def absDays_def abs_le_iff)
  moreover have "?s = dtOffset t + (dtDay t + 719162 + absDays) * 86400" by (simp add: unixToInternal_def algebra_simps)
  then have "?s div 86400 = dtOffset t div 86400 + (dtDay t + 719162 + absDays)" by (simp only: div_mult_self1)
  ultimately show ?thesis using assms(3) by (simp add: formatDate_def timeOf_def unixToInternal_def algebra_simps)
qed

lemma parse_formatDate:
  assumes "civilFromDays k = (y, m, d)" and "0 \<le> y" and "y \<le> 9999" and "\<bar>k\<bar> \<le> 10 ^ 7"
  shows "parseDateOnly (formatDate (timeOf \<lparr>dtDay = k, dtOffset = 0\<rparr>)) = Some \<lparr>dtDay = k, dtOffset = 0\<rparr>"
proof -
  have v: "validDate (y, m, d)" using civil_days(2) [of k] assms by simp
  then have b: "1 \<le> m" "m \<le> 12" "1 \<le> d" "d \<le> 31"
    using daysIn_le [of m y] by (auto simp: validDate_def)
  have "scanDate (padNum 4 y @ ''-'' @ padNum 2 m @ ''-'' @ padNum 2 d @ []) = Some ((y, m, d), [])"
    using v b assms unfolding scanDate_def
    by (simp add: fixedNum_padNum fixedNum_padNum [where r = "[]", simplified] literalText_append [of "''-''", simplified])
  with assms civil_days(1) [of k] show ?thesis
    using formatDate_timeOf [of "\<lparr>dtDay = k, dtOffset = 0\<rparr>" y m d] by (simp add: parseDateOnly_def)
qed

section \<open>The range of the dates that parse\<close>

lemma parseDigits_digits: "list_all isDigit s \<Longrightarrow> \<exists>n. parseDigits acc s = Some n"
  by (induction acc s rule: parseDigits.induct) (auto simp: isDigit_def split: option.splits)

lemma parseDigits_bound: "parseDigits acc s = Some n \<Longrightarrow> n < (acc + 1) * 10 ^ length s"
proof (induction acc s rule: parseDigits.induct)
  case (2 acc c s)
  then obtain d where d: "digitVal c = Some d" "parseDigits (10 * acc + d) s = Some n" by (auto split: option.splits)
  then have "d < 10" by (auto simp: digitVal_def split: if_splits)
  then have "(10 * acc + d + 1) * 10 ^ length s \<le> (acc + 1) * 10 * 10 ^ length s" by (intro mult_right_mono) simp_all
  moreover have "n < (10 * acc + d + 1) * 10 ^ length s" using "2.IH" d by blast
  ultimately have "n < (acc + 1) * 10 * 10 ^ length s" by (rule less_le_trans [rotated])
  then show ?case by (simp only: list.size power_Suc mult.assoc add_0_right add_Suc_right)
qed simp

lemma fixedNum_range:
  assumes "fixedNum n s = Some (i, r)"
  shows "0 \<le> i \<and> i < 10 ^ n"
proof -
  have n: "n \<le> length s" and d: "list_all isDigit (take n s)" and i: "i = int (the (parseDigits 0 (take n s)))"
    using assms by (auto simp: fixedNum_def split: if_splits)
  obtain k where "parseDigits 0 (take n s) = Some k" using parseDigits_digits [OF d] by blast
  with parseDigits_bound [OF this] n i show ?thesis by (simp add: min_absorb2 flip: of_nat_power)
qed

lemma scanDate_range:
  assumes "scanDate s = Some (date, r)"
  shows "\<bar>daysFromCivil date\<bar> \<le> 5 * 10 ^ 6"
proof -
  obtain y m d where date: "date = (y, m, d)" "0 \<le> y" "y < 10 ^ 4" "validDate (y, m, d)"
    using assms by (auto simp: scanDate_def dest: fixedNum_range split: option.splits prod.splits if_splits)
  define y' where "y' = (if m \<le> 2 then y - 1 else y)"
  define mp where "mp = (if m \<le> 2 then m + 9 else m - 3)"
  have d: "1 \<le> d" "d \<le> 31" "1 \<le> m" "m \<le> 12" using date(4) daysIn_le [of m y] by (auto simp: validDate_def)
  have "- 1 \<le> y' div 400" "y' div 400 \<le> 25" "0 \<le> y' mod 400" "y' mod 400 < 400"
    using date(2,3) by (auto simp: y'_def)
  moreover from this(3,4) have "0 \<le> yearStart (y' mod 400)" "yearStart (y' mod 400) \<le> 400 * 365 + 100"
    unfolding yearStart_def by linarith+
  moreover have "0 \<le> (153 * mp + 2) div 5" "(153 * mp + 2) div 5 \<le> 400" using d by (auto simp: mp_def)
  moreover have "daysFromCivil date = y' div 400 * 146097 + yearStart (y' mod 400) + ((153 * mp + 2) div 5 + d - 1) - 719468"
    by (simp add: daysFromCivil_def date(1) y'_def mp_def Let_def)
  ultimately have "\<bar>daysFromCivil date\<bar> \<le> 5000000"
    using d(1,2) by linarith
  then show ?thesis by simp
qed

lemma scanDateTime_range:
  assumes "scanDateTime s = Some ((date, secs), r)"
  shows "\<bar>daysFromCivil date\<bar> \<le> 5 * 10 ^ 6 \<and> 0 \<le> secs \<and> secs < 86400"
proof -
  have "0 \<le> secs \<and> secs < 86400" if "scanClock t = Some (secs, u)" for t u
    using that by (auto simp: scanClock_def scanHour_def dest!: fixedNum_range split: option.splits prod.splits if_splits)
  then show ?thesis using assms by (auto simp: scanDateTime_def dest!: scanDate_range split: option.splits prod.splits)
qed

lemma scanZone_range: "scanZone s = Some (off, r) \<Longrightarrow> \<bar>off\<bar> \<le> 90000"
  by (auto simp: scanZone_def dest!: fixedNum_range split: option.splits prod.splits if_splits list.splits)

lemma parseDateOnly_range: "parseDateOnly s = Some t \<Longrightarrow> \<bar>dtDay t\<bar> \<le> 10 ^ 7 \<and> \<bar>dtOffset t\<bar> \<le> 10 ^ 6"
  by (auto simp: parseDateOnly_def dest!: scanDate_range split: option.splits prod.splits list.splits)

lemma parseLocalTime_range: "parseLocalTime s = Some t \<Longrightarrow> \<bar>dtDay t\<bar> \<le> 10 ^ 7 \<and> \<bar>dtOffset t\<bar> \<le> 10 ^ 6"
  by (auto simp: parseLocalTime_def dest!: scanDateTime_range split: option.splits prod.splits list.splits)

lemma parseRFC3339_range:
  assumes "parseRFC3339 s = Some t"
  shows "\<bar>dtDay t\<bar> \<le> 10 ^ 7 \<and> \<bar>dtOffset t\<bar> \<le> 10 ^ 6"
proof -
  obtain date secs s1 off where *: "scanDateTime s = Some ((date, secs), s1)" "scanZone s1 = Some (off, [])"
    "t = \<lparr>dtDay = (daysFromCivil date * 86400 + secs - off) div 86400, dtOffset = off\<rparr>"
    using assms by (auto simp: parseRFC3339_def split: option.splits prod.splits list.splits)
  have "(daysFromCivil date * 86400 + secs - off) div 86400 = daysFromCivil date + (secs - off) div 86400"
    by (simp add: add_diff_eq [symmetric])
  moreover have "- 2 \<le> (secs - off) div 86400" "(secs - off) div 86400 \<le> 3"
    using scanDateTime_range [OF *(1)] scanZone_range [OF *(2)] by linarith+
  ultimately show ?thesis using scanDateTime_range [OF *(1)] scanZone_range [OF *(2)] *(3) by auto
qed

end
