(* ===== verification/Go_JsonNested.thy ===== *)
theory Go_JsonNested
  imports Go_JsonIndent
begin

text \<open>
  The indented text of any document reads back as the document: the parser skips the line breaks and the
  indentation that \<open>json.MarshalIndent\<close> puts between the parts of nested arrays and objects.
\<close>

lemma skipWs_idem [simp]: "skipWs (skipWs s) = skipWs s"
  unfolding skipWs_def by (induction s) simp_all

lemma parse_skipWs:
  "parseVal n d (skipWs s) = parseVal n d s"
  "parseElems n d (skipWs s) = parseElems n d s"
  "parseMembers n d (skipWs s) = parseMembers n d s"
proof -
  show v: "parseVal n d (skipWs s) = parseVal n d s" for n by (cases n) (simp_all add: parse_step)
  show "parseElems n d (skipWs s) = parseElems n d s" by (cases n) (simp_all add: parse_step v)
  show "parseMembers n d (skipWs s) = parseMembers n d s" by (cases n) (simp_all add: parse_step)
qed

lemma parse_indentNL:
  "parseVal n d (indentNL lvl @ s) = parseVal n d s"
  "parseElems n d (indentNL lvl @ s) = parseElems n d s"
  "parseMembers n d (indentNL lvl @ s) = parseMembers n d s"
  by (metis parse_skipWs skipWs_indentNL)+

lemma indentVal_head:
  assumes "okDoc v"
  obtains c t where "indentVal lvl v = c # t" "valueStart c"
proof (cases "isScalar v")
  case True
  with assms that show ?thesis by (metis encodeJson_head indentVal_scalar)
next
  case False
  then have "\<exists>c t. indentVal lvl v = c # t \<and> valueStart c" by (cases v) (simp_all add: valueStart_def)
  with that show ?thesis by blast
qed

lemma numStop_indentNL [simp]: "numStop (indentNL l @ r)"
  by (simp add: numStop_def indentNL_def isDigit_def digitVal_def)

lemma parse_open:
  assumes "skipWs s = c # t" "0 < d"
  shows "c \<noteq> CHR '']'' \<Longrightarrow> parseElems n (d - 1) s = Some (xs, r) \<Longrightarrow> parseVal (Suc n) d (CHR ''['' # s) = Some (JArr xs, r)"
    and "c \<noteq> CHR ''}'' \<Longrightarrow> parseMembers n (d - 1) s = Some (kvs, r) \<Longrightarrow> parseVal (Suc n) d (CHR ''{'' # s) = Some (JObj kvs, r)"
  using assms parse_skipWs [of n "d - 1" s] by (simp_all add: parse_step)

lemma parse_scalar:
  "isScalar v \<Longrightarrow> okDoc v \<Longrightarrow> numStop r \<Longrightarrow> 1 \<le> n \<Longrightarrow> parseVal n d (indentVal lvl v @ r) = Some (v, r)"
  using need_scalar [of v] by (simp add: indentVal_scalar parse_encode(1))

lemma parse_indent:
  "okDoc v \<Longrightarrow> numStop r \<Longrightarrow> need v \<le> n \<Longrightarrow> jdepth v \<le> d \<Longrightarrow> parseVal n d (indentVal lvl v @ r) = Some (v, r)"
  "okDocs vs \<Longrightarrow> vs \<noteq> [] \<Longrightarrow> needs vs \<le> n \<Longrightarrow> jdepths vs \<le> d \<Longrightarrow>
     parseElems n d (indentElems lvl vs @ indentNL l @ CHR '']'' # r) = Some (vs, r)"
  "okDocMembers kvs \<Longrightarrow> kvs \<noteq> [] \<Longrightarrow> needMembers kvs \<le> n \<Longrightarrow> jdepthMembers kvs \<le> d \<Longrightarrow>
     parseMembers n d (indentMembers lvl kvs @ indentNL l @ CHR ''}'' # r) = Some (kvs, r)"
proof (induction v and vs and kvs arbitrary: n d r lvl and n d r lvl l and n d r lvl l
    rule: okDoc_okDocs_okDocMembers.induct)
  case (5 xs)
  then obtain n' where n: "n = Suc n'" "needs xs \<le> n'" "0 < d" "jdepths xs \<le> d - 1" by (cases n; cases d) auto
  show ?case
  proof (cases xs)
    case Nil then show ?thesis by (simp add: n parse_step)
  next
    case (Cons x ys)
    let ?s = "indentElems (Suc lvl) xs @ indentNL lvl @ CHR '']'' # r"
    obtain c t where c: "indentVal (Suc lvl) x = c # t" "valueStart c" using "5.prems"(1) Cons indentVal_head [of x] by (metis okDoc.simps(5) okDocs.simps(2))
    have "skipWs ?s = c # t @ (if ys = [] then [] else '','') @ indentElems (Suc lvl) ys @ indentNL lvl @ CHR '']'' # r"
      using c valueStart_props [of c] by (simp add: Cons)
    from parse_open(1) [OF this n(3)] show ?thesis
      using "5.IH" [of n' "d - 1" "Suc lvl" lvl r] "5.prems" n c valueStart_props [of c] Cons by simp
  qed
next
  case (6 kvs)
  then obtain n' where n: "n = Suc n'" "needMembers kvs \<le> n'" "0 < d" "jdepthMembers kvs \<le> d - 1" by (cases n; cases d) auto
  show ?case
  proof (cases kvs)
    case Nil then show ?thesis by (simp add: n parse_step)
  next
    case (Cons kv ys)
    obtain k v where kv: "kv = (k, v)" by fastforce
    let ?s = "indentMembers (Suc lvl) kvs @ indentNL lvl @ CHR ''}'' # r"
    have "\<exists>t. skipWs ?s = CHR 0x22 # t" by (simp add: Cons kv quoteStr_def)
    then obtain t where "skipWs ?s = CHR 0x22 # t" by blast
    from parse_open(2) [OF this n(3)] show ?thesis
      using "6.IH" [of n' "d - 1" "Suc lvl" lvl r] "6.prems" n Cons by simp
  qed
next
  case (8 x xs)
  let ?r = "(if xs = [] then [] else '','') @ indentElems lvl xs @ indentNL l @ CHR '']'' # r"
  obtain m where n: "n = Suc m" "need x \<le> m" "needs xs \<le> m" using 8 by (cases n) auto
  have "numStop ?r" by simp
  then have x: "parseVal m d (indentVal lvl x @ ?r) = Some (x, ?r)" using 8 n by simp
  have "parseElems n d (indentElems lvl (x # xs) @ indentNL l @ CHR '']'' # r) = parseElems n d (indentVal lvl x @ ?r)"
    by (simp add: parse_indentNL)
  also have "\<dots> = Some (x # xs, r)"
    unfolding n parse_step x using 8 n by (cases "xs = []") simp_all
  finally show ?case .
next
  case (10 k v kvs)
  let ?r = "(if kvs = [] then [] else '','') @ indentMembers lvl kvs @ indentNL l @ CHR ''}'' # r"
  obtain m where n: "n = Suc m" "need v \<le> m" "needMembers kvs \<le> m" using 10 by (cases n) auto
  have "numStop ?r" by simp
  then have x: "parseVal m d (CHR 0x20 # indentVal lvl v @ ?r) = Some (v, ?r)" using 10 n by (simp add: parseVal_blank)
  have "parseMembers n d (indentMembers lvl ((k, v) # kvs) @ indentNL l @ CHR ''}'' # r) =
      parseMembers n d (CHR 0x22 # encodeStr k @ CHR 0x22 # CHR '':'' # CHR 0x20 # indentVal lvl v @ ?r)"
    by (simp add: quoteStr_def parse_indentNL)
  also have "\<dots> = Some ((k, v) # kvs, r)"
    using 10 n x decodeStr_encodeStr [of k "CHR '':'' # CHR 0x20 # indentVal lvl v @ ?r"]
    by (cases "kvs = []") (simp_all add: parse_step)
  finally show ?case .
qed (simp_all add: parse_scalar del: indentVal.simps)

lemma parseJson_MarshalIndent:
  assumes "okDoc v" "jdepth v \<le> maxNestingDepth" "MarshalIndent v = Some t"
  shows "parseJson (t @ [CHR 0x0A]) = Some v"
proof -
  let ?s = "t @ [CHR 0x0A]"
  have t: "t = indentVal 0 v" using assms(3) by (simp add: MarshalIndent_def split: if_splits)
  have "numStop [CHR 0x0A]" by (simp add: numStop_def isDigit_def digitVal_def)
  then have "parseVal (max (need v) (2 * length ?s + 2)) maxNestingDepth ?s = Some (v, [CHR 0x0A])"
    unfolding t by (intro parse_indent assms) simp_all
  then have "parseVal (2 * length ?s + 2) maxNestingDepth ?s = Some (v, [CHR 0x0A])"
    using parse_fuel_enough [of ?s "max (need v) (2 * length ?s + 2)"] by simp
  then show ?thesis by (simp add: parseJson_def skipWs_def isWs_def del: parseVal.simps)
qed

end
