(* ===== verification/Dashboard_Tasks.thy ===== *)
theory Dashboard_Tasks
  imports Dashboard_Checks Go_Time Go_JsonNested
begin

text \<open>
  \<open>cmd/security-dashboard/tasks.go\<close>: the manual programme.  A task's state is derived from its cadence, the
  date of its last run and today; \<open>markTaskDone\<close> rewrites \<open>tasks.json\<close>.  \<open>strings.ToLower\<close> outside ASCII is the
  parameter \<open>uc\<close>.  Due dates are computed with the wrap-around of \<open>time.Date\<close> (\<open>addDays\<close> of \<open>Go_Time\<close>).
\<close>

section \<open>Cadence and state\<close>

definition dueSoonDays :: int where
  "dueSoonDays = 14"

definition cadenceDays :: "unicode \<Rightarrow> string \<Rightarrow> int" where
  "cadenceDays uc cadence =
     (let c = ToLower uc cadence in
      if Contains c ''weekly'' then 7
      else if Contains c ''semi-annual'' \<or> Contains c ''semiannual'' \<or> Contains c ''biannual'' \<or>
              Contains c ''6 months'' \<or> Contains c ''six months'' then 182
      else if Contains c ''monthly'' then 30
      else if Contains c ''quarterly'' then 90
      else if Contains c ''annual'' \<or> Contains c ''yearly'' then 365
      else 0)"

record taskView = Task +
  tvDue :: string
  tvDueLabel :: string
  tvState :: string
  tvStateLabel :: string
  tvClass :: string

definition viewOf :: "Task \<Rightarrow> string \<Rightarrow> string \<Rightarrow> string \<Rightarrow> string \<Rightarrow> string \<Rightarrow> taskView" where
  "viewOf t due dueLabel state stateLabel cls =
     Task.extend t \<lparr>tvDue = due, tvDueLabel = dueLabel, tvState = state, tvStateLabel = stateLabel, tvClass = cls\<rparr>"

definition inDays :: "int \<Rightarrow> string" where
  "inDays d = (if d = 0 then ''today'' else ''in '' @ plural d ''day'' ''days'')"

definition eventLabel :: "unicode \<Rightarrow> string \<Rightarrow> string" where
  "eventLabel uc cadence = (if Contains (ToLower uc cadence) ''pr'' then ''per PR'' else ''per release'')"

definition eventDueLabel :: "unicode \<Rightarrow> string \<Rightarrow> string" where
  "eventDueLabel uc cadence = (if Contains (ToLower uc cadence) ''pr'' then ''each PR'' else ''each release'')"

definition parseTaskDate :: "string \<Rightarrow> DayTime option" where
  "parseTaskDate s0 =
     (let s = TrimSpace s0 in
      case parseDateOnly s of
        Some t \<Rightarrow> Some t
      | None \<Rightarrow> (case parseRFC3339 s of Some t \<Rightarrow> Some t | None \<Rightarrow> parseLocalTime s))"

definition overrideStatus :: "unicode \<Rightarrow> Task \<Rightarrow> string" where
  "overrideStatus uc t = ToLower uc (TrimSpace (tkStatus t))"

definition taskInterval :: "unicode \<Rightarrow> Task \<Rightarrow> int" where
  "taskInterval uc t = (if tkIntervalDays t \<le> 0 then cadenceDays uc (tkCadence t) else tkIntervalDays t)"

definition dueView :: "Task \<Rightarrow> GoTime \<Rightarrow> GoTime \<Rightarrow> taskView" where
  "dueView t due today =
     (let date = formatDate due; days = subDays due today in
      if days < 0 then viewOf t date date ''overdue'' (''overdue '' @ plural (- days) ''day'' ''days'') ''bad''
      else if days \<le> dueSoonDays
      then viewOf t date (date @ '' ('' @ inDays days @ '')'') ''due-soon'' ''due soon'' ''warn''
      else viewOf t date date ''current'' ''current'' ''ok'')"

text \<open>\<open>now\<close> is in seconds since the epoch; truncation to 24 hours leaves the UTC day.\<close>

definition taskStatus :: "unicode \<Rightarrow> Task \<Rightarrow> int \<Rightarrow> taskView" where
  "taskStatus uc t now =
     (let today = \<lparr>gtSec = now div 86400 * 86400 + unixToInternal, gtOffset = 0\<rparr>; st = overrideStatus uc t;
          unreadable = viewOf t [] emDash ''unknown'' ''date unreadable'' ''warn'' in
      if st = ''automated'' then viewOf t [] ''every scan'' ''automated'' ''automated'' ''ok''
      else if st \<in> {''waived'', ''n/a'', ''na'', ''not applicable''} then viewOf t [] emDash ''waived'' ''waived'' ''muted''
      else if st = ''blocked'' then viewOf t [] emDash ''blocked'' ''blocked'' ''bad''
      else if TrimSpace (tkLastRun t) = [] then viewOf t [] emDash ''never'' ''never run'' ''bad''
      else (case parseTaskDate (tkLastRun t) of
          None \<Rightarrow> unreadable
        | Some lastDay \<Rightarrow>
            if TrimSpace (tkNextDue t) \<noteq> [] then
              (case parseTaskDate (tkNextDue t) of None \<Rightarrow> unreadable | Some d \<Rightarrow> dueView t (timeOf d) today)
            else if 0 < taskInterval uc t
            then dueView t (addDays (taskInterval uc t) (timeOf lastDay)) today
            else viewOf t [] (eventDueLabel uc (tkCadence t)) ''event'' (eventLabel uc (tkCadence t)) ''muted''))"

section \<open>The summary line\<close>

record taskSummary =
  tsTotal :: int
  tsTracked :: int
  tsCurrent :: int
  tsDueSoon :: int
  tsOverdue :: int
  tsNever :: int
  tsLine :: string
  tsClass :: string

definition countTask :: "string \<Rightarrow> taskSummary \<Rightarrow> taskSummary" where
  "countTask st s0 =
     (let s = (if st \<noteq> ''waived'' \<and> st \<noteq> ''automated'' then s0\<lparr>tsTracked := tsTracked s0 + 1\<rparr> else s0) in
      if st \<in> {''current'', ''event'', ''automated''} then s\<lparr>tsCurrent := tsCurrent s + 1\<rparr>
      else if st = ''due-soon'' then s\<lparr>tsDueSoon := tsDueSoon s + 1\<rparr>
      else if st = ''overdue'' \<or> st = ''blocked'' then s\<lparr>tsOverdue := tsOverdue s + 1\<rparr>
      else if st = ''never'' then s\<lparr>tsNever := tsNever s + 1\<rparr>
      else s)"

definition summaryParts :: "taskSummary \<Rightarrow> string list" where
  "summaryParts s =
     (if 0 < tsOverdue s then [Itoa (tsOverdue s) @ '' overdue''] else []) @
     (if 0 < tsNever s then [Itoa (tsNever s) @ '' never recorded''] else []) @
     (if 0 < tsDueSoon s then [Itoa (tsDueSoon s) @ '' due soon''] else [])"

definition summarizeTasks :: "unicode \<Rightarrow> Task list \<Rightarrow> int \<Rightarrow> taskSummary" where
  "summarizeTasks uc tasks now =
     (let s = fold (\<lambda>t. countTask (tvState (taskStatus uc t now))) tasks
                \<lparr>tsTotal = int (length tasks), tsTracked = 0, tsCurrent = 0, tsDueSoon = 0, tsOverdue = 0, tsNever = 0,
                 tsLine = [], tsClass = []\<rparr>;
          parts = summaryParts s
      in s\<lparr>tsClass := (if 0 < tsOverdue s \<or> 0 < tsNever s then ''bad'' else if 0 < tsDueSoon s then ''warn'' else ''ok''),
           tsLine := (if parts = [] then plural (tsTracked s) ''task'' ''tasks'' @ '' on schedule''
                      else Join parts [CHR 0x20, CHR 0xC2, CHR 0xB7, CHR 0x20] @ '' of '' @ Itoa (tsTracked s) @
                        '' tracked tasks '' @ emDash @ '' run them, automate them, or waive them'')\<rparr>)"

section \<open>tasks.json\<close>

definition zeroTask :: Task where
  "zeroTask = \<lparr>tkID = [], tkTitle = [], tkCategory = [], tkCadence = [], tkOwner = [], tkStatus = [], tkLastRun = [],
     tkNextDue = [], tkDocAnchor = [], tkNotes = [], tkLastNote = [], tkIntervalDays = 0, tkSource = []\<rparr>"

definition taskFields :: "string list" where
  "taskFields = [''id'', ''title'', ''category'', ''cadence'', ''owner'', ''status'', ''lastRun'', ''nextDue'', ''docAnchor'',
     ''notes'', ''lastNote'', ''intervalDays'', ''source'']"

definition setTaskField :: "string \<Rightarrow> json \<Rightarrow> Task \<Rightarrow> Task option" where
  "setTaskField f v t =
     (if f = ''id'' then map_option (\<lambda>s. t\<lparr>tkID := s\<rparr>) (decodeString v (tkID t))
      else if f = ''title'' then map_option (\<lambda>s. t\<lparr>tkTitle := s\<rparr>) (decodeString v (tkTitle t))
      else if f = ''category'' then map_option (\<lambda>s. t\<lparr>tkCategory := s\<rparr>) (decodeString v (tkCategory t))
      else if f = ''cadence'' then map_option (\<lambda>s. t\<lparr>tkCadence := s\<rparr>) (decodeString v (tkCadence t))
      else if f = ''owner'' then map_option (\<lambda>s. t\<lparr>tkOwner := s\<rparr>) (decodeString v (tkOwner t))
      else if f = ''status'' then map_option (\<lambda>s. t\<lparr>tkStatus := s\<rparr>) (decodeString v (tkStatus t))
      else if f = ''lastRun'' then map_option (\<lambda>s. t\<lparr>tkLastRun := s\<rparr>) (decodeString v (tkLastRun t))
      else if f = ''nextDue'' then map_option (\<lambda>s. t\<lparr>tkNextDue := s\<rparr>) (decodeString v (tkNextDue t))
      else if f = ''docAnchor'' then map_option (\<lambda>s. t\<lparr>tkDocAnchor := s\<rparr>) (decodeString v (tkDocAnchor t))
      else if f = ''notes'' then map_option (\<lambda>s. t\<lparr>tkNotes := s\<rparr>) (decodeString v (tkNotes t))
      else if f = ''lastNote'' then map_option (\<lambda>s. t\<lparr>tkLastNote := s\<rparr>) (decodeString v (tkLastNote t))
      else if f = ''intervalDays'' then map_option (\<lambda>n. t\<lparr>tkIntervalDays := n\<rparr>) (decodeInt v (tkIntervalDays t))
      else map_option (\<lambda>s. t\<lparr>tkSource := s\<rparr>) (decodeString v (tkSource t)))"

text \<open>The list is nil, \<open>None\<close>, until the document has an array for it.\<close>

fun decodeNilSlice :: "(json \<Rightarrow> 'a \<Rightarrow> 'a option) \<Rightarrow> 'a \<Rightarrow> json \<Rightarrow> 'a list option \<Rightarrow> 'a list option option" where
  "decodeNilSlice dec zero (JArr vs) old = map_option Some (decodeElems dec zero vs (case old of None \<Rightarrow> [] | Some xs \<Rightarrow> xs))"
| "decodeNilSlice dec zero JNull old = Some None"
| "decodeNilSlice dec zero _ old = None"

definition decodeTasks :: "string \<Rightarrow> Task list option option" where
  "decodeTasks s =
     (case parseJson s of
        None \<Rightarrow> None
      | Some v \<Rightarrow> decodeField ''tasks'' (decodeNilSlice (decodeStruct taskFields setTaskField) zeroTask) v None)"

text \<open>\<open>loadTasks\<close> drops the error of \<open>json.Unmarshal\<close>, which goes on after a value of the wrong type and leaves
  what that value was meant for as it is; a document that is not JSON changes nothing.\<close>

fun lenientFields :: "string list \<Rightarrow> (string \<Rightarrow> json \<Rightarrow> 'a \<Rightarrow> 'a option) \<Rightarrow> (string \<times> json) list \<Rightarrow> 'a \<Rightarrow> 'a" where
  "lenientFields names set_field [] x = x"
| "lenientFields names set_field ((k, v) # kvs) x =
     lenientFields names set_field kvs
       (case matchField names k of
          None \<Rightarrow> x
        | Some f \<Rightarrow> (case set_field f v x of None \<Rightarrow> x | Some y \<Rightarrow> y))"

fun lenientTask :: "json \<Rightarrow> Task \<Rightarrow> Task option" where
  "lenientTask (JObj kvs) t = Some (lenientFields taskFields setTaskField kvs t)"
| "lenientTask _ t = Some t"

fun loadTasks :: "string result \<Rightarrow> Task list" where
  "loadTasks (Inl e) = []"
| "loadTasks (Inr b) =
     (case parseJson b of
        Some (JObj kvs) \<Rightarrow>
          (case lenientFields [''tasks''] (\<lambda>f. decodeNilSlice lenientTask zeroTask) kvs None of None \<Rightarrow> [] | Some ts \<Rightarrow> ts)
      | _ \<Rightarrow> [])"

definition omitEmpty :: "string \<Rightarrow> string \<Rightarrow> (string \<times> json) list" where
  "omitEmpty name s = (if s = [] then [] else [(name, JStr s)])"

definition taskMembers :: "Task \<Rightarrow> (string \<times> json) list" where
  "taskMembers t =
     [(''id'', JStr (tkID t)), (''title'', JStr (tkTitle t)), (''category'', JStr (tkCategory t)),
      (''cadence'', JStr (tkCadence t)), (''owner'', JStr (tkOwner t)), (''status'', JStr (tkStatus t)),
      (''lastRun'', JStr (tkLastRun t)), (''nextDue'', JStr (tkNextDue t)), (''docAnchor'', JStr (tkDocAnchor t)),
      (''notes'', JStr (tkNotes t))] @
     omitEmpty ''lastNote'' (tkLastNote t) @
     (if tkIntervalDays t = 0 then [] else [(''intervalDays'', JNum (Itoa (tkIntervalDays t)))]) @
     omitEmpty ''source'' (tkSource t)"

definition tasksJson :: "Task list option \<Rightarrow> json" where
  "tasksJson ts = JObj [(''tasks'', case ts of None \<Rightarrow> JNull | Some xs \<Rightarrow> JArr (map (\<lambda>t. JObj (taskMembers t)) xs))]"

section \<open>Recording completion\<close>

definition isPlaceholderStatus :: "unicode \<Rightarrow> string \<Rightarrow> bool" where
  "isPlaceholderStatus uc s \<longleftrightarrow> ToLower uc (TrimSpace s) \<in> {[], ''pending'', ''in-progress'', ''in progress''}"

definition stampTask :: "unicode \<Rightarrow> string \<Rightarrow> string \<Rightarrow> string \<Rightarrow> Task \<Rightarrow> Task" where
  "stampTask uc date owner note t =
     t\<lparr>tkLastRun := date, tkStatus := (if isPlaceholderStatus uc (tkStatus t) then [] else tkStatus t),
       tkOwner := (if owner \<noteq> [] then owner else tkOwner t), tkLastNote := note, tkNextDue := []\<rparr>"

text \<open>\<open>os.WriteFile\<close>: opening truncates the file, and a failed write leaves a prefix of the data in it.\<close>

datatype fileFault = NoFault | OpenFault string | WriteFault nat string

fun writeFile :: "fileFault \<Rightarrow> string \<Rightarrow> string result \<Rightarrow> goerror option \<times> string result" where
  "writeFile NoFault data old = (None, Inr data)"
| "writeFile (OpenFault e) data old = (Some (ErrOS e), old)"
| "writeFile (WriteFault k e) data old = (Some (ErrOS e), Inr (take k data))"

text \<open>The file is what reading it gives: an error or its bytes.\<close>

definition markTaskDone :: "unicode \<Rightarrow> fileFault \<Rightarrow> string \<Rightarrow> string \<Rightarrow> string \<Rightarrow> string \<Rightarrow> string \<Rightarrow> string result
    \<Rightarrow> goerror option \<times> string result" where
  "markTaskDone uc io dir task date owner note src =
     (let path = joinPaths [dir, ''tasks.json''] in
      if parseTaskDate date = None then (Some (ErrFmt ''date %q is not YYYY-MM-DD'' [date]), src)
      else (case src of
          Inl e \<Rightarrow> (Some (ErrWrap (''read '' @ path) e), src)
        | Inr b \<Rightarrow>
            (case decodeTasks b of
               None \<Rightarrow> (Some (ErrWrap (''parse '' @ path) ErrJSON), src)
             | Some tasks \<Rightarrow>
                 (let ts = (case tasks of None \<Rightarrow> [] | Some xs \<Rightarrow> xs) in
                  if \<not> list_ex (\<lambda>t. tkID t = task) ts
                  then (Some (ErrFmt ''no task with id %q in %s'' [task, path]), src)
                  else
                    (case MarshalIndent (tasksJson
                            (Some (map (\<lambda>t. if tkID t = task then stampTask uc date owner note t else t) ts))) of
                       None \<Rightarrow> (Some ErrJSON, src)
                     | Some out \<Rightarrow> writeFile io (out @ [NL]) src)))))"

definition dashIfEmpty :: "string \<Rightarrow> string" where
  "dashIfEmpty s = (if TrimSpace s = [] then emDash else s)"

text \<open>The rows of \<open>printTaskSchedule\<close>: id, state, last done, next due, cadence; and the closing line.\<close>

definition printTaskSchedule :: "unicode \<Rightarrow> string result \<Rightarrow> int \<Rightarrow> string list list \<times> string" where
  "printTaskSchedule uc src now =
     (let tasks = loadTasks src in
      ([''ID'', ''STATE'', ''LAST DONE'', ''NEXT DUE'', ''CADENCE''] #
         map (\<lambda>t. let v = taskStatus uc t now in
           [tkID t, tvStateLabel v, dashIfEmpty (tkLastRun t), dashIfEmpty (tvDue v), tkCadence t]) tasks,
       tsLine (summarizeTasks uc tasks now)))"

section \<open>Printed tasks read back\<close>

lemma ParseInt_Itoa: "int64 i \<Longrightarrow> ParseInt (Itoa i) = (i, False)"
  using ParseInt_FormatUint [of "nat i"] by (auto simp: Itoa_def int64_def ParseInt_def)

lemma isNumLit_Itoa: "isNumLit (Itoa i)"
proof (cases "i < 0")
  case True
  let ?l = "FormatUint (nat (- i))"
  obtain c r where "?l = c # r" by (cases ?l) auto
  moreover then have "c \<noteq> CHR ''-''" using FormatUint_chars [of c "nat (- i)"] by auto
  ultimately show ?thesis
    using digits_isNumLit [of "nat (- i)"] True
    by (auto simp: Itoa_def isNumLit_def scanNumber_def scanParts_def scanSign_def split: option.splits prod.splits)
qed (simp add: Itoa_def digits_isNumLit)

definition okTask :: "Task \<Rightarrow> bool" where
  "okTask t \<longleftrightarrow> int64 (tkIntervalDays t) \<and> list_all validUtf8
     [tkID t, tkTitle t, tkCategory t, tkCadence t, tkOwner t, tkStatus t, tkLastRun t, tkNextDue t, tkDocAnchor t,
      tkNotes t, tkLastNote t, tkSource t]"

lemma matchField_task:
  "matchField taskFields ''id'' = Some ''id''" "matchField taskFields ''title'' = Some ''title''"
  "matchField taskFields ''category'' = Some ''category''" "matchField taskFields ''cadence'' = Some ''cadence''"
  "matchField taskFields ''owner'' = Some ''owner''" "matchField taskFields ''status'' = Some ''status''"
  "matchField taskFields ''lastRun'' = Some ''lastRun''" "matchField taskFields ''nextDue'' = Some ''nextDue''"
  "matchField taskFields ''docAnchor'' = Some ''docAnchor''" "matchField taskFields ''notes'' = Some ''notes''"
  "matchField taskFields ''lastNote'' = Some ''lastNote''" "matchField taskFields ''intervalDays'' = Some ''intervalDays''"
  "matchField taskFields ''source'' = Some ''source''"
  by (simp_all add: matchField_def taskFields_def)

lemma decode_taskMembers:
  "okTask t \<Longrightarrow> decodeStruct taskFields setTaskField (JObj (taskMembers t)) zeroTask = Some t"
  by (cases t)
    (simp add: taskMembers_def omitEmpty_def okTask_def matchField_task setTaskField_def zeroTask_def ParseInt_Itoa)

lemma okDoc_taskMembers: "okTask t \<Longrightarrow> okDocMembers (taskMembers t)"
  by (simp add: taskMembers_def omitEmpty_def okTask_def isNumLit_Itoa byteVal_def validUtf8_all_ASCII)

lemma okDocs_map: "okDocs (map f xs) \<longleftrightarrow> list_all (\<lambda>x. okDoc (f x)) xs"
  by (induction xs) simp_all

lemma jdepths_map: "(\<And>x. x \<in> set xs \<Longrightarrow> jdepth (f x) \<le> k) \<Longrightarrow> jdepths (map f xs) \<le> k"
  by (induction xs) simp_all

lemma jdepth_task: "jdepthMembers (taskMembers t) = 0"
  by (simp add: taskMembers_def omitEmpty_def)

lemma decodeElems_map:
  "(\<And>x. x \<in> set xs \<Longrightarrow> dec (f x) zero = Some x) \<Longrightarrow> decodeElems dec zero (map f xs) [] = Some xs"
  by (induction xs) simp_all

lemma decodeTasks_print:
  assumes "list_all okTask ts" and "MarshalIndent (tasksJson (Some ts)) = Some out"
  shows "decodeTasks (out @ [CHR 0x0A]) = Some (Some ts)"
proof -
  let ?ds = "map (\<lambda>t. JObj (taskMembers t)) ts"
  have "okDocs ?ds" using assms(1) by (simp add: okDocs_map list_all_iff okDoc_taskMembers)
  moreover have "jdepths ?ds \<le> 1" by (rule jdepths_map) (simp add: jdepth_task)
  ultimately have "parseJson (out @ [CHR 0x0A]) = Some (tasksJson (Some ts))"
    using assms(2)
    by (intro parseJson_MarshalIndent) (simp_all add: tasksJson_def maxNestingDepth_def validUtf8_all_ASCII byteVal_def)
  moreover have "decodeElems (decodeStruct taskFields setTaskField) zeroTask ?ds [] = Some ts"
    using assms(1) by (intro decodeElems_map) (simp add: list_all_iff decode_taskMembers del: decodeStruct.simps)
  ultimately show ?thesis
    by (simp add: decodeTasks_def tasksJson_def decodeField_def matchField_def)
qed

lemma MarshalIndent_tasks:
  "list_all okTask ts \<Longrightarrow> \<exists>out. MarshalIndent (tasksJson (Some ts)) = Some out"
  using okDoc_numsOk(2) [of "map (\<lambda>t. JObj (taskMembers t)) ts"]
  by (simp add: MarshalIndent_def tasksJson_def okDocs_map list_all_iff okDoc_taskMembers)

text \<open>What is decoded can be printed.\<close>

lemma decodeInt_int64: "int64 old \<Longrightarrow> decodeInt v old = Some n \<Longrightarrow> int64 n"
  by (cases v) (auto simp: ParseInt_def int64_def Let_def split: option.splits if_splits list.splits)

lemma setTaskField_ok: "okDoc v \<Longrightarrow> okTask t \<Longrightarrow> setTaskField f v t = Some u \<Longrightarrow> okTask u"
  by (auto simp: setTaskField_def okTask_def dest: decodeString_ok decodeInt_int64 split: if_splits)

lemma okTask_zero: "okTask zeroTask"
  by (simp add: okTask_def zeroTask_def int64_def)

lemma decodeElems_inv:
  assumes "\<And>v x y. okDoc v \<Longrightarrow> P x \<Longrightarrow> dec v x = Some y \<Longrightarrow> P y" and "P zero"
  shows "okDocs vs \<Longrightarrow> list_all P olds \<Longrightarrow> decodeElems dec zero vs olds = Some xs \<Longrightarrow> list_all P xs"
proof (induction vs arbitrary: olds xs)
  case (Cons v vs)
  then obtain y ys where "dec v (case olds of [] \<Rightarrow> zero | x # _ \<Rightarrow> x) = Some y"
    "decodeElems dec zero vs (tl olds) = Some ys" "xs = y # ys"
    by (auto split: option.splits)
  moreover have "P (case olds of [] \<Rightarrow> zero | x # _ \<Rightarrow> x)" "list_all P (tl olds)"
    using Cons.prems(2) assms(2) by (cases olds; simp)+
  ultimately show ?case using Cons.prems(1) Cons.IH assms(1) by auto
qed simp

lemma decodeNilSlice_inv:
  assumes dec: "\<And>v x y. okDoc v \<Longrightarrow> P x \<Longrightarrow> dec v x = Some y \<Longrightarrow> P y" and "P zero" and "okDoc v"
    and old: "pred_option (list_all P) old" and new: "decodeNilSlice dec zero v old = Some new"
  shows "pred_option (list_all P) new"
proof (cases v)
  case (JArr vs)
  then obtain xs where xs: "decodeElems dec zero vs (case old of None \<Rightarrow> [] | Some xs \<Rightarrow> xs) = Some xs" "new = Some xs"
    using new by auto
  have "list_all P (case old of None \<Rightarrow> [] | Some xs \<Rightarrow> xs)" using old by (cases old) simp_all
  with decodeElems_inv [of P dec zero vs _ xs, OF dec] xs assms(2,3) JArr show ?thesis by simp
qed (use new in auto)

lemma decodeTasks_ok:
  assumes "decodeTasks s = Some (Some ts)"
  shows "list_all okTask ts"
proof -
  let ?dec = "decodeStruct taskFields setTaskField"
  have task: "okTask y" if "okDoc v" "okTask x" "?dec v x = Some y" for v x y
    using that decodeStruct_inv [of okTask setTaskField] setTaskField_ok by blast
  from assms obtain v where v: "okDoc v"
    "decodeStruct [''tasks''] (\<lambda>f. decodeNilSlice ?dec zeroTask) v None = Some (Some ts)"
    by (auto simp: decodeTasks_def decodeField_def dest: parseJson_okDoc split: option.splits)
  have "pred_option (list_all okTask) (Some ts)"
  proof (rule decodeStruct_inv [OF _ v(1) _ v(2)])
    show "pred_option (list_all okTask) y"
      if "okDoc v" "pred_option (list_all okTask) x" "decodeNilSlice ?dec zeroTask v x = Some y" for v x y
      using decodeNilSlice_inv [of okTask ?dec zeroTask v x y] task okTask_zero that by blast
  qed simp
  then show ?thesis by simp
qed

lemma stampTask_ok:
  "okTask t \<Longrightarrow> validUtf8 date \<Longrightarrow> validUtf8 owner \<Longrightarrow> validUtf8 note \<Longrightarrow> okTask (stampTask uc date owner note t)"
  by (simp add: okTask_def stampTask_def)

section \<open>Recording and reading a completion\<close>

lemma markTaskDone_writes:
  assumes "markTaskDone uc NoFault dir task date owner note (Inr b) = (None, f)"
    and "validUtf8 date" "validUtf8 owner" "validUtf8 note"
  obtains ts out where "decodeTasks b = Some (Some ts)" "task \<in> tkID ` set ts" "f = Inr out"
    "decodeTasks out = Some (Some (map (\<lambda>t. if tkID t = task then stampTask uc date owner note t else t) ts))"
proof -
  from assms(1) obtain ts out where *: "decodeTasks b = Some (Some ts)" "list_ex (\<lambda>t. tkID t = task) ts" "f = Inr (out @ [CHR 0x0A])"
    "MarshalIndent (tasksJson (Some (map (\<lambda>t. if tkID t = task then stampTask uc date owner note t else t) ts))) = Some out"
    by (auto simp: markTaskDone_def Let_def split: if_splits option.splits)
  moreover have "list_all okTask (map (\<lambda>t. if tkID t = task then stampTask uc date owner note t else t) ts)"
    using decodeTasks_ok [OF *(1)] assms(2-4) by (auto simp: list_all_iff stampTask_ok)
  ultimately show thesis
    using that decodeTasks_print by (auto simp: list_ex_iff)
qed

lemma parseTaskDate_blank: "parseTaskDate s = Some d \<Longrightarrow> TrimSpace s \<noteq> []"
  by (auto simp: parseTaskDate_def parseDateOnly_def parseRFC3339_def parseLocalTime_def scanDateTime_def scanDate_def fixedNum_def)

lemma ToLower_Nil [simp]: "ToLower uc [] = []"
  by (simp add: ToLower_def isASCII_def)

lemma parseTaskDate_range: "parseTaskDate s = Some d \<Longrightarrow> \<bar>dtDay d\<bar> \<le> 10 ^ 7"
  unfolding parseTaskDate_def
  by (auto simp: Let_def dest: parseDateOnly_range parseLocalTime_range parseRFC3339_range split: option.splits)

definition timeState :: "int \<Rightarrow> int \<Rightarrow> string" where
  "timeState due today =
     (if due < today then ''overdue'' else if due \<le> today + dueSoonDays then ''due-soon'' else ''current'')"

lemma subDays_whole:
  assumes "gtSec t = d * 86400 + unixToInternal" "gtSec u = e * 86400 + unixToInternal"
  shows "subDays t u < 0 \<longleftrightarrow> d < e" "subDays t u \<le> dueSoonDays \<longleftrightarrow> d \<le> e + dueSoonDays"
proof -
  have eq: "gtSec t - gtSec u = (d - e) * 86400" using assms by (simp add: algebra_simps)
  show "subDays t u < 0 \<longleftrightarrow> d < e" "subDays t u \<le> dueSoonDays \<longleftrightarrow> d \<le> e + dueSoonDays"
    unfolding subDays_def eq dueSoonDays_def Let_def by (simp_all split: if_splits) linarith+
qed

lemma dueView_state:
  assumes "gtSec due = d * 86400 + unixToInternal" "gtSec today = e * 86400 + unixToInternal"
  shows "tvState (dueView t due today) = timeState d e"
  using subDays_whole [OF assms] by (auto simp: dueView_def Let_def viewOf_def Task.extend_def timeState_def)

lemma stamped_state:
  assumes "isPlaceholderStatus uc (tkStatus t)" and "parseTaskDate date = Some d" and "0 < taskInterval uc t"
    and "taskInterval uc t \<le> 10 ^ 14"
  shows "tvState (taskStatus uc (stampTask uc date owner note t) now) = timeState (dtDay d + taskInterval uc t) (now div 86400)"
proof -
  have due: "gtSec (addDays (taskInterval uc t) (timeOf d)) = (dtDay d + taskInterval uc t) * 86400 + unixToInternal"
    using addDays_exact [OF parseTaskDate_range [OF assms(2)]] assms(3,4) by simp
  have "tvState (taskStatus uc (stampTask uc date owner note t) now) =
      tvState (dueView (stampTask uc date owner note t) (addDays (taskInterval uc t) (timeOf d))
        \<lparr>gtSec = now div 86400 * 86400 + unixToInternal, gtOffset = 0\<rparr>)"
    using assms parseTaskDate_blank [OF assms(2)]
    by (simp add: taskStatus_def Let_def overrideStatus_def stampTask_def taskInterval_def split: if_splits)
  then show ?thesis using dueView_state [OF due] by simp
qed

text \<open>Without the bound the state is wrong: the due date of a task that runs every \<open>2 * 10 ^ 14\<close> days wraps to the past.\<close>

lemma huge_interval_is_overdue:
  "tvState (dueView t (addDays (2 * 10 ^ 14) (timeOf \<lparr>dtDay = 20690, dtOffset = 0\<rparr>))
     \<lparr>gtSec = 20690 * 86400 + unixToInternal, gtOffset = 0\<rparr>) = ''overdue''"
  by (simp add: dueView_def addDays_def timeOf_def subDays_def unixToInternal_def wrap64_def Let_def viewOf_def Task.extend_def)

end
