(* ===== verification/Dashboard_Manifest.thy ===== *)
theory Dashboard_Manifest
  imports Dashboard_Tasks
begin

text \<open>
  The manifest files of \<open>cmd/security-dashboard/main.go\<close>: \<open>config.json\<close>, the recorded runs and the health bundle.
  Decoding follows the struct tags; encoding gives the document \<open>json.MarshalIndent\<close> prints.
\<close>

section \<open>Decoding the configuration\<close>

definition zeroSuppression :: Suppression where
  "zeroSuppression = \<lparr>spRule = [], spPath = [], spReason = []\<rparr>"

definition decodeSuppression :: "json \<Rightarrow> Suppression \<Rightarrow> Suppression option" where
  "decodeSuppression = decodeStruct [''rule'', ''path'', ''reason''] (\<lambda>f v s.
     if f = ''rule'' then map_option (\<lambda>x. s\<lparr>spRule := x\<rparr>) (decodeString v (spRule s))
     else if f = ''path'' then map_option (\<lambda>x. s\<lparr>spPath := x\<rparr>) (decodeString v (spPath s))
     else map_option (\<lambda>x. s\<lparr>spReason := x\<rparr>) (decodeString v (spReason s)))"

definition zeroCheckDef :: CheckDef where
  "zeroCheckDef = \<lparr>ckKey = [], ckName = [], ckCategory = [], ckTool = [], ckGating = False, ckCommand = [], ckParser = [],
     ckDir = [], ckInstallHint = [], ckProbe = [], ckSuppress = [], ckSource = [], ckDisabled = False, ckReason = []\<rparr>"

definition checkFields :: "string list" where
  "checkFields = [''key'', ''name'', ''category'', ''tool'', ''gating'', ''command'', ''parser'', ''dir'', ''installHint'',
     ''probe'', ''suppress'', ''source'', ''disabled'', ''reason'']"

text \<open>The fields of a check, also where it is embedded in a result.\<close>

definition setCheckField :: "string \<Rightarrow> json \<Rightarrow> 'a CheckDef_scheme \<Rightarrow> 'a CheckDef_scheme option" where
  "setCheckField f v c =
     (if f = ''key'' then map_option (\<lambda>x. c\<lparr>ckKey := x\<rparr>) (decodeString v (ckKey c))
      else if f = ''name'' then map_option (\<lambda>x. c\<lparr>ckName := x\<rparr>) (decodeString v (ckName c))
      else if f = ''category'' then map_option (\<lambda>x. c\<lparr>ckCategory := x\<rparr>) (decodeString v (ckCategory c))
      else if f = ''tool'' then map_option (\<lambda>x. c\<lparr>ckTool := x\<rparr>) (decodeString v (ckTool c))
      else if f = ''gating'' then map_option (\<lambda>x. c\<lparr>ckGating := x\<rparr>) (decodeBool v (ckGating c))
      else if f = ''command'' then map_option (\<lambda>x. c\<lparr>ckCommand := x\<rparr>) (decodeString v (ckCommand c))
      else if f = ''parser'' then map_option (\<lambda>x. c\<lparr>ckParser := x\<rparr>) (decodeString v (ckParser c))
      else if f = ''dir'' then map_option (\<lambda>x. c\<lparr>ckDir := x\<rparr>) (decodeString v (ckDir c))
      else if f = ''installHint'' then map_option (\<lambda>x. c\<lparr>ckInstallHint := x\<rparr>) (decodeString v (ckInstallHint c))
      else if f = ''probe'' then map_option (\<lambda>x. c\<lparr>ckProbe := x\<rparr>) (decodeString v (ckProbe c))
      else if f = ''suppress''
      then map_option (\<lambda>x. c\<lparr>ckSuppress := x\<rparr>) (decodeSlice decodeSuppression zeroSuppression v (ckSuppress c))
      else if f = ''source'' then map_option (\<lambda>x. c\<lparr>ckSource := x\<rparr>) (decodeString v (ckSource c))
      else if f = ''disabled'' then map_option (\<lambda>x. c\<lparr>ckDisabled := x\<rparr>) (decodeBool v (ckDisabled c))
      else map_option (\<lambda>x. c\<lparr>ckReason := x\<rparr>) (decodeString v (ckReason c)))"

definition zeroApp :: AppInfo where
  "zeroApp = \<lparr>apName = [], apDescription = [], apRepo = [], apTeam = [], apContact = []\<rparr>"

definition decodeApp :: "json \<Rightarrow> AppInfo \<Rightarrow> AppInfo option" where
  "decodeApp = decodeStruct [''name'', ''description'', ''repo'', ''team'', ''contact''] (\<lambda>f v a.
     if f = ''name'' then map_option (\<lambda>x. a\<lparr>apName := x\<rparr>) (decodeString v (apName a))
     else if f = ''description'' then map_option (\<lambda>x. a\<lparr>apDescription := x\<rparr>) (decodeString v (apDescription a))
     else if f = ''repo'' then map_option (\<lambda>x. a\<lparr>apRepo := x\<rparr>) (decodeString v (apRepo a))
     else if f = ''team'' then map_option (\<lambda>x. a\<lparr>apTeam := x\<rparr>) (decodeString v (apTeam a))
     else map_option (\<lambda>x. a\<lparr>apContact := x\<rparr>) (decodeString v (apContact a)))"

definition zeroStandard :: Standard where
  "zeroStandard = \<lparr>stName = [], stNote = [], stFramework = []\<rparr>"

definition decodeStandard :: "json \<Rightarrow> Standard \<Rightarrow> Standard option" where
  "decodeStandard = decodeStruct [''name'', ''note'', ''framework''] (\<lambda>f v s.
     if f = ''name'' then map_option (\<lambda>x. s\<lparr>stName := x\<rparr>) (decodeString v (stName s))
     else if f = ''note'' then map_option (\<lambda>x. s\<lparr>stNote := x\<rparr>) (decodeString v (stNote s))
     else map_option (\<lambda>x. s\<lparr>stFramework := x\<rparr>) (decodeString v (stFramework s)))"

definition zeroComplianceDoc :: ComplianceDoc where
  "zeroComplianceDoc = \<lparr>cdID = [], cdTitle = [], cdPath = []\<rparr>"

definition decodeComplianceDoc :: "json \<Rightarrow> ComplianceDoc \<Rightarrow> ComplianceDoc option" where
  "decodeComplianceDoc = decodeStruct [''id'', ''title'', ''path''] (\<lambda>f v d.
     if f = ''id'' then map_option (\<lambda>x. d\<lparr>cdID := x\<rparr>) (decodeString v (cdID d))
     else if f = ''title'' then map_option (\<lambda>x. d\<lparr>cdTitle := x\<rparr>) (decodeString v (cdTitle d))
     else map_option (\<lambda>x. d\<lparr>cdPath := x\<rparr>) (decodeString v (cdPath d)))"

definition zeroReqItem :: ASVSReqItem where
  "zeroReqItem = \<lparr>aiID = [], aiName = [], aiCoverage = [], aiEvidence = []\<rparr>"

definition decodeReqItem :: "json \<Rightarrow> ASVSReqItem \<Rightarrow> ASVSReqItem option" where
  "decodeReqItem = decodeStruct [''id'', ''name'', ''coverage'', ''evidence''] (\<lambda>f v r.
     if f = ''id'' then map_option (\<lambda>x. r\<lparr>aiID := x\<rparr>) (decodeString v (aiID r))
     else if f = ''name'' then map_option (\<lambda>x. r\<lparr>aiName := x\<rparr>) (decodeString v (aiName r))
     else if f = ''coverage'' then map_option (\<lambda>x. r\<lparr>aiCoverage := x\<rparr>) (decodeString v (aiCoverage r))
     else map_option (\<lambda>x. r\<lparr>aiEvidence := x\<rparr>) (decodeString v (aiEvidence r)))"

definition zeroASVS :: ASVS where
  "zeroASVS = \<lparr>avTargetLevel = [], avNote = [], avRequirements = None\<rparr>"

definition decodeASVS :: "json \<Rightarrow> ASVS \<Rightarrow> ASVS option" where
  "decodeASVS = decodeStruct [''targetLevel'', ''note'', ''requirements''] (\<lambda>f v a.
     if f = ''targetLevel'' then map_option (\<lambda>x. a\<lparr>avTargetLevel := x\<rparr>) (decodeString v (avTargetLevel a))
     else if f = ''note'' then map_option (\<lambda>x. a\<lparr>avNote := x\<rparr>) (decodeString v (avNote a))
     else map_option (\<lambda>x. a\<lparr>avRequirements := x\<rparr>) (decodeNilSlice decodeReqItem zeroReqItem v (avRequirements a)))"

definition zeroConformance :: Conformance where
  "zeroConformance = \<lparr>cfName = [], cfSuite = [], cfStatus = [], cfSummary = [], cfLastRun = [], cfReport = []\<rparr>"

definition decodeConformance :: "json \<Rightarrow> Conformance \<Rightarrow> Conformance option" where
  "decodeConformance = decodeStruct [''name'', ''suite'', ''status'', ''summary'', ''lastRun'', ''report''] (\<lambda>f v c.
     if f = ''name'' then map_option (\<lambda>x. c\<lparr>cfName := x\<rparr>) (decodeString v (cfName c))
     else if f = ''suite'' then map_option (\<lambda>x. c\<lparr>cfSuite := x\<rparr>) (decodeString v (cfSuite c))
     else if f = ''status'' then map_option (\<lambda>x. c\<lparr>cfStatus := x\<rparr>) (decodeString v (cfStatus c))
     else if f = ''summary'' then map_option (\<lambda>x. c\<lparr>cfSummary := x\<rparr>) (decodeString v (cfSummary c))
     else if f = ''lastRun'' then map_option (\<lambda>x. c\<lparr>cfLastRun := x\<rparr>) (decodeString v (cfLastRun c))
     else map_option (\<lambda>x. c\<lparr>cfReport := x\<rparr>) (decodeString v (cfReport c)))"

definition zeroDashConfig :: DashConfig where
  "zeroDashConfig = \<lparr>dcApp = zeroApp, dcManualDoc = [], dcStandards = None, dcComplianceDocs = [], dcASVS = None,
     dcConformance = None, dcChecks = []\<rparr>"

definition setDashField :: "string \<Rightarrow> json \<Rightarrow> DashConfig \<Rightarrow> DashConfig option" where
  "setDashField f v c =
     (if f = ''app'' then map_option (\<lambda>x. c\<lparr>dcApp := x\<rparr>) (decodeApp v (dcApp c))
      else if f = ''manualDoc'' then map_option (\<lambda>x. c\<lparr>dcManualDoc := x\<rparr>) (decodeString v (dcManualDoc c))
      else if f = ''standards''
      then map_option (\<lambda>x. c\<lparr>dcStandards := x\<rparr>) (decodeNilSlice decodeStandard zeroStandard v (dcStandards c))
      else if f = ''complianceDocs''
      then map_option (\<lambda>x. c\<lparr>dcComplianceDocs := x\<rparr>) (decodeSlice decodeComplianceDoc zeroComplianceDoc v (dcComplianceDocs c))
      else if f = ''asvs'' then map_option (\<lambda>x. c\<lparr>dcASVS := x\<rparr>) (decodePtr decodeASVS zeroASVS v (dcASVS c))
      else if f = ''conformance''
      then map_option (\<lambda>x. c\<lparr>dcConformance := x\<rparr>) (decodeNilSlice decodeConformance zeroConformance v (dcConformance c))
      else map_option (\<lambda>x. c\<lparr>dcChecks := x\<rparr>)
             (decodeSlice (decodeStruct checkFields setCheckField) zeroCheckDef v (dcChecks c)))"

definition dashFields :: "string list" where
  "dashFields = [''app'', ''manualDoc'', ''standards'', ''complianceDocs'', ''asvs'', ''conformance'', ''checks'']"

definition decodeDashConfig :: "string \<Rightarrow> DashConfig option" where
  "decodeDashConfig b =
     (case parseJson b of None \<Rightarrow> None | Some v \<Rightarrow> decodeStruct dashFields setDashField v zeroDashConfig)"

definition loadDashConfig :: "string result \<Rightarrow> DashConfig result" where
  "loadDashConfig src =
     (case src of
        Inl e \<Rightarrow> Inl (ErrWrap ''read config'' e)
      | Inr b \<Rightarrow> (case decodeDashConfig b of None \<Rightarrow> Inl (ErrWrap ''parse config'' ErrJSON) | Some cfg \<Rightarrow> Inr cfg))"

section \<open>Runs\<close>

definition boolMember :: "string \<Rightarrow> bool \<Rightarrow> (string \<times> json) list" where
  "boolMember name b = (if b then [(name, JBool True)] else [])"

definition suppressionJson :: "Suppression \<Rightarrow> json" where
  "suppressionJson s = JObj [(''rule'', JStr (spRule s)), (''path'', JStr (spPath s)), (''reason'', JStr (spReason s))]"

definition checkMembers :: "'a CheckDef_scheme \<Rightarrow> (string \<times> json) list" where
  "checkMembers c =
     [(''key'', JStr (ckKey c)), (''name'', JStr (ckName c)), (''category'', JStr (ckCategory c)), (''tool'', JStr (ckTool c)),
      (''gating'', JBool (ckGating c)), (''command'', JStr (ckCommand c)), (''parser'', JStr (ckParser c))] @
     omitEmpty ''dir'' (ckDir c) @ omitEmpty ''installHint'' (ckInstallHint c) @ omitEmpty ''probe'' (ckProbe c) @
     (if ckSuppress c = [] then [] else [(''suppress'', JArr (map suppressionJson (ckSuppress c)))]) @
     omitEmpty ''source'' (ckSource c) @ boolMember ''disabled'' (ckDisabled c) @ omitEmpty ''reason'' (ckReason c)"

definition resultMembers :: "CheckResult \<Rightarrow> (string \<times> json) list" where
  "resultMembers r =
     checkMembers r @ [(''status'', JStr (resStatus r)), (''summary'', JStr (resSummary r)),
       (''findings'', JNum (Itoa (resFindings r)))] @ omitEmpty ''reportFile'' (resReportFile r) @
     [(''durationMs'', JNum (Itoa (resDurationMs r)))]"

definition totalsJson :: "Totals \<Rightarrow> json" where
  "totalsJson t = JObj [(''Pass'', JNum (Itoa (ttPass t))), (''Fail'', JNum (Itoa (ttFail t))),
     (''Warn'', JNum (Itoa (ttWarn t))), (''Skipped'', JNum (Itoa (ttSkipped t))), (''GatingFail'', JNum (Itoa (ttGatingFail t)))]"

text \<open>A scan without an enabled check leaves the slice nil.\<close>

definition runJson :: "Run \<Rightarrow> json" where
  "runJson r = JObj [(''id'', JStr (rnID r)), (''startedAt'', JStr (rnStartedAt r)), (''gitSha'', JStr (rnGitSHA r)),
     (''gitBranch'', JStr (rnGitBranch r)), (''trigger'', JStr (rnTrigger r)),
     (''checks'', if rnChecks r = [] then JNull else JArr (map (\<lambda>c. JObj (resultMembers c)) (rnChecks r))),
     (''totals'', totalsJson (rnTotals r))]"

definition resultFields :: "string list" where
  "resultFields = checkFields @ [''status'', ''summary'', ''findings'', ''reportFile'', ''durationMs'']"

definition setResultField :: "string \<Rightarrow> json \<Rightarrow> CheckResult \<Rightarrow> CheckResult option" where
  "setResultField f v r =
     (if f = ''status'' then map_option (\<lambda>x. r\<lparr>resStatus := x\<rparr>) (decodeString v (resStatus r))
      else if f = ''summary'' then map_option (\<lambda>x. r\<lparr>resSummary := x\<rparr>) (decodeString v (resSummary r))
      else if f = ''findings'' then map_option (\<lambda>x. r\<lparr>resFindings := x\<rparr>) (decodeInt v (resFindings r))
      else if f = ''reportFile'' then map_option (\<lambda>x. r\<lparr>resReportFile := x\<rparr>) (decodeString v (resReportFile r))
      else if f = ''durationMs'' then map_option (\<lambda>x. r\<lparr>resDurationMs := x\<rparr>) (decodeInt v (resDurationMs r))
      else setCheckField f v r)"

definition zeroTotals :: Totals where
  "zeroTotals = \<lparr>ttPass = 0, ttFail = 0, ttWarn = 0, ttSkipped = 0, ttGatingFail = 0\<rparr>"

definition decodeTotals :: "json \<Rightarrow> Totals \<Rightarrow> Totals option" where
  "decodeTotals = decodeStruct [''Pass'', ''Fail'', ''Warn'', ''Skipped'', ''GatingFail''] (\<lambda>f v t.
     if f = ''Pass'' then map_option (\<lambda>x. t\<lparr>ttPass := x\<rparr>) (decodeInt v (ttPass t))
     else if f = ''Fail'' then map_option (\<lambda>x. t\<lparr>ttFail := x\<rparr>) (decodeInt v (ttFail t))
     else if f = ''Warn'' then map_option (\<lambda>x. t\<lparr>ttWarn := x\<rparr>) (decodeInt v (ttWarn t))
     else if f = ''Skipped'' then map_option (\<lambda>x. t\<lparr>ttSkipped := x\<rparr>) (decodeInt v (ttSkipped t))
     else map_option (\<lambda>x. t\<lparr>ttGatingFail := x\<rparr>) (decodeInt v (ttGatingFail t)))"

definition zeroRun :: Run where
  "zeroRun = \<lparr>rnID = [], rnStartedAt = [], rnGitSHA = [], rnGitBranch = [], rnTrigger = [], rnChecks = [], rnTotals = zeroTotals\<rparr>"

definition runFields :: "string list" where
  "runFields = [''id'', ''startedAt'', ''gitSha'', ''gitBranch'', ''trigger'', ''checks'', ''totals'']"

definition setRunField :: "string \<Rightarrow> json \<Rightarrow> Run \<Rightarrow> Run option" where
  "setRunField f v r =
     (if f = ''id'' then map_option (\<lambda>x. r\<lparr>rnID := x\<rparr>) (decodeString v (rnID r))
      else if f = ''startedAt'' then map_option (\<lambda>x. r\<lparr>rnStartedAt := x\<rparr>) (decodeString v (rnStartedAt r))
      else if f = ''gitSha'' then map_option (\<lambda>x. r\<lparr>rnGitSHA := x\<rparr>) (decodeString v (rnGitSHA r))
      else if f = ''gitBranch'' then map_option (\<lambda>x. r\<lparr>rnGitBranch := x\<rparr>) (decodeString v (rnGitBranch r))
      else if f = ''trigger'' then map_option (\<lambda>x. r\<lparr>rnTrigger := x\<rparr>) (decodeString v (rnTrigger r))
      else if f = ''checks''
      then map_option (\<lambda>x. r\<lparr>rnChecks := x\<rparr>)
             (decodeSlice (decodeStruct resultFields setResultField) (newResult zeroCheckDef) v (rnChecks r))
      else map_option (\<lambda>x. r\<lparr>rnTotals := x\<rparr>) (decodeTotals v (rnTotals r)))"

definition decodeRun :: "string \<Rightarrow> Run option" where
  "decodeRun b = (case parseJson b of None \<Rightarrow> None | Some v \<Rightarrow> decodeStruct runFields setRunField v zeroRun)"

text \<open>The run files, by name; a file that cannot be read is an error.\<close>

type_synonym runFiles = "(string \<times> string result) list"

fun putFile :: "string \<Rightarrow> string result \<Rightarrow> runFiles \<Rightarrow> runFiles" where
  "putFile n c [] = [(n, c)]"
| "putFile n c ((m, d) # fs) = (if n = m then (n, c) # fs else if n < m then (n, c) # (m, d) # fs else (m, d) # putFile n c fs)"

definition saveRun :: "fileFault \<Rightarrow> Run \<Rightarrow> runFiles \<Rightarrow> goerror option \<times> runFiles" where
  "saveRun io run files =
     (case MarshalIndent (runJson run) of
        None \<Rightarrow> (Some ErrJSON, files)
      | Some b \<Rightarrow>
          (let name = rnID run @ ''.json''; old = (case map_of files name of None \<Rightarrow> Inl (ErrOS ''not found'') | Some c \<Rightarrow> c);
               (e, new) = writeFile io (b @ [NL]) old
           in (e, case new of Inl _ \<Rightarrow> files | Inr _ \<Rightarrow> putFile name new files)))"

text \<open>Newest first.  \<open>sort.Slice\<close> promises no order for runs with one id; here they stay in the order of their files.\<close>

definition newestFirst :: "Run list \<Rightarrow> Run list" where
  "newestFirst runs = rev (sort_key rnID (rev runs))"

definition runOf :: "string \<times> string result \<Rightarrow> Run option" where
  "runOf f = (case snd f of Inl _ \<Rightarrow> None
     | Inr b \<Rightarrow> (case decodeRun b of Some r \<Rightarrow> if rnID r \<noteq> [] then Some r else None | None \<Rightarrow> None))"

text \<open>The files of the directory \<open>runs\<close>.  \<open>filepath.Glob\<close> finds them through a pattern made from the \<open>--dir\<close> argument,
  which is taken to contain none of its metacharacters.\<close>

definition loadRuns :: "runFiles \<Rightarrow> Run list" where
  "loadRuns files = newestFirst (List.map_filter runOf files)"

section \<open>The health bundle\<close>

definition nilJson :: "('a \<Rightarrow> json) \<Rightarrow> 'a list option \<Rightarrow> json" where
  "nilJson f xs = (case xs of None \<Rightarrow> JNull | Some ys \<Rightarrow> JArr (map f ys))"

definition standardJson :: "Standard \<Rightarrow> json" where
  "standardJson s = JObj ([(''name'', JStr (stName s)), (''note'', JStr (stNote s))] @ omitEmpty ''framework'' (stFramework s))"

definition conformanceJson :: "Conformance \<Rightarrow> json" where
  "conformanceJson c = JObj ([(''name'', JStr (cfName c))] @ omitEmpty ''suite'' (cfSuite c) @ [(''status'', JStr (cfStatus c))] @
     omitEmpty ''summary'' (cfSummary c) @ omitEmpty ''lastRun'' (cfLastRun c) @ omitEmpty ''report'' (cfReport c))"

definition reqItemJson :: "ASVSReqItem \<Rightarrow> json" where
  "reqItemJson r = JObj [(''id'', JStr (aiID r)), (''name'', JStr (aiName r)), (''coverage'', JStr (aiCoverage r)),
     (''evidence'', JStr (aiEvidence r))]"

text \<open>The maps are printed in the order of their keys.\<close>

definition complianceJson :: "DashConfig \<Rightarrow> json" where
  "complianceJson cfg =
     (let conformance = (''conformance'', nilJson conformanceJson (dcConformance cfg));
          standards = (''standards'', nilJson standardJson (dcStandards cfg))
      in case dcASVS cfg of
           None \<Rightarrow> JObj [conformance, standards]
         | Some a \<Rightarrow> JObj [(''asvsLevel'', JStr (avTargetLevel a)), conformance, (''note'', JStr (avNote a)),
             (''requirements'', nilJson reqItemJson (avRequirements a)), standards])"

definition buildBundle :: "string \<Rightarrow> DashConfig \<Rightarrow> runFiles \<Rightarrow> string result" where
  "buildBundle dir cfg files =
     (case loadRuns files of
        [] \<Rightarrow> Inl (ErrMsg (''no runs found in '' @ dir @ ''/runs '' @ emDash @ '' run `scan` first''))
      | latest # _ \<Rightarrow>
          (case MarshalIndent (JObj
                  [(''app'', JObj [(''description'', JStr (apDescription (dcApp cfg))), (''name'', JStr (apName (dcApp cfg)))]),
                   (''compliance'', complianceJson cfg), (''security'', runJson latest)]) of
             None \<Rightarrow> Inl ErrJSON
           | Some b \<Rightarrow> Inr b))"

section \<open>A saved run loads back\<close>

lemma matchField_result:
  "matchField resultFields ''key'' = Some ''key''" "matchField resultFields ''name'' = Some ''name''"
  "matchField resultFields ''category'' = Some ''category''" "matchField resultFields ''tool'' = Some ''tool''"
  "matchField resultFields ''gating'' = Some ''gating''" "matchField resultFields ''command'' = Some ''command''"
  "matchField resultFields ''parser'' = Some ''parser''" "matchField resultFields ''dir'' = Some ''dir''"
  "matchField resultFields ''installHint'' = Some ''installHint''" "matchField resultFields ''probe'' = Some ''probe''"
  "matchField resultFields ''suppress'' = Some ''suppress''" "matchField resultFields ''source'' = Some ''source''"
  "matchField resultFields ''disabled'' = Some ''disabled''" "matchField resultFields ''reason'' = Some ''reason''"
  "matchField resultFields ''status'' = Some ''status''" "matchField resultFields ''summary'' = Some ''summary''"
  "matchField resultFields ''findings'' = Some ''findings''" "matchField resultFields ''reportFile'' = Some ''reportFile''"
  "matchField resultFields ''durationMs'' = Some ''durationMs''"
  by (simp_all add: matchField_def resultFields_def checkFields_def)

lemma matchField_run:
  "matchField runFields ''id'' = Some ''id''" "matchField runFields ''startedAt'' = Some ''startedAt''"
  "matchField runFields ''gitSha'' = Some ''gitSha''" "matchField runFields ''gitBranch'' = Some ''gitBranch''"
  "matchField runFields ''trigger'' = Some ''trigger''" "matchField runFields ''checks'' = Some ''checks''"
  "matchField runFields ''totals'' = Some ''totals''"
  by (simp_all add: matchField_def runFields_def)

definition okSuppression :: "Suppression \<Rightarrow> bool" where
  "okSuppression s \<longleftrightarrow> validUtf8 (spRule s) \<and> validUtf8 (spPath s) \<and> validUtf8 (spReason s)"

definition okCheck :: "'a CheckDef_scheme \<Rightarrow> bool" where
  "okCheck c \<longleftrightarrow> list_all validUtf8 [ckKey c, ckName c, ckCategory c, ckTool c, ckCommand c, ckParser c, ckDir c,
     ckInstallHint c, ckProbe c, ckSource c, ckReason c] \<and>
     list_all okSuppression (ckSuppress c)"

definition okResult :: "CheckResult \<Rightarrow> bool" where
  "okResult r \<longleftrightarrow> okCheck r \<and> validUtf8 (resStatus r) \<and> validUtf8 (resSummary r) \<and> validUtf8 (resReportFile r) \<and>
     int64 (resFindings r) \<and> int64 (resDurationMs r)"

definition okTotals :: "Totals \<Rightarrow> bool" where
  "okTotals t \<longleftrightarrow> list_all int64 [ttPass t, ttFail t, ttWarn t, ttSkipped t, ttGatingFail t]"

definition okRun :: "Run \<Rightarrow> bool" where
  "okRun r \<longleftrightarrow> list_all validUtf8 [rnID r, rnStartedAt r, rnGitSHA r, rnGitBranch r, rnTrigger r] \<and>
     list_all okResult (rnChecks r) \<and> okTotals (rnTotals r)"

lemma decode_suppressions:
  "decodeElems decodeSuppression zeroSuppression (map suppressionJson ss) [] = Some ss"
  by (rule decodeElems_map)
    (simp add: decodeSuppression_def suppressionJson_def zeroSuppression_def matchField_def)

lemma decode_resultMembers:
  assumes "okResult r"
  shows "decodeStruct resultFields setResultField (JObj (resultMembers r)) (newResult zeroCheckDef) = Some r"
  using assms
  by (cases r)
    (simp add: resultMembers_def checkMembers_def omitEmpty_def boolMember_def okResult_def matchField_result
      setResultField_def setCheckField_def newResult_def zeroCheckDef_def CheckDef.extend_def ParseInt_Itoa decode_suppressions)

lemma decode_totals: "okTotals t \<Longrightarrow> decodeTotals (totalsJson t) zeroTotals = Some t"
  by (cases t) (simp add: decodeTotals_def totalsJson_def zeroTotals_def okTotals_def matchField_def ParseInt_Itoa)

lemma decode_runJson:
  assumes "okRun r"
  shows "decodeStruct runFields setRunField (runJson r) zeroRun = Some r"
proof -
  have "decodeElems (decodeStruct resultFields setResultField) (newResult zeroCheckDef)
      (map (\<lambda>c. JObj (resultMembers c)) (rnChecks r)) [] = Some (rnChecks r)"
    using assms by (intro decodeElems_map) (simp add: okRun_def list_all_iff decode_resultMembers del: decodeStruct.simps)
  then show ?thesis
    using assms decode_totals [of "rnTotals r"]
    by (cases r) (simp add: runJson_def okRun_def matchField_run setRunField_def zeroRun_def)
qed

lemma okDoc_resultMembers: "okResult r \<Longrightarrow> okDocMembers (resultMembers r)"
  by (simp add: resultMembers_def checkMembers_def omitEmpty_def boolMember_def okResult_def okCheck_def okDocs_map
      list_all_iff okSuppression_def suppressionJson_def isNumLit_Itoa byteVal_def validUtf8_all_ASCII)

lemma jdepth_resultMembers: "jdepthMembers (resultMembers r) \<le> 2"
proof -
  have "jdepths (map suppressionJson (ckSuppress r)) \<le> 1" by (rule jdepths_map) (simp add: suppressionJson_def)
  then show ?thesis by (simp add: resultMembers_def checkMembers_def omitEmpty_def boolMember_def)
qed

lemma okDoc_runJson: "okRun r \<Longrightarrow> okDoc (runJson r)"
  by (simp add: runJson_def totalsJson_def okRun_def okDocs_map list_all_iff okDoc_resultMembers isNumLit_Itoa
      byteVal_def validUtf8_all_ASCII)

lemma jdepth_runJson: "jdepth (runJson r) \<le> maxNestingDepth"
proof -
  have "jdepths (map (\<lambda>c. JObj (resultMembers c)) (rnChecks r)) \<le> 3"
    using jdepth_resultMembers by (intro jdepths_map) simp
  then show ?thesis by (simp add: runJson_def totalsJson_def maxNestingDepth_def)
qed

lemma decodeRun_print:
  assumes "okRun r" "MarshalIndent (runJson r) = Some b"
  shows "decodeRun (b @ [NL]) = Some r"
  using parseJson_MarshalIndent [OF okDoc_runJson [OF assms(1)] jdepth_runJson assms(2)] decode_runJson [OF assms(1)]
  by (simp add: decodeRun_def)

lemma set_map_filter: "y \<in> set (List.map_filter f xs) \<longleftrightarrow> (\<exists>x\<in>set xs. f x = Some y)"
  by (auto simp: List.map_filter_def image_iff)

lemma set_loadRuns: "r \<in> set (loadRuns files) \<longleftrightarrow> (\<exists>f\<in>set files. runOf f = Some r)"
  by (simp add: loadRuns_def newestFirst_def set_map_filter)

lemma newestFirst_sorted: "sorted_wrt (\<lambda>a b. rnID b \<le> rnID a) (newestFirst runs)"
  unfolding newestFirst_def sorted_wrt_rev
  using sorted_sort_key [of rnID "rev runs"] by (simp add: sorted_map)

lemma set_putFile:
  "(n, c) \<in> set (putFile n c fs)" "f \<in> set (putFile n c fs) \<Longrightarrow> f = (n, c) \<or> f \<in> set fs"
  by (induction n c fs rule: putFile.induct) (auto split: if_splits)

lemma loadRuns_head:
  assumes "r \<in> set (loadRuns files)" and "\<And>q. q \<in> set (loadRuns files) \<Longrightarrow> q = r \<or> rnID q < rnID r"
  shows "\<exists>rest. loadRuns files = r # rest"
proof (cases "loadRuns files")
  case (Cons q rest)
  then have "\<forall>x\<in>set rest. rnID x \<le> rnID q" using newestFirst_sorted [of "List.map_filter runOf files"]
    by (simp add: loadRuns_def)
  with assms Cons show ?thesis by fastforce
qed (use assms in simp)

lemma saveRun_loads:
  assumes "saveRun NoFault r files = (None, files')" and "okRun r" and "rnID r \<noteq> []"
  shows "(rnID r @ ''.json'', Inr (the (MarshalIndent (runJson r)) @ [NL])) \<in> set files' \<and> r \<in> set (loadRuns files') \<and>
    (\<forall>q\<in>set (loadRuns files'). q = r \<or> q \<in> set (loadRuns files))"
proof -
  obtain b where b: "MarshalIndent (runJson r) = Some b" "files' = putFile (rnID r @ ''.json'') (Inr (b @ [NL])) files"
    using assms(1) by (auto simp: saveRun_def split: option.splits)
  let ?f = "(rnID r @ ''.json'', Inr (b @ [NL])) :: string \<times> string result"
  have f: "runOf ?f = Some r" using decodeRun_print [OF assms(2) b(1)] assms(3) by (simp add: runOf_def)
  have in': "?f \<in> set files'" unfolding b(2) by (rule set_putFile)
  moreover have "q = r \<or> q \<in> set (loadRuns files)" if "q \<in> set (loadRuns files')" for q
    using that f unfolding set_loadRuns b(2) by (auto dest!: set_putFile(2))
  moreover have "r \<in> set (loadRuns files')" using in' f unfolding set_loadRuns by blast
  ultimately show ?thesis using b(1) by auto
qed

end
