(* ===== verification/Dashboard_Render.thy ===== *)
theory Dashboard_Render
  imports Dashboard_Manifest
begin

text \<open>
  \<open>cmd/security-dashboard/render.go\<close> and \<open>badge.go\<close>: the view the page is made from, the headline posture and the
  badge.  What \<open>html/template\<close> makes of a view with the page text of \<open>template.go\<close> is the parameter \<open>page\<close>.
\<close>

section \<open>Posture and badge\<close>

definition posture :: "Run \<Rightarrow> string \<times> string \<times> string" where
  "posture r =
     (let t = rnTotals r in
      if 0 < ttGatingFail t then (''red'', ''Action required'', plural (ttGatingFail t) ''gating check failing'' ''gating checks failing'')
      else if 0 < ttFail t then (''amber'', ''Passing with issues'', plural (ttFail t) ''non-gating failure'' ''non-gating failures'')
      else if 0 < ttWarn t \<or> 0 < ttSkipped t
      then (''amber'', ''Passing with advisories'', ''advisories and/or checks awaiting enablement'')
      else (''green'', ''All checks passing'', ''every configured check is green''))"

definition textWidth :: "string \<Rightarrow> int" where
  "textWidth s = sum_list (map (\<lambda>c.
     if c \<in> set ''ilj. '' then 3 else if c = CHR ''m'' \<or> c = CHR ''w'' then 9 else 7) s)"

definition escapeHTML :: "string \<Rightarrow> string" where
  "escapeHTML s = concat (map (\<lambda>c.
     if c = CHR ''&'' then ''&amp;'' else if c = CHR ''<'' then ''&lt;'' else if c = CHR ''>'' then ''&gt;''
     else if c = CHR 0x22 then ''&#34;'' else if c = CHR 0x27 then ''&#39;'' else [c]) s)"

definition badgeMessage :: "Run option \<Rightarrow> string \<times> string" where
  "badgeMessage latest =
     (case latest of
        None \<Rightarrow> (''no scans'', ''#6a737d'')
      | Some r \<Rightarrow>
          (let code = fst (posture r) in
           if code = ''green'' then (''passing'', ''#2ea44f'')
           else if code = ''amber'' then (Itoa (ttWarn (rnTotals r) + ttFail (rnTotals r)) @ '' advisories'', ''#dbab09'')
           else if code = ''red'' then (''action required'', ''#d73a49'')
           else (''no scans'', ''#6a737d'')))"

definition badgeLabel :: string where
  "badgeLabel = ''security & quality''"

definition badgeSVG :: "Run option \<Rightarrow> string" where
\<open>badgeSVG latest =
     (let (msg0, color) = badgeMessage latest;
          lw = textWidth badgeLabel + 20; mw = textWidth msg0 + 20; w = lw + mw;
          label = escapeHTML badgeLabel; msg = escapeHTML msg0; title = label @ '': '' @ msg
      in Join [
        ''<svg xmlns="http://www.w3.org/2000/svg" width="'' @ Itoa w @ ''" height="20" role="img" aria-label="'' @ title @ ''">'',
        ''  <title>'' @ title @ ''</title>'',
        ''  <linearGradient id="s" x2="0" y2="100%"><stop offset="0" stop-color="#bbb" stop-opacity=".1"/><stop offset="1" stop-opacity=".1"/></linearGradient>'',
        ''  <clipPath id="r"><rect width="'' @ Itoa w @ ''" height="20" rx="3" fill="#fff"/></clipPath>'',
        ''  <g clip-path="url(#r)">'',
        ''    <rect width="'' @ Itoa lw @ ''" height="20" fill="#555"/>'',
        ''    <rect x="'' @ Itoa lw @ ''" width="'' @ Itoa mw @ ''" height="20" fill="'' @ color @ ''"/>'',
        ''    <rect width="'' @ Itoa w @ ''" height="20" fill="url(#s)"/>'',
        ''  </g>'',
        ''  <g fill="#fff" text-anchor="middle" font-family="Verdana,Geneva,DejaVu Sans,sans-serif" font-size="11">'',
        ''    <text x="'' @ Itoa (lw div 2) @ ''" y="15" fill="#010101" fill-opacity=".3">'' @ label @ ''</text>'',
        ''    <text x="'' @ Itoa (lw div 2) @ ''" y="14">'' @ label @ ''</text>'',
        ''    <text x="'' @ Itoa (lw + mw div 2) @ ''" y="15" fill="#010101" fill-opacity=".3">'' @ msg @ ''</text>'',
        ''    <text x="'' @ Itoa (lw + mw div 2) @ ''" y="14">'' @ msg @ ''</text>'',
        ''  </g>'',
        ''</svg>''] [NL] @ [NL])\<close>

section \<open>Groups\<close>

definition firstOccurrences :: "'a list \<Rightarrow> 'a list" where
  "firstOccurrences xs = rev (remdups (rev xs))"

definition groupByCategory :: "CheckResult list \<Rightarrow> (string \<times> CheckResult list) list" where
  "groupByCategory checks =
     map (\<lambda>n. (n, filter (\<lambda>c. ckCategory c = n) checks)) (sort (firstOccurrences (map ckCategory checks)))"

definition cadenceOrder :: "string list" where
  "cadenceOrder = [''Every release'', ''Every PR'', ''Quarterly'', ''Quarterly + on federation changes'']"

definition groupTasks :: "unicode \<Rightarrow> Task list \<Rightarrow> int \<Rightarrow> (string \<times> taskView list) list" where
  "groupTasks uc tasks now =
     (let cadences = map tkCadence tasks;
          extra = filter (\<lambda>c. c \<notin> set cadenceOrder) (firstOccurrences cadences)
      in map (\<lambda>c. (c, map (\<lambda>t. taskStatus uc t now) (filter (\<lambda>t. tkCadence t = c) tasks)))
           (filter (\<lambda>c. c \<in> set cadences) (cadenceOrder @ extra)))"

definition trendRuns :: "Run list \<Rightarrow> nat \<Rightarrow> Run list" where
  "trendRuns runs n = rev (take n runs)"

definition relFromSecurity :: "string \<Rightarrow> string" where
  "relFromSecurity p = (if p = [] then [] else ''../'' @ p)"

definition statusToClass :: "string \<Rightarrow> string" where
  "statusToClass s =
     (if s = ''pass'' then ''ok'' else if s = ''fail'' \<or> s = ''error'' then ''bad''
      else if s = ''warn'' then ''warn'' else ''muted'')"

definition StatusLabel :: "CheckResult \<Rightarrow> string" where
  "StatusLabel c =
     (let s = resStatus c in
      if s = ''pass'' then ''Pass'' else if s = ''fail'' \<or> s = ''error'' then ''Fail''
      else if s = ''warn'' then ''Advisory'' else if s = ''skipped'' then ''Not run'' else s)"

section \<open>The page\<close>

record frameworkRow =
  fwID :: string
  fwTitle :: string
  fwHref :: string
  fwMapped :: bool

record view =
  vwCfg :: DashConfig
  vwLatest :: "Run option"
  vwCategories :: "(string \<times> CheckResult list) list"
  vwHistory :: "Run list"
  vwTrend :: "Run list"
  vwTasks :: "Task list"
  vwTaskGroups :: "(string \<times> taskView list) list"
  vwTaskSummary :: taskSummary
  vwPosture :: string
  vwPostureLabel :: string
  vwPostureNote :: string
  vwGeneratedAt :: string
  vwManualHref :: string
  vwFrameworks :: "frameworkRow list"

definition isMapped :: "unicode \<Rightarrow> Standard list \<Rightarrow> ComplianceDoc \<Rightarrow> bool" where
  "isMapped uc standards d \<longleftrightarrow> list_ex (\<lambda>st. stFramework st = cdID d \<or> EqualFold uc (stName st) (cdTitle d)) standards"

definition standardsOf :: "DashConfig \<Rightarrow> Standard list" where
  "standardsOf cfg = (case dcStandards cfg of None \<Rightarrow> [] | Some ss \<Rightarrow> ss)"

definition makeView :: "unicode \<Rightarrow> int \<Rightarrow> string \<Rightarrow> DashConfig \<Rightarrow> Run list \<Rightarrow> Task list \<Rightarrow> view" where
  "makeView uc now generatedAt cfg runs tasks =
     (let latest = (case runs of [] \<Rightarrow> None | r # _ \<Rightarrow> Some r);
          (code, label, note) =
            (case latest of
               None \<Rightarrow> (''none'', ''No scans yet'', ''Run: go run ./cmd/security-dashboard scan'')
             | Some r \<Rightarrow> posture r)
      in \<lparr>vwCfg = cfg, vwLatest = latest,
          vwCategories = (case latest of None \<Rightarrow> [] | Some r \<Rightarrow> groupByCategory (rnChecks r)),
          vwHistory = runs, vwTrend = trendRuns runs 14, vwTasks = tasks,
          vwTaskGroups = groupTasks uc tasks now, vwTaskSummary = summarizeTasks uc tasks now,
          vwPosture = code, vwPostureLabel = label, vwPostureNote = note,
          vwGeneratedAt = generatedAt, vwManualHref = relFromSecurity (dcManualDoc cfg),
          vwFrameworks = map (\<lambda>d. \<lparr>fwID = cdID d, fwTitle = cdTitle d, fwHref = relFromSecurity (cdPath d),
            fwMapped = isMapped uc (standardsOf cfg) d\<rparr>) (dcComplianceDocs cfg)\<rparr>)"

text \<open>The files of the \<open>security/\<close> directory: what reading each of them gives.\<close>

record DashDir =
  ddConfig :: "string result"
  ddTasks :: "string result"
  ddRuns :: runFiles
  ddReports :: "(string \<times> string) list"
  ddBadge :: "string result"
  ddPage :: "string result"

record renderFaults =
  rfBadge :: fileFault
  rfPage :: fileFault

definition writeBadge :: "fileFault \<Rightarrow> Run option \<Rightarrow> DashDir \<Rightarrow> goerror option \<times> DashDir" where
  "writeBadge io latest d = (let (e, c) = writeFile io (badgeSVG latest) (ddBadge d) in (e, d\<lparr>ddBadge := c\<rparr>))"

text \<open>A fault of the page is a failing \<open>os.Create\<close>, or a failing \<open>Execute\<close> or \<open>Close\<close> after some bytes.\<close>

definition render :: "unicode \<Rightarrow> (view \<Rightarrow> string) \<Rightarrow> renderFaults \<Rightarrow> int \<Rightarrow> string \<Rightarrow> DashConfig \<Rightarrow> DashDir
    \<Rightarrow> goerror option \<times> DashDir" where
  "render uc page io now generatedAt cfg d =
     (let v = makeView uc now generatedAt cfg (loadRuns (ddRuns d)) (loadTasks (ddTasks d)) in
      case writeBadge (rfBadge io) (vwLatest v) d of
        (Some e, d1) \<Rightarrow> (Some e, d1)
      | (None, d1) \<Rightarrow>
          (let (e, c) = writeFile (rfPage io) (page v) (ddPage d1) in (e, d1\<lparr>ddPage := c\<rparr>)))"

section \<open>The groups lose and repeat nothing\<close>

lemma set_firstOccurrences [simp]: "set (firstOccurrences xs) = set xs"
  by (simp add: firstOccurrences_def)

lemma distinct_firstOccurrences [simp]: "distinct (firstOccurrences xs)"
  by (simp add: firstOccurrences_def)

lemma groupByCategory_names:
  "sorted (map fst (groupByCategory checks)) \<and> distinct (map fst (groupByCategory checks))"
  by (simp add: groupByCategory_def o_def)

lemma groupByCategory_member:
  "(n, cs) \<in> set (groupByCategory checks) \<longleftrightarrow> cs = filter (\<lambda>c. ckCategory c = n) checks \<and> cs \<noteq> []"
  by (auto simp: groupByCategory_def filter_empty_conv)

lemma groupTasks_member:
  "(c, vs) \<in> set (groupTasks uc tasks now) \<longleftrightarrow>
     vs = map (\<lambda>t. taskStatus uc t now) (filter (\<lambda>t. tkCadence t = c) tasks) \<and> vs \<noteq> []"
  by (auto simp: groupTasks_def Let_def filter_empty_conv image_iff)

text \<open>The posture of a scan follows from the statuses of its checks.\<close>

lemma count_pos: "0 < int (length (filter P xs)) \<longleftrightarrow> (\<exists>x\<in>set xs. P x)"
  by (auto simp: filter_empty_conv)

lemma posture_tally:
  assumes "rnTotals r = tally (rnChecks r)"
  shows "fst (posture r) = ''red'' \<longleftrightarrow> (\<exists>c\<in>set (rnChecks r). (resStatus c = ''fail'' \<or> resStatus c = ''error'') \<and> ckGating c)"
    and "fst (posture r) = ''green'' \<longleftrightarrow>
      (\<forall>c\<in>set (rnChecks r). resStatus c \<notin> {''fail'', ''error'', ''warn'', ''skipped''})"
  unfolding posture_def Let_def assms tally_counts count_pos by auto

end
