(* ===== verification/Go_Quote.thy ===== *)
theory Go_Quote
  imports Go_JsonNested
begin

text \<open>
  \<open>strconv.Quote\<close>, the verb \<open>%q\<close> of package \<open>fmt\<close>.  Which runes outside ASCII are printable is the parameter \<open>pr\<close>.
  On printable ASCII its result is a JSON string; the Go escapes \<open>\a\<close>, \<open>\v\<close>, \<open>\x\<close> and \<open>\U\<close> are not JSON.
\<close>

section \<open>Quoting\<close>

text \<open>The rune at the start of a string that begins with a valid sequence.\<close>

definition decodeRune :: "string \<Rightarrow> nat" where
  "decodeRune s =
     (case map byteVal (take (utf8Size s) s) of
        [a] \<Rightarrow> a
      | [a, b] \<Rightarrow> (a - 192) * 64 + (b - 128)
      | [a, b, c] \<Rightarrow> (a - 224) * 4096 + (b - 128) * 64 + (c - 128)
      | [a, b, c, d] \<Rightarrow> (a - 240) * 262144 + (b - 128) * 4096 + (c - 128) * 64 + (d - 128)
      | _ \<Rightarrow> 65533)"

definition quoteByte :: "char \<Rightarrow> string" where
  "quoteByte c =
     (if c = CHR 0x22 \<or> c = CHR 0x5C then [CHR 0x5C, c]
      else if 32 \<le> byteVal c \<and> byteVal c < 127 then [c]
      else CHR 0x5C #
        (if c = CHR 0x07 then ''a''
         else if c = CHR 0x08 then ''b''
         else if c = CHR 0x0C then ''f''
         else if c = CHR 0x0A then ''n''
         else if c = CHR 0x0D then ''r''
         else if c = CHR 0x09 then ''t''
         else if c = CHR 0x0B then ''v''
         else ''x'' @ hexByte (byteVal c)))"

function quoteBody :: "(nat \<Rightarrow> bool) \<Rightarrow> string \<Rightarrow> string" where
  "quoteBody pr s = (case s of
      [] \<Rightarrow> []
    | c # t \<Rightarrow>
        if byteVal c < 128 then quoteByte c @ quoteBody pr t
        else if utf8Size s = 0 then CHR 0x5C # ''x'' @ hexByte (byteVal c) @ quoteBody pr t
        else
          (let r = decodeRune s in
           if pr r then take (utf8Size s) s
           else if r < 65536 then CHR 0x5C # ''u'' @ hex4 r
           else CHR 0x5C # ''U'' @ hex4 (r div 65536) @ hex4 (r mod 65536)) @ quoteBody pr (drop (utf8Size s) s))"
  by pat_completeness auto
termination
  by (relation "measure (length \<circ> snd)") auto

declare quoteBody.simps [simp del]

definition goQuote :: "(nat \<Rightarrow> bool) \<Rightarrow> string \<Rightarrow> string" where
  "goQuote pr s = CHR 0x22 # quoteBody pr s @ [CHR 0x22]"

section \<open>Printable ASCII\<close>

definition plainText :: "string \<Rightarrow> bool" where
  "plainText s \<longleftrightarrow> list_all (\<lambda>c. 32 \<le> byteVal c \<and> byteVal c < 127) s"

lemma decodeStr_quoteByte:
  assumes "32 \<le> byteVal c" "byteVal c < 127"
  shows "decodeStr (quoteByte c @ r) = prepend [c] (decodeStr r)"
proof (cases "c = CHR 0x22 \<or> c = CHR 0x5C")
  case True
  then show ?thesis by (elim disjE) (simp_all add: quoteByte_def decodeStr_escape decodeEscape_def)
next
  case False
  then show ?thesis using assms decodeStr_raw [of c "[]" r] by (simp add: quoteByte_def)
qed

lemma decodeStr_goQuote:
  assumes "plainText s"
  shows "decodeStr (quoteBody pr s @ CHR 0x22 # r) = Some (s, r)"
  using assms
proof (induction s)
  case Nil
  then show ?case by (simp add: quoteBody.simps)
next
  case (Cons c s)
  then show ?case by (simp add: plainText_def quoteBody.simps [of pr "c # s"] decodeStr_quoteByte)
qed

text \<open>The delete byte is not printable, and what stands for it is no JSON string.\<close>

lemma delete_quote_no_json: "decodeStr (quoteBody pr (CHR 0x7F # s) @ r) = None"
  by (simp add: quoteBody.simps [of pr "CHR 0x7F # s"] quoteByte_def byteVal_def decodeStr_escape decodeEscape_def)

end
