(* ===== verification/Dashboard_Init.thy ===== *)
theory Dashboard_Init
  imports Dashboard_Render Go_Quote
begin

text \<open>
  \<open>cmd/security-dashboard/init.go\<close>: stack detection, the proposed checks, the audit and the merge into
  \<open>config.json\<close>.  The project tree, reading and testing its files, git, \<open>exec.LookPath\<close> and the table of printable
  runes are parameters.  The names of the members are printed with \<open>%q\<close>, as the code does.  Their values are
  handled as the documents they hold: \<open>json.Indent\<close> keeps the escapes of the strings a value was written with, so
  the text of a value is that of the model up to those escapes.
\<close>

section \<open>Detection\<close>

text \<open>A directory that cannot be read has no entries; a symbolic link is a file.\<close>

datatype fsEntry = FileEntry string | DirEntry string "fsEntry list"

record InitEnv =
  ieTree :: "fsEntry list"
  ieRead :: "string \<Rightarrow> string result"
  ieStat :: "string \<Rightarrow> bool"
  ieIsDir :: "string \<Rightarrow> bool"
  ieLookPath :: "string \<Rightarrow> bool"
  ieRemote :: "string option"
  ieAbsBase :: "string option"
  ieDocs :: "(string \<times> string result) list"
  ieRel :: "string \<Rightarrow> string option"
  ieTasksMissing :: bool
  ieMkdir :: "string option"
  ieIsPrint :: "nat \<Rightarrow> bool"

record nodeProject =
  npDir :: string
  npPm :: string

record stack =
  skGoMod :: bool
  skNode :: "nodeProject list"
  skPython :: bool
  skPhp :: bool
  skRuby :: bool
  skRust :: bool
  skJvm :: bool
  skDocker :: bool
  skTerraform :: bool
  skManualDoc :: string
  skAppName :: string
  skRepo :: string

definition zeroStack :: stack where
  "zeroStack = \<lparr>skGoMod = False, skNode = [], skPython = False, skPhp = False, skRuby = False, skRust = False, skJvm = False,
     skDocker = False, skTerraform = False, skManualDoc = [], skAppName = [], skRepo = []\<rparr>"

definition stackSummary :: "stack \<Rightarrow> string list" where
  "stackSummary s =
     (let out = (if skGoMod s then [''Go module (go.mod)''] else []) @
            map (\<lambda>n. ''Node project at '' @ (if npDir n = [] then ''.'' else npDir n) @ '' ('' @ npPm n @ '')'') (skNode s) @
            map snd (filter fst [(skPython s, ''Python project''), (skPhp s, ''PHP project (composer)''),
              (skRuby s, ''Ruby project (Gemfile)''), (skRust s, ''Rust crate (Cargo.toml)''),
              (skJvm s, ''JVM project (maven/gradle)''), (skDocker s, ''Dockerfile''), (skTerraform s, ''Terraform'')])
      in if out = [] then [''no language stack recognised '' @ emDash @ '' only universal checks apply''] else out)"

definition skipDirs :: "string list" where
  "skipDirs = [''node_modules'', ''vendor'', ''dist'', ''build'', ''out'', ''target'', ''coverage'', ''__pycache__'', ''venv'',
     ''.venv'', ''tmp'', ''testdata'']"

definition joinRel :: "string \<Rightarrow> string \<Rightarrow> string" where
  "joinRel d n = (if d = [] then n else d @ ''/'' @ n)"

text \<open>The files \<open>filepath.WalkDir\<close> hands over, with their directory relative to the root.\<close>

fun walkFiles :: "string \<Rightarrow> fsEntry list \<Rightarrow> (string \<times> string) list" where
  "walkFiles d [] = []"
| "walkFiles d (FileEntry n # es) = (d, n) # walkFiles d es"
| "walkFiles d (DirEntry n cs # es) =
     (if n \<in> set skipDirs \<or> HasPrefix n ''.'' then [] else walkFiles (joinRel d n) cs) @ walkFiles d es"

fun splitOn :: "char \<Rightarrow> string \<Rightarrow> string list" where
  "splitOn sep [] = [[]]"
| "splitOn sep (c # s) =
     (if c = sep then [] # splitOn sep s
      else (case splitOn sep s of [] \<Rightarrow> [[c]] | w # ws \<Rightarrow> (c # w) # ws))"

definition CutPrefix :: "string \<Rightarrow> string \<Rightarrow> string option" where
  "CutPrefix s p = (if HasPrefix s p then Some (TrimPrefix s p) else None)"

definition moduleName :: "string result \<Rightarrow> string" where
  "moduleName b =
     (case b of
        Inl _ \<Rightarrow> []
      | Inr t \<Rightarrow>
          (case List.map_filter (\<lambda>line. CutPrefix (TrimSpace line) ''module '') (splitOn NL t) of
             [] \<Rightarrow> []
           | rest # _ \<Rightarrow> last (splitOn CHR ''/'' (TrimSpace rest))))"

definition packageManager :: "InitEnv \<Rightarrow> string \<Rightarrow> string" where
  "packageManager env dir =
     (case List.find (\<lambda>(lockfile, pm). ieStat env (joinRel dir lockfile))
             [(''pnpm-lock.yaml'', ''pnpm''), (''yarn.lock'', ''yarn''), (''package-lock.json'', ''npm'')] of
        Some (_, pm) \<Rightarrow> pm
      | None \<Rightarrow> ''npm'')"

definition jsonField :: "string result \<Rightarrow> string \<Rightarrow> string" where
  "jsonField b field =
     (case b of
        Inl _ \<Rightarrow> []
      | Inr t \<Rightarrow>
          (case parseJson t of
             Some (JObj kvs) \<Rightarrow>
               (case putAll [] kvs of
                  Some m \<Rightarrow> (case mapGet m field of Some (JStr s) \<Rightarrow> s | _ \<Rightarrow> [])
                | None \<Rightarrow> [])
           | _ \<Rightarrow> []))"

definition visitFile :: "InitEnv \<Rightarrow> string \<times> string \<Rightarrow> stack \<Rightarrow> stack" where
  "visitFile env f s0 =
     (let (relDir, name) = f;
          s1 = (if name = ''go.mod'' then
                  (let s = s0\<lparr>skGoMod := True\<rparr> in
                   if relDir = [] \<and> skAppName s = [] then s\<lparr>skAppName := moduleName (ieRead env ''go.mod'')\<rparr> else s)
                else if name = ''package.json'' then
                  (if relDir \<in> npDir ` set (skNode s0) then s0
                   else s0\<lparr>skNode := skNode s0 @ [\<lparr>npDir = relDir, npPm = packageManager env relDir\<rparr>]\<rparr>)
                else if name \<in> {''pyproject.toml'', ''requirements.txt'', ''Pipfile''} then s0\<lparr>skPython := True\<rparr>
                else if name = ''composer.json'' then s0\<lparr>skPhp := True\<rparr>
                else if name = ''Gemfile'' then s0\<lparr>skRuby := True\<rparr>
                else if name = ''Cargo.toml'' then s0\<lparr>skRust := True\<rparr>
                else if name \<in> {''pom.xml'', ''build.gradle'', ''build.gradle.kts''} then s0\<lparr>skJvm := True\<rparr>
                else s0);
          s2 = (if HasPrefix name ''Dockerfile'' then s1\<lparr>skDocker := True\<rparr> else s1)
      in if HasSuffix name ''.tf'' then s2\<lparr>skTerraform := True\<rparr> else s2)"

definition detectStack :: "InitEnv \<Rightarrow> stack" where
  "detectStack env =
     (let s0 = fold (visitFile env) (walkFiles [] (ieTree env)) zeroStack;
          s1 = s0\<lparr>skNode := sort_key npDir (skNode s0),
                  skManualDoc := (case List.find (ieStat env)
                      [''docs/security-testing-manual.md'', ''docs/security.md'', ''SECURITY.md''] of None \<Rightarrow> [] | Some p \<Rightarrow> p)\<rparr>;
          s2 = (if skAppName s1 = [] \<and> [] \<in> npDir ` set (skNode s1)
                then s1\<lparr>skAppName := jsonField (ieRead env ''package.json'') ''name''\<rparr> else s1);
          s3 = (if skAppName s2 = [] then (case ieAbsBase env of None \<Rightarrow> s2 | Some b \<Rightarrow> s2\<lparr>skAppName := b\<rparr>) else s2)
      in s3\<lparr>skRepo := TrimSpace (gitOut (ieRemote env))\<rparr>)"

definition markdownTitle :: "string result \<Rightarrow> string \<Rightarrow> string" where
  "markdownTitle b fallback =
     (case b of
        Inl _ \<Rightarrow> fallback
      | Inr t \<Rightarrow>
          (case List.map_filter (\<lambda>line. CutPrefix (TrimSpace line) ''# '') (splitOn NL (take 4096 t)) of
             [] \<Rightarrow> fallback
           | h # _ \<Rightarrow> TrimSpace h))"

definition detectComplianceDocs :: "InitEnv \<Rightarrow> ComplianceDoc list" where
  "detectComplianceDocs env =
     map (\<lambda>(m, b). let doc = TrimSuffix (basePath m) ''.md'' in
        \<lparr>cdID = doc, cdTitle = markdownTitle b doc, cdPath = (case ieRel env m of None \<Rightarrow> m | Some rel \<Rightarrow> rel)\<rparr>)
       (sort_key fst (ieDocs env))"

section \<open>Proposals\<close>

record proposal =
  prSignal :: string
  prRequired :: bool
  prDef :: CheckDef
  prCovered :: "CheckDef \<Rightarrow> bool"

definition cmdHas :: "string \<Rightarrow> CheckDef \<Rightarrow> bool" where
  "cmdHas sub c = Contains (ckCommand c) sub"

definition parserIs :: "string \<Rightarrow> CheckDef \<Rightarrow> bool" where
  "parserIs p c \<longleftrightarrow> ckParser c = p"

definition toolOrCmd :: "string \<Rightarrow> CheckDef \<Rightarrow> bool" where
  "toolOrCmd tool c \<longleftrightarrow> ckTool c = tool \<or> Contains (ckCommand c) tool"

text \<open>A check literal: key, name, category, tool, gating, command, parser, install hint.\<close>

definition checkLit :: "string \<Rightarrow> string \<Rightarrow> string \<Rightarrow> string \<Rightarrow> bool \<Rightarrow> string \<Rightarrow> string \<Rightarrow> string \<Rightarrow> CheckDef" where
  "checkLit key name category tool gating command parser hint =
     zeroCheckDef\<lparr>ckKey := key, ckName := name, ckCategory := category, ckTool := tool, ckGating := gating,
       ckCommand := command, ckParser := parser, ckInstallHint := hint\<rparr>"

definition propose :: "string \<Rightarrow> bool \<Rightarrow> CheckDef \<Rightarrow> (CheckDef \<Rightarrow> bool) \<Rightarrow> proposal" where
  "propose signal required d covered = \<lparr>prSignal = signal, prRequired = required, prDef = d, prCovered = covered\<rparr>"

definition goProposals :: "proposal list" where
  "goProposals =
     [propose ''Go module'' True (checkLit ''build'' ''Compile'' ''Quality'' ''go'' True ''go build ./...'' ''exit'' []) (cmdHas ''go build''),
      propose ''Go module'' True (checkLit ''vet'' ''go vet'' ''Quality'' ''go'' True ''go vet ./...'' ''exit'' []) (cmdHas ''go vet''),
      propose ''Go module'' True (checkLit ''tests'' ''Test suite'' ''Quality'' ''go test'' True ''go test ./...'' ''gotest'' []) (cmdHas ''go test''),
      propose ''Go module'' True (checkLit ''govulncheck'' ''Known vulnerabilities (Go)'' ''Dependencies'' ''govulncheck'' True
        ''govulncheck ./...'' ''govulncheck'' ''go install golang.org/x/vuln/cmd/govulncheck@latest'') (toolOrCmd ''govulncheck''),
      propose ''Go module'' False (checkLit ''gosec'' ''Static analysis (Go)'' ''SAST'' ''gosec'' False
        ''gosec -fmt=json -quiet ./...'' ''gosec-json'' ''go install github.com/securego/gosec/v2/cmd/gosec@latest'') (parserIs ''gosec-json'')]"

definition auditCommand :: "string \<Rightarrow> string" where
  "auditCommand pm = (if pm = ''npm'' then ''npm audit --json'' else if pm = ''yarn'' then ''yarn npm audit --json''
     else if pm = ''pnpm'' then ''pnpm audit --json'' else [])"

definition nodeProposal :: "nodeProject \<Rightarrow> proposal" where
  "nodeProposal n =
     (let dir = npDir n; pm = npPm n;
          key = (if dir = [] then ''npm-audit'' else ''npm-audit-'' @ map (\<lambda>c. if c = CHR ''/'' then CHR ''-'' else c) dir);
          wher = (if dir = [] then ''.'' else dir);
          hint = (if pm = ''yarn'' then ''npm i -g yarn'' else if pm = ''pnpm'' then ''npm i -g pnpm'' else [])
      in propose (''Node project at '' @ wher) True
           ((checkLit key (''Dependency audit ('' @ wher @ '')'') ''Dependencies'' pm False (auditCommand pm) ''npm-audit'' hint)\<lparr>ckDir := dir\<rparr>)
           (\<lambda>c. ckDir c = dir \<and> (ckParser c = ''npm-audit'' \<or> Contains (ckCommand c) ''audit'')))"

definition proposalsFor :: "stack \<Rightarrow> proposal list" where
  "proposalsFor s =
     (if skGoMod s then goProposals else []) @ map nodeProposal (skNode s) @
     (if skPython s then
       [propose ''Python project'' True (checkLit ''pip-audit'' ''Known vulnerabilities (Python)'' ''Dependencies'' ''pip-audit'' True
          ''pip-audit --strict'' ''exit'' ''pipx install pip-audit'') (toolOrCmd ''pip-audit''),
        propose ''Python project'' False (checkLit ''bandit'' ''Static analysis (Python)'' ''SAST'' ''bandit'' False
          ''bandit -r . -q'' ''exit'' ''pipx install bandit'') (toolOrCmd ''bandit'')] else []) @
     (if skPhp s then
       [propose ''PHP project'' True (checkLit ''composer-audit'' ''Known vulnerabilities (PHP)'' ''Dependencies'' ''composer'' True
          ''composer audit'' ''exit'' []) (toolOrCmd ''composer'')] else []) @
     (if skRuby s then
       [propose ''Ruby project'' True (checkLit ''bundler-audit'' ''Known vulnerabilities (Ruby)'' ''Dependencies'' ''bundler-audit'' True
          ''bundler-audit check --update'' ''exit'' ''gem install bundler-audit'') (toolOrCmd ''bundler-audit'')] else []) @
     (if skRust s then
       [propose ''Rust crate'' True (checkLit ''cargo-audit'' ''Known vulnerabilities (Rust)'' ''Dependencies'' ''cargo'' True
          ''cargo audit'' ''exit'' ''cargo install cargo-audit'') (cmdHas ''cargo audit'')] else []) @
     (if skJvm s then
       [propose ''JVM project'' True (checkLit ''osv-scanner'' ''Known vulnerabilities (OSV)'' ''Dependencies'' ''osv-scanner'' True
          ''osv-scanner -r .'' ''exit'' ''brew install osv-scanner'') (toolOrCmd ''osv-scanner'')] else []) @
     [propose ''any repository'' True (checkLit ''gitleaks'' ''Secret scan'' ''Secrets'' ''gitleaks'' False
        ''gitleaks detect --no-banner --redact'' ''gitleaks'' ''brew install gitleaks'') (parserIs ''gitleaks''),
      propose ''any repository'' False (checkLit ''semgrep'' ''Static analysis (OWASP Top 10)'' ''SAST'' ''semgrep'' False
        ''semgrep --config p/owasp-top-ten --json --quiet'' ''semgrep-json'' ''pipx install semgrep'') (parserIs ''semgrep-json''),
      propose ''any repository'' False (checkLit ''sbom'' ''Software bill of materials'' ''Supply chain'' ''syft'' False
        ''syft . -o cyclonedx-json'' ''exit'' ''brew install syft'') (toolOrCmd ''syft'')] @
     (if skDocker s then
       [propose ''Dockerfile'' False (checkLit ''trivy-fs'' ''Image & config scan'' ''Infrastructure'' ''trivy'' False
          ''trivy fs --scanners vuln,secret,misconfig --quiet .'' ''exit'' ''brew install trivy'') (toolOrCmd ''trivy'')] else []) @
     (if skTerraform s then
       [propose ''Terraform'' False (checkLit ''checkov'' ''IaC misconfiguration'' ''Infrastructure'' ''checkov'' False
          ''checkov -d . --compact --quiet'' ''exit'' ''pipx install checkov'') (toolOrCmd ''checkov'')] else [])"

definition uncovered :: "proposal list \<Rightarrow> CheckDef list \<Rightarrow> proposal list" where
  "uncovered props checks = filter (\<lambda>p. \<not> list_ex (prCovered p) checks) props"

definition mergeChecks :: "CheckDef list \<Rightarrow> proposal list \<Rightarrow> CheckDef list" where
  "mergeChecks existing add = existing @ map (\<lambda>p. (prDef p)\<lparr>ckSource := ''detected''\<rparr>) add"

section \<open>The audit\<close>

text \<open>A message is kept as its format and arguments.\<close>

record finding =
  fiLevel :: string
  fiFormat :: string
  fiArgs :: "string list"

definition failing :: "string \<Rightarrow> string list \<Rightarrow> finding" where
  "failing f args = \<lparr>fiLevel = ''fail'', fiFormat = f, fiArgs = args\<rparr>"

definition warning :: "string \<Rightarrow> string list \<Rightarrow> finding" where
  "warning f args = \<lparr>fiLevel = ''warn'', fiFormat = f, fiArgs = args\<rparr>"

definition missingFinding :: "proposal \<Rightarrow> finding" where
  "missingFinding p =
     (let args = [prSignal p, ckName (prDef p), ckKey (prDef p)] in
      if prRequired p then failing (''not covered: %s (%s) '' @ emDash @ '' suggested check %q'') args
      else warning (''no check for %s (%s) '' @ emDash @ '' suggested check %q'') args)"

definition dirFindings :: "InitEnv \<Rightarrow> CheckDef list \<Rightarrow> finding list" where
  "dirFindings env checks =
     map (\<lambda>c. failing ''check %q runs in %q, which does not exist'' [ckKey c, ckDir c])
       (filter (\<lambda>c. \<not> ckDisabled c \<and> ckDir c \<noteq> [] \<and> \<not> ieIsDir env (ckDir c)) checks)"

definition toolFindings :: "InitEnv \<Rightarrow> CheckDef list \<Rightarrow> finding list" where
  "toolFindings env checks =
     map (\<lambda>c. let msg = ''check %q needs %q, not installed''; args = [ckKey c, firstWord (ckCommand c)] in
        if ckInstallHint c \<noteq> [] then warning (msg @ '' '' @ emDash @ '' %s'') (args @ [ckInstallHint c]) else warning msg args)
       (filter (\<lambda>c. \<not> ckDisabled c \<and> firstWord (ckCommand c) \<noteq> [] \<and> \<not> shellSyntax (ckCommand c) \<and>
          \<not> ieLookPath env (firstWord (ckCommand c))) checks)"

definition docFindings :: "unicode \<Rightarrow> DashConfig \<Rightarrow> ComplianceDoc list \<Rightarrow> finding list" where
  "docFindings uc cfg docs =
     map (\<lambda>d. warning ''compliance doc %s is in scope but has no authored standard/controls'' [cdPath d])
       (filter (\<lambda>d. \<not> isMapped uc (standardsOf cfg) d) docs)"

definition asvsFindings :: "DashConfig \<Rightarrow> finding list" where
  "asvsFindings cfg =
     (case dcASVS cfg of
        None \<Rightarrow> []
      | Some a \<Rightarrow>
          (let reqs = (case avRequirements a of None \<Rightarrow> [] | Some rs \<Rightarrow> rs);
               blank = length (filter (\<lambda>r. TrimSpace (aiEvidence r) = [] \<or> aiCoverage r = ''pending'') reqs)
           in if 0 < blank
              then [warning ''%d of %d ASVS controls have no evidence yet'' [FormatUint blank, FormatUint (length reqs)]]
              else []))"

definition auditConfig :: "unicode \<Rightarrow> InitEnv \<Rightarrow> DashConfig \<Rightarrow> proposal list \<Rightarrow> ComplianceDoc list \<Rightarrow> finding list" where
  "auditConfig uc env cfg missing docs =
     map missingFinding missing @ dirFindings env (dcChecks cfg) @ toolFindings env (dcChecks cfg) @
     docFindings uc cfg docs @ asvsFindings cfg"

text \<open>The exit status of \<open>init --check\<close>.\<close>

definition reportCheck :: "finding list \<Rightarrow> int" where
  "reportCheck f = (if 0 < length (filter (\<lambda>x. fiLevel x = ''fail'') f) then 1 else 0)"

section \<open>Writing the manifest\<close>

definition baselineTask :: "string \<Rightarrow> string \<Rightarrow> string \<Rightarrow> string \<Rightarrow> string \<Rightarrow> Task" where
  "baselineTask ident title category cadence notes =
     zeroTask\<lparr>tkID := ident, tkTitle := title, tkCategory := category, tkCadence := cadence, tkStatus := ''pending'',
       tkNotes := notes, tkSource := ''baseline''\<rparr>"

definition baselineTasks :: "Task list" where
  "baselineTasks =
     [baselineTask ''threat-model-review'' ''Threat-model review'' ''Design'' ''Every release''
        ''Re-review trust boundaries when a new integration lands.'',
      baselineTask ''access-review'' ''User & role access review'' ''Access control'' ''Quarterly''
        ''Confirm every operator role still needs its permissions.'',
      baselineTask ''dependency-review'' ''Dependency review'' ''Dependencies'' ''Monthly''
        ''Triage advisories the automated audit reports as accepted risk.'',
      baselineTask ''pen-test'' ''External penetration test'' ''Dynamic'' ''Annually''
        ''Independent test against a staging environment.'',
      baselineTask ''backup-restore-test'' ''Backup restore test'' ''Infrastructure'' ''Quarterly''
        ''Prove a restore actually works, not just that backups run.'',
      baselineTask ''incident-response-drill'' ''Incident-response drill'' ''Operations'' ''Annually''
        ''Walk a breach scenario end to end, including notification duties.'']"

definition configKeyOrder :: "string list" where
  "configKeyOrder = [''app'', ''manualDoc'', ''standards'', ''asvs'', ''conformance'', ''complianceDocs'', ''checks'']"

text \<open>A value is stored as the document its encoding denotes.\<close>

definition setJSON :: "string \<Rightarrow> json \<Rightarrow> gomap \<Rightarrow> gomap" where
  "setJSON key v raw = (case parseJson (encodeJson v) of None \<Rightarrow> raw | Some w \<Rightarrow> mapPut key w raw)"

text \<open>The members of the written object: the known keys in schema order, then the others in theirs.\<close>

definition orderedMembers :: "gomap \<Rightarrow> gomap" where
  "orderedMembers raw =
     List.map_filter (\<lambda>k. map_option (Pair k) (mapGet raw k)) configKeyOrder @
     filter (\<lambda>(k, v). k \<notin> set configKeyOrder) raw"

fun memberLines :: "(nat \<Rightarrow> bool) \<Rightarrow> gomap \<Rightarrow> string" where
  "memberLines pr [] = []"
| "memberLines pr ((k, v) # kvs) =
     ''  '' @ goQuote pr k @ '': '' @ indentVal 1 v @ (if kvs = [] then [] else '','') @ NL # memberLines pr kvs"

definition writeOrderedJSON :: "(nat \<Rightarrow> bool) \<Rightarrow> gomap \<Rightarrow> string" where
  "writeOrderedJSON pr raw = CHR ''{'' # NL # memberLines pr (orderedMembers raw) @ ''}'' @ [NL]"

definition appJson :: "AppInfo \<Rightarrow> json" where
  "appJson a = JObj [(''name'', JStr (apName a)), (''description'', JStr (apDescription a)), (''repo'', JStr (apRepo a)),
     (''team'', JStr (apTeam a)), (''contact'', JStr (apContact a))]"

definition complianceDocJson :: "ComplianceDoc \<Rightarrow> json" where
  "complianceDocJson d = JObj [(''id'', JStr (cdID d)), (''title'', JStr (cdTitle d)), (''path'', JStr (cdPath d))]"

definition checksJson :: "CheckDef list \<Rightarrow> json" where
  "checksJson cs = JArr (map (\<lambda>c. JObj (checkMembers c)) cs)"

definition mergedApp :: "stack \<Rightarrow> AppInfo \<Rightarrow> AppInfo" where
  "mergedApp st app0 =
     (let app1 = (if apName app0 = [] then app0\<lparr>apName := skAppName st\<rparr> else app0)
      in if apRepo app1 = [] then app1\<lparr>apRepo := skRepo st\<rparr> else app1)"

definition mergedManualDoc :: "stack \<Rightarrow> string \<Rightarrow> string" where
  "mergedManualDoc st doc = (if doc = [] then skManualDoc st else doc)"

definition mergedRaw :: "stack \<Rightarrow> ComplianceDoc list \<Rightarrow> DashConfig \<Rightarrow> CheckDef list \<Rightarrow> gomap \<Rightarrow> gomap" where
  "mergedRaw st docs existing checks raw0 =
     (let manualDoc = mergedManualDoc st (dcManualDoc existing);
          raw1 = setJSON ''checks'' (checksJson checks) (setJSON ''app'' (appJson (mergedApp st (dcApp existing))) raw0);
          raw2 = (if manualDoc \<noteq> [] then setJSON ''manualDoc'' (JStr manualDoc) raw1 else raw1);
          raw3 = (if docs \<noteq> [] then setJSON ''complianceDocs'' (JArr (map complianceDocJson docs)) raw2 else raw2)
      in if mapGet raw3 ''standards'' = None then setJSON ''standards'' (JArr []) raw3 else raw3)"

record initOpts =
  ioDryRun :: bool
  ioCheck :: bool
  ioForce :: bool

text \<open>What \<open>init\<close> starts from: the raw members and the decoded configuration.  The document \<open>null\<close> turns the map
  into nil, and the first store into it panics.\<close>

definition rawMembers :: "json \<Rightarrow> gomap option option" where
  "rawMembers v = (case v of JObj kvs \<Rightarrow> Some (Some (foldl (\<lambda>m (k, w). mapPut k w m) [] kvs)) | JNull \<Rightarrow> Some None | _ \<Rightarrow> None)"

definition initStart :: "initOpts \<Rightarrow> string \<Rightarrow> string result \<Rightarrow> (gomap option \<times> DashConfig) result" where
  "initStart opts cfgPath src =
     (case src of
        Inl e \<Rightarrow>
          if ioCheck opts then Inl (ErrMsg (cfgPath @ '' does not exist '' @ emDash @ '' run `init` first''))
          else Inr (Some [], zeroDashConfig)
      | Inr b \<Rightarrow>
          if ioForce opts then Inr (Some [], zeroDashConfig)
          else (case parseJson b of
              None \<Rightarrow> Inl (ErrWrap (''parse '' @ cfgPath) ErrJSON)
            | Some v \<Rightarrow>
                (case rawMembers v of
                   None \<Rightarrow> Inl (ErrWrap (''parse '' @ cfgPath) ErrJSON)
                 | Some raw \<Rightarrow>
                     (case decodeStruct dashFields setDashField v zeroDashConfig of
                        None \<Rightarrow> Inl (ErrWrap (''parse '' @ cfgPath) ErrJSON)
                      | Some cfg \<Rightarrow> Inr (raw, cfg)))))"

datatype initOutcome = InitError goerror | InitReport int "finding list"

definition writeBaseline :: "fileFault \<Rightarrow> DashDir \<Rightarrow> goerror option \<times> DashDir" where
  "writeBaseline io d =
     (case MarshalIndent (tasksJson (Some baselineTasks)) of
        None \<Rightarrow> (Some ErrJSON, d)
      | Some b \<Rightarrow> (let (e, c) = writeFile io (b @ [NL]) (ddTasks d) in (e, d\<lparr>ddTasks := c\<rparr>)))"

text \<open>\<open>InitReport\<close> carries the exit status and the findings printed.\<close>

definition runInit :: "unicode \<Rightarrow> InitEnv \<Rightarrow> fileFault \<Rightarrow> fileFault \<Rightarrow> string \<Rightarrow> initOpts \<Rightarrow> DashDir \<Rightarrow> initOutcome \<times> DashDir" where
  "runInit uc env cfgIO tasksIO dir opts d =
     (case initStart opts (joinPaths [dir, ''config.json'']) (ddConfig d) of
        Inl e \<Rightarrow> (InitError e, d)
      | Inr (raw, existing) \<Rightarrow>
          (let st = detectStack env;
               docs = detectComplianceDocs env;
               add = uncovered (proposalsFor st) (dcChecks existing);
               asIs = auditConfig uc env existing add docs
           in if ioCheck opts then (InitReport (reportCheck asIs) asIs, d)
              else (case raw of
                  None \<Rightarrow> (InitError (ErrPanic ''assignment to entry in nil map''), d)
                | Some raw0 \<Rightarrow>
                    if ioDryRun opts then (InitReport 0 asIs, d)
                    else (case ieMkdir env of
                        Some e \<Rightarrow> (InitError (ErrOS e), d)
                      | None \<Rightarrow>
                          (let checks = mergeChecks (dcChecks existing) add;
                               out = writeOrderedJSON (ieIsPrint env) (mergedRaw st docs existing checks raw0);
                               (e1, c) = writeFile cfgIO out (ddConfig d);
                               d1 = d\<lparr>ddConfig := c\<rparr>
                           in case e1 of
                                Some e \<Rightarrow> (InitError e, d1)
                              | None \<Rightarrow>
                                  (case (if ieTasksMissing env then writeBaseline tasksIO d1 else (None, d1)) of
                                     (Some e, d2) \<Rightarrow> (InitError e, d2)
                                   | (None, d2) \<Rightarrow>
                                       (InitReport 0 (auditConfig uc env
                                          (existing\<lparr>dcChecks := checks, dcComplianceDocs := docs\<rparr>) [] docs), d2)))))))"

section \<open>Init only adds\<close>

lemma checkLit_fields [simp]:
  "ckCommand (checkLit k n c t g cm p h) = cm" "ckParser (checkLit k n c t g cm p h) = p" "ckTool (checkLit k n c t g cm p h) = t"
  by (simp_all add: checkLit_def)

lemma propose_fields [simp]:
  "prDef (propose s r d f) = d" "prCovered (propose s r d f) = f" "prRequired (propose s r d f) = r"
  by (simp_all add: propose_def)

lemma proposal_covers_itself:
  assumes "p \<in> set (proposalsFor s)"
  shows "prCovered p ((prDef p)\<lparr>ckSource := x\<rparr>)"
proof -
  let ?C = "\<lambda>p. prCovered p ((prDef p)\<lparr>ckSource := x\<rparr>)"
  have "list_all ?C goProposals"
    by (simp add: goProposals_def cmdHas_def toolOrCmd_def parserIs_def HasPrefix_def startsWith_def)
  moreover have "list_all ?C (map nodeProposal ns)" for ns
    by (induction ns) (simp_all add: nodeProposal_def Let_def)
  ultimately have "list_all ?C (proposalsFor s)"
    by (simp add: proposalsFor_def cmdHas_def toolOrCmd_def parserIs_def HasPrefix_def startsWith_def)
  with assms show ?thesis by (simp add: list_all_iff)
qed

lemma merged_covers:
  "uncovered (proposalsFor s) (mergeChecks existing (uncovered (proposalsFor s) existing)) = []"
proof -
  have "list_ex (prCovered p) (mergeChecks existing (uncovered (proposalsFor s) existing))" if p: "p \<in> set (proposalsFor s)" for p
  proof (cases "list_ex (prCovered p) existing")
    case False
    then have "p \<in> set (uncovered (proposalsFor s) existing)" using p by (simp add: uncovered_def)
    then show ?thesis using proposal_covers_itself [OF p] by (auto simp: mergeChecks_def list_ex_iff)
  qed (simp add: mergeChecks_def)
  then show ?thesis by (simp add: uncovered_def filter_empty_conv)
qed

lemma parse_jdepth:
  "parseVal n d s = Some (v, r) \<Longrightarrow> jdepth v \<le> d"
  "parseElems n d s = Some (vs, r) \<Longrightarrow> jdepths vs \<le> d"
  "parseMembers n d s = Some (kvs, r) \<Longrightarrow> jdepthMembers kvs \<le> d"
proof (induction n d s and n d s and n d s arbitrary: v r and vs r and kvs r
    rule: parseVal_parseElems_parseMembers.induct)
  case (2 n d s)
  then obtain c t where s: "skipWs s = c # t" by (auto simp: parse_step split: list.splits)
  with 2 show ?case
    by (auto simp: parse_step parseKeyword_def split: if_splits list.splits; fastforce)
next
  case (4 n d s)
  then obtain v r1 c r2 where "parseVal n d s = Some (v, r1)" "skipWs r1 = c # r2"
    by (auto simp: parse_step split: option.splits list.splits)
  with 4 show ?case by (auto simp: parse_step split: if_splits; fastforce)
next
  case (6 n d s)
  then obtain q r1 k r2 c r3 v r4 e r5 where "skipWs s = q # r1" "decodeStr r1 = Some (k, r2)"
    "skipWs r2 = c # r3" "parseVal n d r3 = Some (v, r4)" "skipWs r4 = e # r5"
    by (auto simp: parse_step split: option.splits list.splits if_splits)
  with 6 show ?case by (auto simp: parse_step split: if_splits; fastforce)
qed simp_all

lemma parseJson_jdepth: "parseJson s = Some v \<Longrightarrow> jdepth v \<le> maxNestingDepth"
  by (auto simp: parseJson_def simp del: parseVal.simps dest: parse_jdepth(1) split: option.splits if_splits)

text \<open>What is decoded is valid UTF-8.\<close>

definition keeps :: "('a \<Rightarrow> bool) \<Rightarrow> (json \<Rightarrow> 'a \<Rightarrow> 'a option) \<Rightarrow> bool" where
  "keeps P dec \<longleftrightarrow> (\<forall>v x. okDoc v \<longrightarrow> P x \<longrightarrow> pred_option P (dec v x))"

lemma pred_option_iff: "pred_option P z \<longleftrightarrow> (\<forall>y. z = Some y \<longrightarrow> P y)"
  by (cases z) auto

lemma keepsD: "keeps P dec \<Longrightarrow> okDoc v \<Longrightarrow> P x \<Longrightarrow> pred_option P (dec v x)"
  by (simp add: keeps_def)

lemma keeps_struct: "(\<And>f. keeps P (set_field f)) \<Longrightarrow> keeps P (decodeStruct names set_field)"
  using decodeStruct_inv [of P set_field] unfolding keeps_def pred_option_iff by blast

lemma keeps_slice:
  assumes "keeps P dec" "P zero"
  shows "keeps (list_all P) (decodeSlice dec zero)"
  unfolding keeps_def pred_option_iff
proof (intro allI impI)
  fix v olds xs
  assume *: "okDoc v" "list_all P olds" "decodeSlice dec zero v olds = Some xs"
  have "list_all P xs" if "v = JArr vs" for vs
    using decodeElems_inv [of P dec zero vs olds xs] assms * that by (simp add: keeps_def pred_option_iff)
  with * show "list_all P xs" by (cases v) auto
qed

lemma decodeString_keeps: "okDoc v \<Longrightarrow> validUtf8 s \<Longrightarrow> pred_option validUtf8 (decodeString v s)"
  using decodeString_ok by (auto simp: pred_option_iff)

lemma keeps_suppression: "keeps okSuppression decodeSuppression"
  unfolding decodeSuppression_def
  by (rule keeps_struct) (simp add: keeps_def okSuppression_def option.pred_map comp_def decodeString_keeps)

lemma keeps_suppressions: "keeps (list_all okSuppression) (decodeSlice decodeSuppression zeroSuppression)"
  by (intro keeps_slice keeps_suppression) (simp add: okSuppression_def zeroSuppression_def)

lemma keeps_checkField: "keeps okCheck (setCheckField f)"
  using keepsD [OF keeps_suppressions]
  by (simp add: keeps_def setCheckField_def okCheck_def option.pred_map comp_def decodeString_keeps option.pred_True)

lemma keeps_check: "keeps okCheck (decodeStruct checkFields setCheckField)"
  by (rule keeps_struct) (rule keeps_checkField)

definition okApp :: "AppInfo \<Rightarrow> bool" where
  "okApp a \<longleftrightarrow> list_all validUtf8 [apName a, apDescription a, apRepo a, apTeam a, apContact a]"

lemma keeps_app: "keeps okApp decodeApp"
  unfolding decodeApp_def
  by (rule keeps_struct) (simp add: keeps_def okApp_def option.pred_map comp_def decodeString_keeps)

definition okConfig :: "DashConfig \<Rightarrow> bool" where
  "okConfig c \<longleftrightarrow> list_all okCheck (dcChecks c) \<and> okApp (dcApp c) \<and> validUtf8 (dcManualDoc c)"

lemma keeps_checks: "keeps (list_all okCheck) (decodeSlice (decodeStruct checkFields setCheckField) zeroCheckDef)"
  by (intro keeps_slice keeps_check) (simp add: okCheck_def zeroCheckDef_def)

lemma keeps_dashField: "keeps okConfig (setDashField f)"
  using keepsD [OF keeps_checks] keepsD [OF keeps_app]
  by (simp add: keeps_def setDashField_def okConfig_def option.pred_map comp_def decodeString_keeps option.pred_True
      del: decodeStruct.simps)

lemma okConfig_zero: "okConfig zeroDashConfig"
  by (simp add: okConfig_def zeroDashConfig_def okApp_def zeroApp_def)

lemma decodeConfig_ok:
  "okDoc v \<Longrightarrow> decodeStruct dashFields setDashField v zeroDashConfig = Some c \<Longrightarrow> okConfig c"
  using keeps_struct [of okConfig setDashField dashFields, OF keeps_dashField] okConfig_zero
  unfolding keeps_def pred_option_iff by blast

section \<open>The merged document\<close>

lemma okDocMembers_iff: "okDocMembers kvs \<longleftrightarrow> (\<forall>(k, v)\<in>set kvs. validUtf8 k \<and> okDoc v)"
  by (induction kvs) auto

lemma jdepthMembers_le_iff: "jdepthMembers kvs \<le> n \<longleftrightarrow> (\<forall>(k, v)\<in>set kvs. jdepth v \<le> n)"
  by (induction kvs) auto

lemma set_mapPut_sub: "set (mapPut k v m) \<subseteq> insert (k, v) (set m)"
  by (induction k v m rule: mapPut.induct) auto

definition okRaw :: "gomap \<Rightarrow> bool" where
  "okRaw raw \<longleftrightarrow> (\<forall>(k, v)\<in>set raw. validUtf8 k \<and> okDoc v \<and> jdepth v \<le> maxNestingDepth - 1)"

lemma maxNesting_pos: "0 < maxNestingDepth"
  by (simp add: maxNestingDepth_def)

lemma okRaw_mapPut: "okRaw raw \<Longrightarrow> validUtf8 k \<Longrightarrow> okDoc v \<Longrightarrow> jdepth v \<le> maxNestingDepth - 1 \<Longrightarrow> okRaw (mapPut k v raw)"
  using set_mapPut_sub [of k v raw] unfolding okRaw_def by auto

lemma okRaw_Cons: "okRaw ((k, v) # raw) \<longleftrightarrow> validUtf8 k \<and> okDoc v \<and> jdepth v \<le> maxNestingDepth - 1 \<and> okRaw raw"
  by (simp add: okRaw_def)

lemma okRaw_iff: "okRaw raw \<longleftrightarrow> okDoc (JObj raw) \<and> jdepth (JObj raw) \<le> maxNestingDepth"
proof -
  have "jdepth (JObj raw) \<le> maxNestingDepth \<longleftrightarrow> jdepthMembers raw \<le> maxNestingDepth - 1"
    using maxNesting_pos by auto
  then show ?thesis by (auto simp: okRaw_def okDocMembers_iff jdepthMembers_le_iff)
qed

lemma okRaw_subset: "okRaw raw \<Longrightarrow> set ms \<subseteq> set raw \<Longrightarrow> okRaw ms"
  unfolding okRaw_def by auto

lemma rawMembers_obj:
  assumes "rawMembers v = Some (Some raw)" "okDoc v" "jdepth v \<le> maxNestingDepth"
  obtains kvs where "v = JObj kvs" "okRaw raw" "\<And>k. mapGet raw k = map_of (rev kvs) k" "sortedMap raw"
proof -
  obtain kvs where v: "v = JObj kvs" and raw: "raw = foldl (\<lambda>m (k, w). mapPut k w m) [] kvs"
    using assms(1) by (auto simp: rawMembers_def split: json.splits)
  have "okRaw ms \<Longrightarrow> okRaw kvs \<Longrightarrow> okRaw (foldl (\<lambda>m (k, w). mapPut k w m) ms kvs)" for ms
    by (induction kvs arbitrary: ms) (auto simp: okRaw_Cons okRaw_mapPut simp del: One_nat_def)
  moreover have "mapGet (foldl (\<lambda>m (k, w). mapPut k w m) ms kvs) k = (case map_of (rev kvs) k of None \<Rightarrow> mapGet ms k | Some w \<Rightarrow> Some w)" for ms k
    by (induction kvs arbitrary: ms) (auto simp: map_add_def split: option.splits)
  moreover have "sortedMap ms \<Longrightarrow> sortedMap (foldl (\<lambda>m (k, w). mapPut k w m) ms kvs)" for ms
    by (induction kvs arbitrary: ms) (auto simp: sortedMap_mapPut)
  moreover have "okRaw kvs" using assms(2,3) v by (simp only: okRaw_iff)
  moreover have "okRaw []" "sortedMap []" by (simp_all add: okRaw_def sortedMap_def)
  ultimately show thesis
    by (intro that [OF v]) (auto simp: raw mapGet_def split: option.splits)
qed

lemma setJSON_ok [simp]:
  assumes "okDoc v" "jdepth v \<le> maxNestingDepth - 1"
  shows "setJSON k v raw = mapPut k v raw"
proof -
  have "jdepth v \<le> maxNestingDepth" using assms(2) by linarith
  with assms(1) show ?thesis by (simp add: setJSON_def parseJson_encode)
qed

lemma orderedMembers_lookup: "map_of (orderedMembers raw) k = mapGet raw k"
proof -
  have "map_of (List.map_filter (\<lambda>k. map_option (Pair k) (mapGet raw k)) ks) k = (if k \<in> set ks then mapGet raw k else None)" for ks k
    by (induction ks) (auto split: option.splits)
  moreover have "map_of (filter (\<lambda>(k, v). k \<notin> set configKeyOrder) raw) k = (if k \<in> set configKeyOrder then None else mapGet raw k)" for k
    unfolding mapGet_def by (induction raw) auto
  ultimately show ?thesis by (auto simp: orderedMembers_def map_add_def split: option.splits)
qed

lemma orderedMembers_set: "set (orderedMembers raw) \<subseteq> set raw"
  by (auto simp: orderedMembers_def set_map_filter mapGet_def dest: map_of_SomeD)

text \<open>Member names of printable ASCII, and values, are read back as written.\<close>

lemma parse_memberLines:
  assumes "\<forall>(k, v)\<in>set kvs. plainText k \<and> okDoc v" "kvs \<noteq> []" "needMembers kvs \<le> n" "jdepthMembers kvs \<le> d"
  shows "parseMembers n d (memberLines pr kvs @ CHR ''}'' # r) = Some (kvs, r)"
  using assms
proof (induction kvs arbitrary: n)
  case (Cons kv kvs)
  obtain k v where kv: "kv = (k, v)" by fastforce
  obtain m where n: "n = Suc m" "need v \<le> m" "needMembers kvs \<le> m" using Cons.prems(3) kv by (cases n) auto
  have ok: "plainText k" "okDoc v" "jdepth v \<le> d" "jdepthMembers kvs \<le> d" using Cons.prems kv by auto
  define rest where "rest = (if kvs = [] then [] else '','') @ NL # memberLines pr kvs @ CHR ''}'' # r"
  have "numStop rest" by (simp add: rest_def numStop_def isDigit_def digitVal_def)
  then have val: "parseVal m d (CHR 0x20 # indentVal 1 v @ rest) = Some (v, rest)"
    using parse_indent(1) ok n(2) by (simp add: parseVal_blank)
  have ws: "skipWs (CHR 0x20 # CHR 0x20 # CHR 0x22 # s) = CHR 0x22 # s" "skipWs (NL # s) = skipWs s" for s
    by (simp_all add: skipWs_def isWs_def)
  have "memberLines pr (kv # kvs) @ CHR ''}'' # r =
      CHR 0x20 # CHR 0x20 # CHR 0x22 # quoteBody pr k @ CHR 0x22 # CHR '':'' # CHR 0x20 # indentVal 1 v @ rest"
    by (simp add: kv goQuote_def rest_def)
  then have step: "parseMembers n d (memberLines pr (kv # kvs) @ CHR ''}'' # r) = (case skipWs rest of [] \<Rightarrow> None
      | c # r4 \<Rightarrow> if c = CHR ''}'' then Some ([(k, v)], r4)
          else if c = CHR '','' then map_option (\<lambda>(kvs, r''). ((k, v) # kvs, r'')) (parseMembers m d r4) else None)"
    using decodeStr_goQuote [OF ok(1)] val by (simp add: n(1) parse_step ws)
  show ?case
  proof (cases "kvs = []")
    case True
    then show ?thesis unfolding step by (simp add: rest_def ws kv)
  next
    case False
    then have "parseMembers m d (NL # memberLines pr kvs @ CHR ''}'' # r) = Some (kvs, r)"
      using Cons.IH [of m] Cons.prems(1) ok(4) n(3) parse_skipWs(3) [of m d "NL # memberLines pr kvs @ CHR ''}'' # r"]
        parse_skipWs(3) [of m d "memberLines pr kvs @ CHR ''}'' # r"] by (simp add: ws(2))
    with False show ?thesis unfolding step by (simp add: rest_def kv)
  qed
qed simp

lemma parse_writeOrdered:
  assumes "okRaw raw" "\<forall>(k, v)\<in>set raw. plainText k" "orderedMembers raw \<noteq> []"
  shows "parseJson (writeOrderedJSON pr raw) = Some (JObj (orderedMembers raw))"
proof -
  let ?ms = "orderedMembers raw" and ?s = "writeOrderedJSON pr raw"
  have ok: "okRaw ?ms" "\<forall>(k, v)\<in>set ?ms. plainText k \<and> okDoc v"
    using okRaw_subset [OF assms(1) orderedMembers_set] assms(1,2) orderedMembers_set [of raw] by (auto simp: okRaw_def)
  then have d: "jdepthMembers ?ms \<le> maxNestingDepth - 1" using okRaw_iff [of ?ms] by auto
  obtain k v kvs where ms: "?ms = (k, v) # kvs" using assms(3) by (cases ?ms) auto
  define N where "N = max (Suc (needMembers ?ms)) (2 * length ?s + 2)"
  obtain m where m: "N = Suc m" "needMembers ?ms \<le> m" unfolding N_def by (cases "max (Suc (needMembers ?ms)) (2 * length ?s + 2)") auto
  have "parseMembers m (maxNestingDepth - 1) (NL # memberLines pr ?ms @ CHR ''}'' # [NL]) = Some (?ms, [NL])"
    using parse_memberLines [OF ok(2) assms(3) m(2) d] parse_skipWs(3) [of m "maxNestingDepth - 1" "NL # memberLines pr ?ms @ CHR ''}'' # [NL]"]
      parse_skipWs(3) [of m "maxNestingDepth - 1" "memberLines pr ?ms @ CHR ''}'' # [NL]"] by (simp add: skipWs_def isWs_def)
  moreover have "\<exists>t. skipWs (NL # memberLines pr ?ms @ CHR ''}'' # [NL]) = CHR 0x22 # t"
    by (simp add: ms goQuote_def skipWs_def isWs_def)
  ultimately have "parseVal N maxNestingDepth ?s = Some (JObj ?ms, [NL])"
    unfolding m(1) writeOrderedJSON_def using parse_open(2) maxNesting_pos by fastforce
  then have "parseVal (2 * length ?s + 2) maxNestingDepth ?s = Some (JObj ?ms, [NL])"
    using parse_fuel_enough [of ?s N] by (simp add: N_def)
  then show ?thesis by (simp add: parseJson_def skipWs_def isWs_def del: parseVal.simps)
qed

text \<open>A configuration with a member whose name starts with a delete byte is rewritten into a file that does not
  parse; \<open>a\<close> is the member written before it.\<close>

lemma delete_key_breaks_config:
  "parseJson (writeOrderedJSON pr [(''app'', JNull), (CHR 0x7F # s, v)]) = None"
proof -
  let ?t = "NL # CHR 0x20 # CHR 0x20 # goQuote pr (CHR 0x7F # s) @ '': '' @ indentVal 1 v @ NL # CHR ''}'' # [NL]"
  have text_eq: "writeOrderedJSON pr [(''app'', JNull), (CHR 0x7F # s, v)] =
      CHR ''{'' # NL # CHR 0x20 # CHR 0x20 # goQuote pr ''app'' @ CHR '':'' # CHR 0x20 # encodeJson JNull @ CHR '','' # ?t"
    by (simp add: writeOrderedJSON_def orderedMembers_def configKeyOrder_def mapGet_def List.map_filter_def)
  have "skipWs ?t = goQuote pr (CHR 0x7F # s) @ '': '' @ indentVal 1 v @ NL # CHR ''}'' # [NL]"
    by (simp add: skipWs_def isWs_def goQuote_def)
  then have bad: "parseMembers n d ?t = None" for n d
    using delete_quote_no_json [of pr s] by (cases n) (simp_all add: parse_step goQuote_def)
  have val: "parseVal m d (CHR 0x20 # encodeJson JNull @ CHR '','' # ?t) = (if 1 \<le> m then Some (JNull, CHR '','' # ?t) else None)" for m d
    unfolding parseVal_blank using parse_encode(1) [of JNull "CHR '','' # ?t" m d] by simp
  have ws: "skipWs (NL # CHR 0x20 # CHR 0x20 # CHR 0x22 # r) = CHR 0x22 # r" for r
    by (simp add: skipWs_def isWs_def)
  have "plainText ''app''" by (simp add: plainText_def byteVal_def)
  from decodeStr_goQuote [OF this, of pr] val bad
  have "parseMembers n d (goQuote pr ''app'' @ CHR '':'' # CHR 0x20 # encodeJson JNull @ CHR '','' # ?t) = None" for n d
    by (cases n) (simp_all add: parse_step goQuote_def del: encodeJson.simps)
  then have "parseVal n d (writeOrderedJSON pr [(''app'', JNull), (CHR 0x7F # s, v)]) = None" for n d
    unfolding text_eq by (cases n) (simp_all add: parse_step ws goQuote_def del: encodeJson.simps)
  then show ?thesis by (simp add: parseJson_def)
qed

text \<open>Names found on the disk or given by git that are not valid UTF-8 would change on the way through the file.\<close>

definition okDetected :: "stack \<Rightarrow> ComplianceDoc list \<Rightarrow> bool" where
  "okDetected st docs \<longleftrightarrow> validUtf8 (skAppName st) \<and> validUtf8 (skRepo st) \<and> validUtf8 (skManualDoc st) \<and>
     list_all (\<lambda>p. okCheck (prDef p)) (proposalsFor st) \<and>
     list_all (\<lambda>d. validUtf8 (cdID d) \<and> validUtf8 (cdTitle d) \<and> validUtf8 (cdPath d)) docs"

lemma okCheck_merge:
  assumes "list_all okCheck existing" "list_all (\<lambda>p. okCheck (prDef p)) add"
  shows "list_all okCheck (mergeChecks existing add)"
  using assms by (auto simp: mergeChecks_def list_all_iff okCheck_def byteVal_def validUtf8_all_ASCII)

lemma okDoc_checksJson: "list_all okCheck cs \<Longrightarrow> okDoc (checksJson cs)"
  by (simp add: checksJson_def checkMembers_def omitEmpty_def boolMember_def okCheck_def okDocs_map
      list_all_iff okSuppression_def suppressionJson_def byteVal_def validUtf8_all_ASCII)

lemma jdepth_checksJson: "jdepth (checksJson cs) \<le> 4"
proof -
  have "jdepths (map suppressionJson (ckSuppress c)) \<le> 1" for c :: CheckDef
    by (rule jdepths_map) (simp add: suppressionJson_def)
  then have "jdepths (map (\<lambda>c. JObj (checkMembers c)) cs) \<le> 3"
    by (intro jdepths_map) (simp add: checkMembers_def omitEmpty_def boolMember_def)
  then show ?thesis by (simp add: checksJson_def)
qed

lemma matchField_check:
  "matchField checkFields ''key'' = Some ''key''" "matchField checkFields ''name'' = Some ''name''"
  "matchField checkFields ''category'' = Some ''category''" "matchField checkFields ''tool'' = Some ''tool''"
  "matchField checkFields ''gating'' = Some ''gating''" "matchField checkFields ''command'' = Some ''command''"
  "matchField checkFields ''parser'' = Some ''parser''" "matchField checkFields ''dir'' = Some ''dir''"
  "matchField checkFields ''installHint'' = Some ''installHint''" "matchField checkFields ''probe'' = Some ''probe''"
  "matchField checkFields ''suppress'' = Some ''suppress''" "matchField checkFields ''source'' = Some ''source''"
  "matchField checkFields ''disabled'' = Some ''disabled''" "matchField checkFields ''reason'' = Some ''reason''"
  by (simp_all add: matchField_def checkFields_def)

lemma decode_checksJson:
  "decodeSlice (decodeStruct checkFields setCheckField) zeroCheckDef (checksJson cs) [] = Some cs"
proof -
  have "decodeStruct checkFields setCheckField (JObj (checkMembers c)) zeroCheckDef = Some c" for c :: CheckDef
    by (cases c) (simp add: checkMembers_def omitEmpty_def boolMember_def matchField_check setCheckField_def
        zeroCheckDef_def decode_suppressions)
  then show ?thesis
    unfolding checksJson_def decodeSlice.simps by (intro decodeElems_map)
qed

text \<open>The members \<open>init\<close> may change.\<close>

definition initKeys :: "string list" where
  "initKeys = [''app'', ''checks'', ''manualDoc'', ''complianceDocs'', ''standards'']"

lemma okDoc_app: "okApp a \<Longrightarrow> okDoc (appJson a)"
  by (simp add: appJson_def okApp_def byteVal_def validUtf8_all_ASCII)

lemma okApp_merged: "okApp a \<Longrightarrow> validUtf8 (skAppName st) \<Longrightarrow> validUtf8 (skRepo st) \<Longrightarrow> okApp (mergedApp st a)"
  by (simp add: okApp_def mergedApp_def Let_def)

definition goodRaw :: "gomap \<Rightarrow> bool" where
  "goodRaw raw \<longleftrightarrow> okRaw raw \<and> sortedMap raw"

lemma goodRaw_mapPut:
  "goodRaw raw \<Longrightarrow> k \<in> set initKeys \<Longrightarrow> okDoc v \<Longrightarrow> jdepth v \<le> maxNestingDepth - 1 \<Longrightarrow> goodRaw (mapPut k v raw)"
proof -
  have "list_all validUtf8 initKeys" by (simp add: initKeys_def byteVal_def validUtf8_all_ASCII)
  then show "goodRaw raw \<Longrightarrow> k \<in> set initKeys \<Longrightarrow> okDoc v \<Longrightarrow> jdepth v \<le> maxNestingDepth - 1 \<Longrightarrow> goodRaw (mapPut k v raw)"
    unfolding goodRaw_def by (auto intro: okRaw_mapPut sortedMap_mapPut simp: list_all_iff)
qed

lemma initKeys_mem: "''app'' \<in> set initKeys" "''checks'' \<in> set initKeys" "''manualDoc'' \<in> set initKeys"
  "''complianceDocs'' \<in> set initKeys" "''standards'' \<in> set initKeys"
  by (simp_all add: initKeys_def)

lemma mergedRaw_facts:
  assumes ok: "okDetected st docs" "okConfig existing" "goodRaw raw" "list_all okCheck checks"
  defines "m \<equiv> mergedRaw st docs existing checks raw"
  shows "goodRaw m" "mapGet m ''checks'' = Some (checksJson checks)"
    "k \<notin> set initKeys \<Longrightarrow> mapGet m k = mapGet raw k"
    "mapGet raw ''standards'' = Some w \<Longrightarrow> mapGet m ''standards'' = Some w"
proof -
  define a where "a = appJson (mergedApp st (dcApp existing))"
  define c where "c = checksJson checks"
  define md where "md = mergedManualDoc st (dcManualDoc existing)"
  define ds where "ds = JArr (map complianceDocJson docs)"
  have oks: "okDoc a" "okDoc c" "okDoc (JStr md)" "okDoc ds" "okDoc (JArr [])"
    using ok okDoc_checksJson [OF ok(4)] okDoc_app [OF okApp_merged, of "dcApp existing" st]
    by (auto simp: a_def c_def md_def ds_def okDetected_def okConfig_def mergedManualDoc_def okDocs_map list_all_iff
        complianceDocJson_def byteVal_def validUtf8_all_ASCII)
  have deps: "jdepth a \<le> maxNestingDepth - 1" "jdepth c \<le> maxNestingDepth - 1" "jdepth (JStr md) \<le> maxNestingDepth - 1"
    "jdepth ds \<le> maxNestingDepth - 1" "jdepth (JArr []) \<le> maxNestingDepth - 1"
    using jdepth_checksJson [of checks] jdepths_map [of docs complianceDocJson 1]
    by (auto simp: a_def c_def ds_def appJson_def maxNestingDepth_def complianceDocJson_def)
  note put = setJSON_ok [OF oks(1) deps(1)] setJSON_ok [OF oks(2) deps(2)] setJSON_ok [OF oks(3) deps(3)]
    setJSON_ok [OF oks(4) deps(4)] setJSON_ok [OF oks(5) deps(5)]
  define r1 where "r1 = mapPut ''checks'' c (mapPut ''app'' a raw)"
  define r2 where "r2 = (if md \<noteq> [] then mapPut ''manualDoc'' (JStr md) r1 else r1)"
  define r3 where "r3 = (if docs \<noteq> [] then mapPut ''complianceDocs'' ds r2 else r2)"
  have m: "m = (if mapGet r3 ''standards'' = None then mapPut ''standards'' (JArr []) r3 else r3)"
    unfolding m_def mergedRaw_def Let_def a_def [symmetric] c_def [symmetric] md_def [symmetric] ds_def [symmetric] put
      r1_def [symmetric] r2_def [symmetric] r3_def [symmetric] ..
  have "goodRaw r1" unfolding r1_def using ok(3) oks deps initKeys_mem by (intro goodRaw_mapPut)
  then have "goodRaw r2" unfolding r2_def using oks deps initKeys_mem by (simp add: goodRaw_mapPut del: okDoc.simps)
  then have "goodRaw r3" unfolding r3_def using oks deps initKeys_mem by (simp add: goodRaw_mapPut)
  then show "goodRaw m" unfolding m using oks deps initKeys_mem by (simp add: goodRaw_mapPut)
  show "mapGet m ''checks'' = Some (checksJson checks)"
    by (simp add: m r3_def r2_def r1_def c_def)
  show "k \<notin> set initKeys \<Longrightarrow> mapGet m k = mapGet raw k"
    by (simp add: m r3_def r2_def r1_def initKeys_def)
  show "mapGet raw ''standards'' = Some w \<Longrightarrow> mapGet m ''standards'' = Some w"
    by (simp add: m r3_def r2_def r1_def)
qed

lemma writeBaseline_config: "writeBaseline io d = (e, d') \<Longrightarrow> ddConfig d' = ddConfig d"
  by (auto simp: writeBaseline_def Let_def split: option.splits prod.splits)

lemma mergedRaw_plain:
  assumes "okDetected st docs" "okConfig existing" "goodRaw raw" "list_all okCheck checks"
    and "\<And>k v. mapGet raw k = Some v \<Longrightarrow> plainText k"
  shows "\<forall>(k, v)\<in>set (mergedRaw st docs existing checks raw). plainText k"
proof -
  let ?m = "mergedRaw st docs existing checks raw"
  have "list_all plainText initKeys" by (simp add: initKeys_def plainText_def byteVal_def)
  moreover have "\<exists>w. mapGet ?m k = Some w" if "(k, v) \<in> set ?m" for k v
    using that by (metis mapGet_def weak_map_of_SomeI)
  ultimately show ?thesis using mergedRaw_facts(3) [OF assms(1-4)] assms(5) by (fastforce simp: list_all_iff)
qed

lemma runInit_writes:
  assumes run: "runInit uc env NoFault tio dir opts d = (InitReport n fs, d')"
    and opts: "\<not> ioDryRun opts" "\<not> ioCheck opts" "\<not> ioForce opts"
    and b: "ddConfig d = Inr b" "parseJson b = Some (JObj kvs)" "list_all (\<lambda>(k, v). plainText k) kvs"
    and det: "okDetected (detectStack env) (detectComplianceDocs env)"
  obtains cfg t kvs' where "decodeDashConfig b = Some cfg" "ddConfig d' = Inr t" "parseJson t = Some (JObj kvs')"
    "map_of kvs' ''checks'' = Some (checksJson (mergeChecks (dcChecks cfg) (uncovered (proposalsFor (detectStack env)) (dcChecks cfg))))"
    "\<And>k. k \<notin> set initKeys \<Longrightarrow> map_of kvs' k = map_of (rev kvs) k"
    "\<And>w. map_of (rev kvs) ''standards'' = Some w \<Longrightarrow> map_of kvs' ''standards'' = Some w"
proof -
  let ?st = "detectStack env" and ?docs = "detectComplianceDocs env"
  from run opts b(1) obtain raw cfg where start: "initStart opts (joinPaths [dir, ''config.json'']) (Inr b) = Inr (Some raw, cfg)"
    and cfg': "ddConfig d' = Inr (writeOrderedJSON (ieIsPrint env) (mergedRaw ?st ?docs cfg
        (mergeChecks (dcChecks cfg) (uncovered (proposalsFor ?st) (dcChecks cfg))) raw))"
    by (auto simp: runInit_def Let_def dest: writeBaseline_config split: sum.splits option.splits if_splits prod.splits)
  from start opts b(2) have v: "rawMembers (JObj kvs) = Some (Some raw)"
      "decodeStruct dashFields setDashField (JObj kvs) zeroDashConfig = Some cfg"
    by (auto simp: initStart_def split: option.splits)
  note okb = parseJson_okDoc [OF b(2)] parseJson_jdepth [OF b(2)]
  have raw: "okRaw raw" "\<And>k. mapGet raw k = map_of (rev kvs) k" "sortedMap raw"
    using rawMembers_obj [OF v(1) okb] by auto
  have okc: "okConfig cfg" by (rule decodeConfig_ok [OF okb(1) v(2)])
  let ?checks = "mergeChecks (dcChecks cfg) (uncovered (proposalsFor ?st) (dcChecks cfg))"
  let ?m = "mergedRaw ?st ?docs cfg ?checks raw"
  have cks: "list_all okCheck ?checks"
    using okc det by (intro okCheck_merge) (auto simp: okConfig_def okDetected_def uncovered_def list_all_iff)
  have good: "goodRaw raw" using raw by (simp add: goodRaw_def)
  have "plainText k" if "mapGet raw k = Some w" for k w
    using that b(3) raw(2) map_of_SomeD [of "rev kvs" k w] by (auto simp: list_all_iff)
  note plain = mergedRaw_plain [OF det okc good cks this] and facts = mergedRaw_facts [OF det okc good cks]
  have "orderedMembers ?m \<noteq> []" using facts(2) orderedMembers_lookup [of ?m "''checks''"] by auto
  then have "parseJson (writeOrderedJSON (ieIsPrint env) ?m) = Some (JObj (orderedMembers ?m))"
    using facts(1) plain by (intro parse_writeOrdered) (simp_all add: goodRaw_def)
  from that [OF _ cfg' this] show thesis
    using v(2) b(2) facts(2-4) raw(2) orderedMembers_lookup by (simp add: decodeDashConfig_def)
qed

end
