(* ===== verification/Dashboard_Main.thy ===== *)
theory Dashboard_Main
  imports Dashboard_Init
begin

text \<open>
  \<open>cmd/security-dashboard/main.go\<close>: the command line.  The state is the directory the arguments select (\<open>--dir\<close>);
  the clock, the tools, the project tree and the faults of the writes are the environment.  What the commands print
  to standard output is the list of lines of the result.
\<close>

record DashEnv =
  deTools :: ToolEnv
  deScan :: ScanInfo
  deInit :: InitEnv
  deNow :: int
  deToday :: string
  deGeneratedAt :: string
  dePage :: "view \<Rightarrow> string"
  deRunIO :: fileFault
  deRenderIO :: renderFaults
  deConfigIO :: fileFault
  deTasksIO :: fileFault

record DashResult =
  drExit :: int
  drError :: "goerror option"
  drOut :: "string list"

definition fatal :: "goerror \<Rightarrow> string list \<Rightarrow> DashResult" where
  "fatal e out = \<lparr>drExit = 1, drError = Some e, drOut = out\<rparr>"

section \<open>Arguments\<close>

record DashArgs =
  daDir :: string
  daTrigger :: string
  daOpts :: initOpts

definition splitCommand :: "string list \<Rightarrow> string \<times> string list" where
  "splitCommand args =
     (case args of
        a # rest \<Rightarrow> if a \<in> {''scan'', ''render'', ''bundle'', ''init'', ''task''} then (a, rest) else (''render'', args)
      | [] \<Rightarrow> (''render'', args))"

fun parseDashArgs :: "string list \<Rightarrow> DashArgs \<Rightarrow> DashArgs" where
  "parseDashArgs [] d = d"
| "parseDashArgs (a # rest) d =
     (if a = ''--dry-run'' then parseDashArgs rest (d\<lparr>daOpts := (daOpts d)\<lparr>ioDryRun := True\<rparr>\<rparr>)
      else if a = ''--check'' then parseDashArgs rest (d\<lparr>daOpts := (daOpts d)\<lparr>ioCheck := True\<rparr>\<rparr>)
      else if a = ''--force'' then parseDashArgs rest (d\<lparr>daOpts := (daOpts d)\<lparr>ioForce := True\<rparr>\<rparr>)
      else if a = ''--dir'' then (case rest of [] \<Rightarrow> d | x # rest' \<Rightarrow> parseDashArgs rest' (d\<lparr>daDir := x\<rparr>))
      else if a = ''--trigger'' then (case rest of [] \<Rightarrow> d | x # rest' \<Rightarrow> parseDashArgs rest' (d\<lparr>daTrigger := x\<rparr>))
      else parseDashArgs rest d)"

definition defaultArgs :: DashArgs where
  "defaultArgs = \<lparr>daDir = ''security'', daTrigger = ''manual'', daOpts = \<lparr>ioDryRun = False, ioCheck = False, ioForce = False\<rparr>\<rparr>"

section \<open>task\<close>

record TaskFlags =
  tfDate :: string
  tfOwner :: string
  tfNote :: string

fun parseTaskFlags :: "string list \<Rightarrow> TaskFlags \<Rightarrow> TaskFlags result" where
  "parseTaskFlags [] f = Inr f"
| "parseTaskFlags [flag] f = Inl (ErrMsg (flag @ '' needs a value''))"
| "parseTaskFlags (flag # v # rest) f =
     (if flag = ''--date'' then parseTaskFlags rest (f\<lparr>tfDate := v\<rparr>)
      else if flag = ''--owner'' then parseTaskFlags rest (f\<lparr>tfOwner := v\<rparr>)
      else if flag = ''--note'' then parseTaskFlags rest (f\<lparr>tfNote := v\<rparr>)
      else if flag = ''--dir'' then parseTaskFlags rest f
      else Inl (ErrFmt ''unknown flag %q'' [flag]))"

text \<open>The first argument, unless it is a flag.\<close>

definition takeWord :: "string list \<Rightarrow> string \<Rightarrow> string \<times> string list" where
  "takeWord args dflt = (case args of a # rest \<Rightarrow> if HasPrefix a ''-'' then (dflt, args) else (a, rest) | [] \<Rightarrow> (dflt, args))"

definition wroteLine :: "string \<Rightarrow> string" where
  "wroteLine dir = ''security-dashboard: wrote '' @ joinPaths [dir, ''dashboard.html'']"

definition renderDir :: "unicode \<Rightarrow> DashEnv \<Rightarrow> DashConfig \<Rightarrow> DashDir \<Rightarrow> goerror option \<times> DashDir" where
  "renderDir uc env cfg d = render uc (dePage env) (deRenderIO env) (deNow env) (deGeneratedAt env) cfg d"

text \<open>A row of the schedule is kept as its cells.\<close>

definition scheduleLines :: "string list list \<times> string \<Rightarrow> string list" where
  "scheduleLines s = map (\<lambda>row. Join row [CHR 0x09]) (fst s) @ [[], snd s]"

definition runTask :: "unicode \<Rightarrow> DashEnv \<Rightarrow> string \<Rightarrow> string list \<Rightarrow> DashDir \<Rightarrow> (goerror option \<times> string list) \<times> DashDir" where
  "runTask uc env dir args0 d =
     (let (sub, args1) = takeWord args0 ''list'' in
      if sub = ''list'' then ((None, scheduleLines (printTaskSchedule uc (ddTasks d) (deNow env))), d)
      else if sub \<noteq> ''done'' then ((Some (ErrFmt ''unknown task command %q (want: list, done)'' [sub]), []), d)
      else
        (let (ident, args) = takeWord args1 [] in
         if ident = []
         then ((Some (ErrMsg ''usage: task done <id> [--date YYYY-MM-DD] [--owner <name>] [--note <text>]''), []), d)
         else (case parseTaskFlags args \<lparr>tfDate = deToday env, tfOwner = [], tfNote = []\<rparr> of
             Inl e \<Rightarrow> ((Some e, []), d)
           | Inr f \<Rightarrow>
               (case markTaskDone uc (deTasksIO env) dir ident (tfDate f) (tfOwner f) (tfNote f) (ddTasks d) of
                  (Some e, c) \<Rightarrow> ((Some e, []), d\<lparr>ddTasks := c\<rparr>)
                | (None, c) \<Rightarrow>
                    (let d1 = d\<lparr>ddTasks := c\<rparr>;
                         out = [''security-dashboard: recorded '' @ ident @ '' as done on '' @ tfDate f]
                     in case loadDashConfig (ddConfig d1) of
                          Inl e \<Rightarrow> ((Some e, out), d1)
                        | Inr cfg \<Rightarrow>
                            (case renderDir uc env cfg d1 of
                               (Some e, d2) \<Rightarrow> ((Some e, out), d2)
                             | (None, d2) \<Rightarrow> ((None, out @ [wroteLine dir]), d2)))))))"

section \<open>scan and render\<close>

text \<open>\<open>%-28s\<close> counts runes, the bytes that do not continue one.\<close>

definition runeCount :: "string \<Rightarrow> nat" where
  "runeCount s = length (filter (\<lambda>c. \<not> (128 \<le> byteVal c \<and> byteVal c < 192)) s)"

definition progressLine :: "CheckResult \<Rightarrow> string" where
  "progressLine r =
     [CHR 0x20, CHR 0x20, CHR 0xC2, CHR 0xB7, CHR 0x20] @ ckKey r @ replicate (28 - runeCount (ckKey r)) CHR 0x20 @ '' '' @
     statusGlyph (resStatus r) @ (if resSummary r \<noteq> [] then '' '' @ emDash @ '' '' @ resSummary r else [])"

definition recordedLine :: "Run \<Rightarrow> string" where
  "recordedLine r =
     (let t = rnTotals r in
      ''security-dashboard: recorded run '' @ rnID r @ '' ('' @ Itoa (ttPass t) @ '' pass, '' @ Itoa (ttFail t) @ '' fail, '' @
      Itoa (ttWarn t) @ '' warn, '' @ Itoa (ttSkipped t) @ '' skipped)'')"

definition gatingLines :: "Run \<Rightarrow> string list" where
  "gatingLines r =
     (if 0 < ttGatingFail (rnTotals r) then
        map (\<lambda>c. ''security-dashboard: GATING FAILURE '' @ ckKey c @ '' ('' @ ckName c @ '') '' @ emDash @ '' '' @ resSummary c)
          (filter (\<lambda>c. ckGating c \<and> resStatus c = ''fail'') (rnChecks r))
      else [])"

definition scanDir :: "DashEnv \<Rightarrow> DashConfig \<Rightarrow> string \<Rightarrow> string \<Rightarrow> DashDir \<Rightarrow> (goerror option \<times> Run) \<times> DashDir" where
  "scanDir env cfg dir trigger d =
     (let (run, reports) = performScan (deTools env) (deScan env) cfg dir trigger;
          (e, files) = saveRun (deRunIO env) run (ddRuns d)
      in ((e, run), d\<lparr>ddReports := ddReports d @ reports, ddRuns := files\<rparr>))"

text \<open>Render, print the closing lines and turn gating failures into the exit status.\<close>

definition finish :: "unicode \<Rightarrow> DashEnv \<Rightarrow> string \<Rightarrow> DashConfig \<Rightarrow> int \<Rightarrow> string list \<Rightarrow> DashDir \<Rightarrow> DashResult \<times> DashDir" where
  "finish uc env dir cfg gatingFailures out d =
     (case renderDir uc env cfg d of
        (Some e, d1) \<Rightarrow> (fatal e out, d1)
      | (None, d1) \<Rightarrow>
          (\<lparr>drExit = (if 0 < gatingFailures then 1 else 0), drError = None,
            drOut = out @ [wroteLine dir, ''security-dashboard: manual tasks '' @ emDash @ '' '' @
              tsLine (summarizeTasks uc (loadTasks (ddTasks d1)) (deNow env))]\<rparr>, d1))"

definition dashMain :: "unicode \<Rightarrow> DashEnv \<Rightarrow> string list \<Rightarrow> DashDir \<Rightarrow> DashResult \<times> DashDir" where
  "dashMain uc env argv d =
     (let (cmd, args) = splitCommand argv; a = parseDashArgs args defaultArgs; dir = daDir a in
      if cmd = ''init'' then
        (case runInit uc (deInit env) (deConfigIO env) (deTasksIO env) dir (daOpts a) d of
           (InitError e, d1) \<Rightarrow> (fatal e [], d1)
         | (InitReport n fs, d1) \<Rightarrow> (\<lparr>drExit = n, drError = None, drOut = []\<rparr>, d1))
      else if cmd = ''task'' then
        (case runTask uc env dir args d of
           ((Some e, out), d1) \<Rightarrow> (fatal e out, d1)
         | ((None, out), d1) \<Rightarrow> (\<lparr>drExit = 0, drError = None, drOut = out\<rparr>, d1))
      else
        (case loadDashConfig (ddConfig d) of
           Inl e \<Rightarrow> (fatal e [], d)
         | Inr cfg \<Rightarrow>
             if cmd = ''bundle'' then
               (case buildBundle dir cfg (ddRuns d) of
                  Inl e \<Rightarrow> (fatal e [], d)
                | Inr b \<Rightarrow> (\<lparr>drExit = 0, drError = None, drOut = [b]\<rparr>, d))
             else if cmd = ''scan'' then
               (case scanDir env cfg dir (daTrigger a) d of
                  ((Some e, run), d1) \<Rightarrow> (fatal e (map progressLine (rnChecks run)), d1)
                | ((None, run), d1) \<Rightarrow>
                    finish uc env dir cfg (ttGatingFail (rnTotals run))
                      (map progressLine (rnChecks run) @ [recordedLine run] @ gatingLines run) d1)
             else finish uc env dir cfg 0 [] d))"

section \<open>What a scan records\<close>

lemma performScan_totals [simp]:
  "rnTotals (fst (performScan t i cfg dir tr)) = tally (rnChecks (fst (performScan t i cfg dir tr)))"
  by (simp add: performScan_def Let_def)

lemma performScan_checks:
  "rnChecks (fst (performScan t i cfg dir tr)) =
     map (\<lambda>d. fst (runCheck t d (joinPaths [dir, ''runs'', siRunID i]))) (filter (\<lambda>d. \<not> ckDisabled d) (dcChecks cfg))"
  by (simp add: performScan_def Let_def)

lemma gating_positive:
  "0 < ttGatingFail (tally cs) \<longleftrightarrow> (\<exists>c\<in>set cs. (resStatus c = ''fail'' \<or> resStatus c = ''error'') \<and> ckGating c)"
  unfolding tally_counts count_pos by auto

lemma loadRuns_after_render: "renderDir uc env cfg d = (e, d') \<Longrightarrow> ddRuns d' = ddRuns d"
  by (auto simp: renderDir_def render_def writeBadge_def Let_def split: prod.splits option.splits)

end
