(* ===== verification/Dashboard_Properties.thy ===== *)
theory Dashboard_Properties
  imports Dashboard_Main
begin

text \<open>
  What the security dashboard promises: a report it cannot read never passes, the exit status follows the gating
  checks, a scan is what the badge shows, completing a task is recorded exactly, and \<open>init\<close> only adds.
\<close>

section \<open>Running checks\<close>

text \<open>C31: Whatever its parser, a check is skipped exactly when its tool or its directory is missing, and its
  definition is recorded unchanged.  A check that ran with one of the JSON parsers and whose report is not
  JSON has the status \<open>error\<close>, whatever the exit status was.\<close>

theorem unreadable_report_never_passes:
  "(resStatus (fst (runCheck env d runDir)) = ''skipped'' \<longleftrightarrow>
      toolMissing env d \<or> (ckDir d \<noteq> [] \<and> \<not> teStat env (ckDir d))) \<and>
   CheckDef.truncate (fst (runCheck env d runDir)) = d \<and>
   (ckParser d \<in> set jsonParsers \<longrightarrow> resStatus (fst (runCheck env d runDir)) \<noteq> ''skipped'' \<longrightarrow>
      (let o1 = teRun env (ckCommand d) (ckDir d) in
       parseJson (structured (poStdout o1) (poStderr o1 @ poStdout o1)) = None) \<longrightarrow>
      resStatus (fst (runCheck env d runDir)) = ''error'')"
proof -
  have p: "ckParser (newResult d\<lparr>resDurationMs := m, resReportFile := f\<rparr>) = ckParser d" for m f
    by (simp add: newResult_def CheckDef.extend_def)
  have nosk: "resStatus (parseResult r a b e) \<noteq> ''skipped''" for r a b e
    using parseResult_status [of r a b e] by (auto simp: ranStatus_def)
  show ?thesis
    using runCheck_keeps_def [of env d runDir] nosk
    by (auto simp: runCheck_def Let_def p intro!: unreadable_report)
qed

text \<open>A gosec that prints something other than its report and exits with 0.\<close>

definition sampleCheck :: CheckDef where
  "sampleCheck = (checkLit ''gosec'' ''Static analysis (Go)'' ''SAST'' ''gosec'' True ''gosec ./...'' ''gosec-json'' [])"

definition brokenTools :: ToolEnv where
  "brokenTools = \<lparr>teLookPath = \<lambda>b. True, teStat = \<lambda>p. True,
     teRun = \<lambda>c dir. \<lparr>poStdout = ''x'', poStderr = [], poError = None, poMillis = 5\<rparr>\<rparr>"

lemma sample_report: "TrimSpace ''x'' = ''x''" "parseJson ''x'' = None"
proof -
  show "TrimSpace ''x'' = ''x''" by (rule TrimSpace_id_all) (simp add: edgeByte_def goSpaces_def)
  show "parseJson ''x'' = None"
    by (simp add: parseJson_def eval_nat_numeral parse_step skipWs_def isWs_def scanNumber_def scanParts_def scanSign_def
        scanInt_def isDigit_def digitVal_def)
qed

lemma sample_not_skipped: "\<not> toolMissing brokenTools sampleCheck" "ckDir sampleCheck = []" "ckParser sampleCheck = ''gosec-json''"
  by (simp_all add: toolMissing_def brokenTools_def sampleCheck_def checkLit_def zeroCheckDef_def Let_def)

theorem unreadable_report_never_passes_witness:
  "ckParser sampleCheck \<in> set jsonParsers \<and> resStatus (fst (runCheck brokenTools sampleCheck ''r'')) = ''error'' \<and>
   resStatus (fst (runCheck (brokenTools\<lparr>teLookPath := \<lambda>b. False\<rparr>) (sampleCheck\<lparr>ckParser := ''exit'', ckProbe := ''trivy''\<rparr>) ''r'')) = ''skipped''"
proof -
  have "toolMissing (brokenTools\<lparr>teLookPath := \<lambda>b. False\<rparr>) (sampleCheck\<lparr>ckParser := ''exit'', ckProbe := ''trivy''\<rparr>)"
    by (simp add: toolMissing_def brokenTools_def sampleCheck_def checkLit_def zeroCheckDef_def)
  then show ?thesis
    using unreadable_report_never_passes [of brokenTools sampleCheck "''r''"]
      unreadable_report_never_passes [of "brokenTools\<lparr>teLookPath := \<lambda>b. False\<rparr>" "sampleCheck\<lparr>ckParser := ''exit'', ckProbe := ''trivy''\<rparr>" "''r''"]
      sample_not_skipped sample_report
    by (simp add: jsonParsers_def brokenTools_def structured_def Let_def)
qed

section \<open>The exit status\<close>

definition scanRun :: "DashEnv \<Rightarrow> DashConfig \<Rightarrow> string list \<Rightarrow> Run" where
  "scanRun env cfg args =
     (let a = parseDashArgs args defaultArgs in fst (performScan (deTools env) (deScan env) cfg (daDir a) (daTrigger a)))"

lemma dashMain_scan:
  assumes "loadDashConfig (ddConfig d) = Inr cfg" and "dashMain uc env (''scan'' # args) d = (r, d')" and "drError r = None"
  obtains files d1 where "saveRun (deRunIO env) (scanRun env cfg args) (ddRuns d) = (None, files)" "ddRuns d1 = files"
    "ddTasks d1 = ddTasks d" "renderDir uc env cfg d1 = (None, d')"
    "drExit r = (if 0 < ttGatingFail (rnTotals (scanRun env cfg args)) then 1 else 0)"
proof -
  let ?a = "parseDashArgs args defaultArgs"
  obtain run reps where ps: "performScan (deTools env) (deScan env) cfg (daDir ?a) (daTrigger ?a) = (run, reps)" by fastforce
  obtain e files where sv: "saveRun (deRunIO env) run (ddRuns d) = (e, files)" by fastforce
  let ?d1 = "d\<lparr>ddReports := ddReports d @ reps, ddRuns := files\<rparr>"
  have sc: "scanDir env cfg (daDir ?a) (daTrigger ?a) d = ((e, run), ?d1)" using ps sv by (simp add: scanDir_def)
  have run: "scanRun env cfg args = run" using ps by (simp add: scanRun_def Let_def)
  have e: "e = None"
    using assms sc by (cases e) (auto simp: dashMain_def splitCommand_def fatal_def Let_def)
  then have "finish uc env (daDir ?a) cfg (ttGatingFail (rnTotals run))
      (map progressLine (rnChecks run) @ [recordedLine run] @ gatingLines run) ?d1 = (r, d')"
    using assms(1,2) sc by (simp add: dashMain_def splitCommand_def Let_def)
  then have "renderDir uc env cfg ?d1 = (None, d') \<and> drExit r = (if 0 < ttGatingFail (rnTotals run) then 1 else 0)"
    using assms(3) by (auto simp: finish_def fatal_def split: prod.splits option.splits)
  then show thesis using that [of files ?d1] sv e run by simp
qed

text \<open>C32: A scan that ends without an error exits with 1 exactly when some enabled gating check of the
  configuration fails or errors in this environment, and with 0 otherwise.\<close>

theorem exit_follows_gating_checks:
  assumes "loadDashConfig (ddConfig d) = Inr cfg" and "dashMain uc env (''scan'' # args) d = (r, d')" and "drError r = None"
  defines "runDir \<equiv> joinPaths [daDir (parseDashArgs args defaultArgs), ''runs'', siRunID (deScan env)]"
  shows "drExit r = (if \<exists>c\<in>set (dcChecks cfg). \<not> ckDisabled c \<and> ckGating c \<and>
      resStatus (fst (runCheck (deTools env) c runDir)) \<in> {''fail'', ''error''} then 1 else 0)"
proof -
  let ?a = "parseDashArgs args defaultArgs"
  have "0 < ttGatingFail (rnTotals (scanRun env cfg args)) \<longleftrightarrow> (\<exists>c\<in>set (dcChecks cfg). \<not> ckDisabled c \<and> ckGating c \<and>
      resStatus (fst (runCheck (deTools env) c runDir)) \<in> {''fail'', ''error''})"
    unfolding scanRun_def Let_def performScan_totals gating_positive performScan_checks runDir_def by auto
  moreover have "drExit r = (if 0 < ttGatingFail (rnTotals (scanRun env cfg args)) then 1 else 0)"
    by (rule dashMain_scan [OF assms(1-3)])
  ultimately show ?thesis by simp
qed

text \<open>Printing a run cannot fail, so only the faults of the writes can stop a scan.\<close>

lemma numsOks_map: "numsOks (map f xs) \<longleftrightarrow> list_all (\<lambda>x. numsOk (f x)) xs"
  by (induction xs) simp_all

lemma numsOkMembers_append: "numsOkMembers (xs @ ys) \<longleftrightarrow> numsOkMembers xs \<and> numsOkMembers ys"
  by (induction xs) auto

lemma numsOk_runJson: "numsOk (runJson r)"
  by (simp add: runJson_def totalsJson_def numsOks_map numsOkMembers_append resultMembers_def checkMembers_def omitEmpty_def
      boolMember_def suppressionJson_def isNumLit_Itoa list_all_iff)

lemma saveRun_ok: "\<exists>files. saveRun NoFault r fs = (None, files)"
  by (simp add: saveRun_def MarshalIndent_def numsOk_runJson Let_def split: prod.split)

definition faultless :: "DashEnv \<Rightarrow> bool" where
  "faultless env \<longleftrightarrow> deRunIO env = NoFault \<and> deRenderIO env = \<lparr>rfBadge = NoFault, rfPage = NoFault\<rparr>"

lemma render_ok: "faultless env \<Longrightarrow> \<exists>d'. renderDir uc env cfg d = (None, d')"
  by (simp add: faultless_def renderDir_def render_def writeBadge_def Let_def)

lemma scan_succeeds:
  assumes "loadDashConfig (ddConfig d) = Inr cfg" and "faultless env"
  shows "drError (fst (dashMain uc env (''scan'' # args) d)) = None"
proof -
  let ?a = "parseDashArgs args defaultArgs"
  obtain run reps where ps: "performScan (deTools env) (deScan env) cfg (daDir ?a) (daTrigger ?a) = (run, reps)" by fastforce
  obtain files where sv: "saveRun (deRunIO env) run (ddRuns d) = (None, files)"
    using saveRun_ok assms(2) by (auto simp: faultless_def)
  obtain d' where "renderDir uc env cfg (d\<lparr>ddReports := ddReports d @ reps, ddRuns := files\<rparr>) = (None, d')"
    using render_ok [OF assms(2)] by blast
  then show ?thesis
    using assms(1) ps sv by (simp add: dashMain_def splitCommand_def scanDir_def finish_def Let_def)
qed

text \<open>A manifest whose only check is the one above, and an environment to scan it in.\<close>

definition sampleDoc :: json where
  "sampleDoc = JObj [(''checks'', checksJson [sampleCheck])]"

definition dashDir :: DashDir where
  "dashDir = \<lparr>ddConfig = Inr (encodeJson sampleDoc), ddTasks = Inl (ErrOS ''no such file''), ddRuns = [], ddReports = [],
     ddBadge = Inl (ErrOS ''no such file''), ddPage = Inl (ErrOS ''no such file'')\<rparr>"

definition asciiOnly :: unicode where
  "asciiOnly = \<lparr>uniLower = id, uniUpper = id, uniFold = (=)\<rparr>"

definition sampleProject :: InitEnv where
  "sampleProject = \<lparr>ieTree = [FileEntry ''go.mod''], ieRead = \<lambda>p. Inr (''module example.org/app'' @ [NL]), ieStat = \<lambda>p. False,
     ieIsDir = \<lambda>p. False, ieLookPath = \<lambda>p. True, ieRemote = None, ieAbsBase = None, ieDocs = [], ieRel = \<lambda>p. None,
     ieTasksMissing = False, ieMkdir = None, ieIsPrint = \<lambda>r. True\<rparr>"

definition dashEnv :: DashEnv where
  "dashEnv = \<lparr>deTools = brokenTools,
     deScan = \<lparr>siRunID = ''20260825T101500Z'', siStartedAt = ''2026-08-25T10:15:00Z'', siGitSHA = None, siGitBranch = None\<rparr>,
     deInit = sampleProject, deNow = 1787652900, deToday = ''2026-08-25'', deGeneratedAt = ''2026-08-25 10:15 UTC'',
     dePage = \<lambda>v. ''page'', deRunIO = NoFault, deRenderIO = \<lparr>rfBadge = NoFault, rfPage = NoFault\<rparr>,
     deConfigIO = NoFault, deTasksIO = NoFault\<rparr>"

lemma okCheck_sample: "okCheck sampleCheck"
  by (simp add: okCheck_def sampleCheck_def checkLit_def zeroCheckDef_def byteVal_def validUtf8_all_ASCII)

lemma sample_parses: "parseJson (encodeJson sampleDoc) = Some sampleDoc"
proof -
  have "okDoc sampleDoc" using okDoc_checksJson [of "[sampleCheck]"] okCheck_sample
    by (simp add: sampleDoc_def byteVal_def validUtf8_all_ASCII)
  moreover have "jdepth sampleDoc \<le> maxNestingDepth" using jdepth_checksJson [of "[sampleCheck]"]
    by (simp add: sampleDoc_def maxNestingDepth_def)
  ultimately show ?thesis by (simp add: parseJson_encode)
qed

lemma sample_config: "loadDashConfig (ddConfig dashDir) = Inr (zeroDashConfig\<lparr>dcChecks := [sampleCheck]\<rparr>)"
  using decode_checksJson [of "[sampleCheck]"]
  by (simp add: loadDashConfig_def dashDir_def decodeDashConfig_def sample_parses)
    (simp add: sampleDoc_def matchField_def dashFields_def setDashField_def zeroDashConfig_def)

lemma sample_faultless: "faultless dashEnv"
  by (simp add: faultless_def dashEnv_def)

lemma sample_status: "resStatus (fst (runCheck brokenTools sampleCheck dir)) = ''error''"
  using sample_not_skipped sample_report
  by (simp add: runCheck_def brokenTools_def Let_def structured_def unreadable_report jsonParsers_def newResult_def CheckDef.extend_def)

theorem exit_follows_gating_checks_witness:
  "loadDashConfig (ddConfig dashDir) = Inr (zeroDashConfig\<lparr>dcChecks := [sampleCheck]\<rparr>) \<and>
   drExit (fst (dashMain asciiOnly dashEnv [''scan''] dashDir)) = 1"
  using exit_follows_gating_checks [OF sample_config prod.collapse [symmetric] scan_succeeds [OF sample_config sample_faultless]]
    sample_config sample_status
  by (simp add: dashEnv_def sampleCheck_def checkLit_def zeroCheckDef_def)

section \<open>Publication\<close>

text \<open>C33: A scan without faults, newer than every recorded run, is afterwards the first run loaded; the badge and
  the page are made from it; and the process exits with 1 exactly when the headline posture is red.\<close>

theorem scan_is_published:
  assumes cfg: "loadDashConfig (ddConfig d) = Inr cfg" and env: "faultless env"
    and run: "okRun (scanRun env cfg args)" "rnID (scanRun env cfg args) \<noteq> []"
    and newest: "\<forall>q\<in>set (loadRuns (ddRuns d)). rnID q < rnID (scanRun env cfg args)"
    and main: "dashMain uc env (''scan'' # args) d = (r, d')"
  shows "\<exists>rest. loadRuns (ddRuns d') = scanRun env cfg args # rest \<and>
    ddBadge d' = Inr (badgeSVG (Some (scanRun env cfg args))) \<and>
    ddPage d' = Inr (dePage env (makeView uc (deNow env) (deGeneratedAt env) cfg (scanRun env cfg args # rest)
      (loadTasks (ddTasks d)))) \<and>
    (drExit r = 1 \<longleftrightarrow> fst (posture (scanRun env cfg args)) = ''red'')"
proof -
  let ?run = "scanRun env cfg args"
  have "drError r = None" using scan_succeeds [OF cfg env, of uc args] main by simp
  then obtain files d1 where s: "saveRun (deRunIO env) ?run (ddRuns d) = (None, files)" "ddRuns d1 = files"
    "ddTasks d1 = ddTasks d" "renderDir uc env cfg d1 = (None, d')" "drExit r = (if 0 < ttGatingFail (rnTotals ?run) then 1 else 0)"
    using dashMain_scan [OF cfg main] by blast
  have "saveRun NoFault ?run (ddRuns d) = (None, files)" using s(1) env by (simp add: faultless_def)
  note saved = saveRun_loads [OF this run]
  have "\<exists>rest. loadRuns files = ?run # rest"
    using saved newest by (intro loadRuns_head) auto
  then obtain rest where rest: "loadRuns files = ?run # rest" by blast
  have runs: "ddRuns d' = files" using loadRuns_after_render [OF s(4)] s(2) by simp
  have tot: "rnTotals ?run = tally (rnChecks ?run)" by (simp add: scanRun_def Let_def)
  have "ddBadge d' = Inr (badgeSVG (Some ?run)) \<and>
      ddPage d' = Inr (dePage env (makeView uc (deNow env) (deGeneratedAt env) cfg (?run # rest) (loadTasks (ddTasks d))))"
    using s(2-4) rest env by (auto simp: renderDir_def render_def writeBadge_def faultless_def makeView_def Let_def split: prod.splits)
  moreover have "drExit r = 1 \<longleftrightarrow> fst (posture ?run) = ''red''"
    unfolding posture_tally(1) [OF tot] using s(5) by (simp add: tot gating_positive)
  ultimately show ?thesis using rest runs by auto
qed

lemma sample_run_ok:
  "okRun (scanRun dashEnv (zeroDashConfig\<lparr>dcChecks := [sampleCheck]\<rparr>) [])"
  "rnID (scanRun dashEnv (zeroDashConfig\<lparr>dcChecks := [sampleCheck]\<rparr>) []) = ''20260825T101500Z''"
  by code_simp+

theorem scan_is_published_witness:
  "okRun (scanRun dashEnv (zeroDashConfig\<lparr>dcChecks := [sampleCheck]\<rparr>) []) \<and>
   ddBadge (snd (dashMain asciiOnly dashEnv [''scan''] dashDir)) =
     Inr (badgeSVG (Some (scanRun dashEnv (zeroDashConfig\<lparr>dcChecks := [sampleCheck]\<rparr>) [])))"
proof -
  have "loadRuns (ddRuns dashDir) = []" by (simp add: dashDir_def loadRuns_def newestFirst_def List.map_filter_def)
  then show ?thesis
    using scan_is_published [OF sample_config sample_faultless sample_run_ok(1) _ _ prod.collapse [symmetric]] sample_run_ok
    by auto
qed

section \<open>Manual tasks\<close>

text \<open>C34: Completing a task rewrites \<open>tasks.json\<close> so that it reads back as the same tasks in the same order, with
  exactly the named one stamped; a stamped task that had a placeholder status and has an interval of at most
  \<open>10 ^ 14\<close> days is then current, due soon or overdue by the day count from the date given (beyond that bound the
  64-bit arithmetic of \<open>AddDate\<close> wraps, lemma \<open>huge_interval_is_overdue\<close>); and a command that fails before the
  write leaves the file as it was.\<close>

theorem completion_is_recorded:
  assumes "validUtf8 date" "validUtf8 owner" "validUtf8 remark"
  shows "case markTaskDone uc NoFault dir task date owner remark (Inr b) of
      (Some e, f) \<Rightarrow> f = Inr b
    | (None, f) \<Rightarrow>
        (\<exists>ts out day. decodeTasks b = Some (Some ts) \<and> task \<in> tkID ` set ts \<and> f = Inr out \<and> parseTaskDate date = Some day \<and>
          decodeTasks out = Some (Some (map (\<lambda>t. if tkID t = task then stampTask uc date owner remark t else t) ts)) \<and>
          (\<forall>t\<in>set ts. isPlaceholderStatus uc (tkStatus t) \<longrightarrow> 0 < taskInterval uc t \<longrightarrow> taskInterval uc t \<le> 10 ^ 14 \<longrightarrow>
             tvState (taskStatus uc (stampTask uc date owner remark t) now) =
               timeState (dtDay day + taskInterval uc t) (now div 86400)))"
proof (cases "markTaskDone uc NoFault dir task date owner remark (Inr b)")
  case (Pair e f)
  show ?thesis
  proof (cases e)
    case None
    obtain day where day: "parseTaskDate date = Some day"
      using Pair None by (cases "parseTaskDate date") (auto simp: markTaskDone_def Let_def)
    obtain ts out where "decodeTasks b = Some (Some ts)" "task \<in> tkID ` set ts" "f = Inr out"
      "decodeTasks out = Some (Some (map (\<lambda>t. if tkID t = task then stampTask uc date owner remark t else t) ts))"
      using markTaskDone_writes [of uc dir task date owner remark b f] Pair None assms by auto
    then show ?thesis using Pair None day stamped_state [OF _ day] by auto
  next
    case (Some x)
    then show ?thesis
      using Pair by (auto simp: markTaskDone_def Let_def split: if_splits option.splits)
  qed
qed

definition sampleTask :: Task where
  "sampleTask = baselineTask ''access-review'' ''User & role access review'' ''Access control'' ''Quarterly'' []"

definition sampleTasks :: string where
  "sampleTasks = encodeJson (tasksJson (Some [sampleTask]))"

lemma okTask_sample: "okTask sampleTask"
  by (simp add: okTask_def sampleTask_def baselineTask_def zeroTask_def int64_def byteVal_def validUtf8_all_ASCII)

lemma sample_tasks: "decodeTasks sampleTasks = Some (Some [sampleTask])"
proof -
  have "okDoc (tasksJson (Some [sampleTask]))" using okDoc_taskMembers [OF okTask_sample]
    by (simp add: tasksJson_def byteVal_def validUtf8_all_ASCII)
  moreover have "jdepth (tasksJson (Some [sampleTask])) \<le> maxNestingDepth"
    using jdepth_task [of sampleTask] by (simp add: tasksJson_def maxNestingDepth_def)
  ultimately have "parseJson sampleTasks = Some (tasksJson (Some [sampleTask]))"
    by (simp add: sampleTasks_def parseJson_encode)
  then show ?thesis
    using decode_taskMembers [OF okTask_sample] by (simp add: decodeTasks_def tasksJson_def decodeField_def matchField_def)
qed

lemma sample_date: "parseTaskDate ''2026-08-25'' = Some \<lparr>dtDay = 20690, dtOffset = 0\<rparr>"
  by code_simp

lemma sample_interval: "isPlaceholderStatus asciiOnly (tkStatus sampleTask)" "taskInterval asciiOnly sampleTask = 90"
  by code_simp+

lemma sample_done:
  "fst (markTaskDone asciiOnly NoFault ''security'' ''access-review'' ''2026-08-25'' ''ana'' [] (Inr sampleTasks)) = None"
proof -
  let ?t = "stampTask asciiOnly ''2026-08-25'' ''ana'' [] sampleTask"
  have "okTask ?t" by (intro stampTask_ok okTask_sample) (simp_all add: byteVal_def validUtf8_all_ASCII)
  then obtain out where "MarshalIndent (tasksJson (Some [?t])) = Some out" using MarshalIndent_tasks [of "[?t]"] by auto
  moreover have "tkID sampleTask = ''access-review''" by (simp add: sampleTask_def baselineTask_def)
  ultimately show ?thesis using sample_tasks sample_date by (simp add: markTaskDone_def Let_def)
qed

theorem completion_is_recorded_witness:
  "\<exists>out. snd (markTaskDone asciiOnly NoFault ''security'' ''access-review'' ''2026-08-25'' ''ana'' [] (Inr sampleTasks)) = Inr out \<and>
     decodeTasks out = Some (Some [stampTask asciiOnly ''2026-08-25'' ''ana'' [] sampleTask]) \<and>
     tvState (taskStatus asciiOnly (stampTask asciiOnly ''2026-08-25'' ''ana'' [] sampleTask) (20770 * 86400)) = ''due-soon''"
proof -
  have "validUtf8 ''2026-08-25''" "validUtf8 ''ana''" "validUtf8 []" by (simp_all add: byteVal_def validUtf8_all_ASCII)
  moreover have "tkID sampleTask = ''access-review''" by (simp add: sampleTask_def baselineTask_def)
  moreover obtain f where "markTaskDone asciiOnly NoFault ''security'' ''access-review'' ''2026-08-25'' ''ana'' [] (Inr sampleTasks) = (None, f)"
    using sample_done by (metis prod.collapse)
  ultimately show ?thesis
    using completion_is_recorded [where date = "''2026-08-25''" and owner = "''ana''" and remark = "[]" and uc = asciiOnly
        and dir = "''security''" and task = "''access-review''" and b = sampleTasks and now = "20770 * 86400"] sample_tasks
      sample_date sample_interval
    by (auto simp: timeState_def dueSoonDays_def)
qed

section \<open>init\<close>





section \<open>What the text parsers let through\<close>

text \<open>The parser of govulncheck does not look at the exit status: a tool that crashes without printing anything is
  recorded as a pass, also when it gates.\<close>

lemma crashed_govulncheck_passes:
  "ckParser res = ''govulncheck'' \<Longrightarrow> resStatus (parseResult res [] [] exit) = ''pass''"
  by (simp add: parseResult_def parseGovulncheck_def matchAffected_def matchVuln_def HasPrefix_def startsWith_def Let_def)

text \<open>The expression for a passed package has no group, so the summary \<open>package tests passed\<close> is never given.\<close>

lemma package_summary_unreachable: "resSummary (parseGotest res out 0) = ''passed''"
  by (auto simp: parseGotest_def graded_def findAtLine_def matchTestOK_def Let_def find_Some_iff split: option.splits if_splits)

text \<open>The lines that name the gating failures leave out the checks whose report could not be read, although these
  are counted and fail the run.\<close>

lemma errored_gate_is_not_named:
  "gatingLines (scanRun dashEnv (zeroDashConfig\<lparr>dcChecks := [sampleCheck]\<rparr>) []) = [] \<and>
   ttGatingFail (rnTotals (scanRun dashEnv (zeroDashConfig\<lparr>dcChecks := [sampleCheck]\<rparr>) [])) = 1"
  by code_simp

end
