(* ===== verification/Spec2Isabelle.thy ===== *)
theory Spec2Isabelle
  imports Server_HttpProperties Server_CliProperties Client_Properties Forwarder_EndToEnd Dashboard_Properties
begin

text \<open>
  A verification development for the audit-logging service: an append-only, hash-chained log behind an
  HTTP API (\<open>cmd/server\<close>), a Go client library with an example producer (\<open>clients/go-lib\<close>,
  \<open>clients/go-producer\<close>), a forwarder that tails a log file into the service (\<open>cmd/log-forwarder\<close>) and
  a security dashboard generator (\<open>cmd/security-dashboard\<close>).

  \<^bold>\<open>How the parts interact.\<close>  A client sends a record with a bearer token.  The router authenticates the
  token against the client registry in PostgreSQL, stamps the record with the caller's id and appends
  it to the store, a file of JSON lines or a PostgreSQL table.  Each entry carries the hash of its
  payload and a hash over its index, timestamp, payload hash and the previous entry's hash; \<open>Verify\<close>
  recomputes the chain.  Readers page through the log with cursors; a reader that is not an admin sees
  its own entries only.  The forwarder reads lines, parses them, sends them with the client library,
  writes what it cannot deliver to a dead-letter file and saves its position after every line.

  \<^bold>\<open>The language and its library\<close> (theories \<open>Go_*\<close>).  Strings are byte lists.  \<open>Go_Strings\<close>: package
  \<open>strings\<close>, \<open>strconv\<close> and the line scanner; \<open>Go_Utf8\<close>, \<open>Go_Float\<close>, \<open>Go_Json\<close>, \<open>Go_JsonDoc\<close>,
  \<open>Go_JsonRound\<close>, \<open>Go_JsonIndent\<close>: \<open>encoding/json\<close> (printing, parsing, field matching, the nesting limit)
  with its round trips; \<open>Go_JsonCut\<close>: a document that was cut anywhere and continued with another one never
  parses; \<open>Go_Quote\<close>: the verb \<open>%q\<close>; \<open>Go_Encoding\<close>: hex and base64; \<open>Go_Sha256\<close>: SHA-256 on words; \<open>Go_Flag\<close>,
  \<open>Go_Http\<close>: command-line flags and the client side of HTTP.  Case mapping outside ASCII is the parameter
  \<open>unicode\<close>.  \<open>parseVal\<close> runs on fuel; twice the length of its input plus two always suffices for a
  printed document (\<open>need_bound\<close>), and every value the parser returns was read within it.

  \<^bold>\<open>The server\<close> (theories \<open>Server_*\<close>).  \<open>Server_Model\<close>: \<open>LogRecord\<close>, \<open>Entry\<close>, queries and their JSON
  (\<open>main.go\<close>); \<open>Server_Query\<close>: limits and cursors (\<open>query.go\<close>); \<open>Server_Chain\<close>: the entry \<open>Append\<close> builds,
  the comparisons of \<open>Verify\<close>, and the locale \<open>hash_chain\<close>, in which equal heads force equal logs or a
  hash collision; \<open>Server_Store\<close>: the \<open>Store\<close> interface as the locale \<open>log_store\<close> with \<open>querySpec\<close> as the
  abstract query; \<open>Server_FileStore\<close> and \<open>Server_PostgresStore\<close>: the two backends, both instances of it.
  \<open>Server_Sql\<close>: what a statement text means, from its bytes over tokens and clauses to the rows it selects.  The
  PostgreSQL backend assembles texts with \<open>$n\<close> placeholders as the code does, and the locale \<open>entries_db\<close> assumes
  of a working database that it answers such a text as it reads, with JSON field access and \<open>ILIKE\<close> left open;
  a text outside this fragment has no assumed meaning.
  \<open>Server_Auth\<close>, \<open>Server_ClientStore\<close>: tokens and the registry over \<open>clients_db\<close>, what its statements mean
  (\<open>auth.go\<close>, \<open>clientstore_postgres.go\<close>); \<open>Server_Config\<close>, \<open>Server_Router\<close>, \<open>Server_System\<close>: \<open>loadConfig\<close>,
  the handlers and the server put together (\<open>router.go\<close>); \<open>Server_CLI\<close>: the \<open>audit clients\<close> commands and
  \<open>main\<close> up to the listener (\<open>clients_cli.go\<close>).  A database is a record with one function per statement the
  code sends, every call may fail, and the locales state the documented meaning of the statements; a
  table semantics is an instance of each.  The clock, random bytes and the outcome of each system call
  are arguments.

  \<^bold>\<open>The clients\<close>.  \<open>Client_Lib\<close>: \<open>WriteLog\<close> with its retry loop, as a function that also returns the list
  of its effects; durations are 64-bit nanoseconds with wrap-around.  \<open>Client_Properties\<close> composes it with
  the router and the file store.

  \<^bold>\<open>The forwarder\<close> (theories \<open>Forwarder_*\<close>).  \<open>Forwarder_Config\<close>, \<open>Forwarder_Parser\<close>,
  \<open>Forwarder_Checkpoint\<close>, \<open>Forwarder_Follower\<close>, \<open>Forwarder_Delivery\<close> and \<open>Forwarder_Main\<close> follow the files of
  \<open>cmd/log-forwarder\<close>; \<open>lineEvents\<close> is the abstract meaning of a file's bytes, \<open>saveState\<close> the states a
  process can leave on disk while it saves its checkpoint.  \<open>Forwarder_EndToEnd\<close> puts follower, handler,
  client, router and file store together: \<open>lineRecord\<close> is the record a line stands for.

  \<^bold>\<open>The security dashboard\<close> (theories \<open>Dashboard_*\<close>).  \<open>Dashboard_Model\<close>: the structs and the tally;
  \<open>Dashboard_Checks\<close>: \<open>parseResult\<close> with every report format, \<open>runCheck\<close> and \<open>performScan\<close> over what the
  system answers (\<open>checks.go\<close>); \<open>Dashboard_Tasks\<close>: due dates, \<open>tasks.json\<close> and recording a completion
  (\<open>tasks.go\<close>); \<open>Dashboard_Manifest\<close>: \<open>config.json\<close>, the recorded runs and the health bundle; \<open>Dashboard_Render\<close>:
  the view of the page and the badge file (\<open>render.go\<close>, \<open>badge.go\<close>); \<open>Dashboard_Init\<close>: detection, proposals, audit
  and the merged manifest (\<open>init.go\<close>); \<open>Dashboard_Main\<close>: the commands and the exit status (\<open>main.go\<close>).  They
  rest on \<open>Go_Time\<close> (calendar, \<open>time.Parse\<close> and \<open>Format\<close>), \<open>Go_ParseFloat\<close> and \<open>Go_JsonNested\<close> (what
  \<open>MarshalIndent\<close> prints parses back, for nested documents).  The regular expressions of the reports are
  matchers written out by hand.  The process has a time zone of fixed offset.  A \<open>Time\<close> is a 64-bit
  count of seconds, so a due date wraps around as in the code (with the epoch of Go 1.24 and later), and the
  theorem on due dates bounds the interval.  Runs with equal ids keep the order of their files, for which
  \<open>sort.Slice\<close> promises none.  \<open>init\<close> prints the member names of \<open>config.json\<close> with \<open>%q\<close> and treats their values as the
  documents they hold, so the spelling of string escapes in a value is not part of the model, nor are the
  progress messages.

  \<^bold>\<open>What is shown\<close> (theories \<open>*Properties\<close>).  The chain: appends extend a verifying log, a valid verdict
  means a chain, the head commits to everything, reopening restores the store, a failed append changes
  nothing in memory.  Queries: both backends return the page of the abstract log, paging is complete,
  limits and cursors are bounded, the SQL text never depends on a caller's value and its placeholders pick up
  the right ones.  Access: tokens round
  trip, only current secrets of live clients are admitted, revocation is for ever, refusals look alike,
  writes are attributed and reads are scoped.  Startup and command line: the server listens on verified
  logs only, exit codes tell what happened.  Clients: retries are bounded, a written record becomes the
  next entry.  Forwarder: every line is handed over and accounted for, checkpoints are atomic, a restart
  resumes, lines whose records the server accepts become entries of its log.  Dashboard: a structured report
  that does not parse never passes, the exit status follows the gating checks, a scan is what the files publish,
  a recorded completion is read back, \<open>init\<close> only adds.  Three properties show how an accepted write, or one that
  failed part way, leaves a log that no longer verifies.

  \<^bold>\<open>Not modelled.\<close>  The HTTP server and mux of \<open>net/http\<close> below the handlers (path cleaning, timeouts,
  connections), TLS, log output, \<open>net/url\<close>, \<open>regexp\<close> and the PostgreSQL server, which are parameters;
  concurrency is left out where a mutex or an advisory lock makes the operations one after the other.
  Assumed and not modelled: a statement of the registry that returned an error changed nothing (a connection
  lost after the commit is not covered); the \<open>--dir\<close> of the dashboard has no metacharacters of \<open>filepath.Glob\<close>; the
  headers of a client are visited in one order by all attempts; a page's capacity fits into memory.
  The HTML template of the dashboard (\<open>template.go\<close>) is one string interpreted by \<open>html/template\<close>; the page is a
  parameter that receives the view, and \<open>Run.When\<close>, which only the template calls, belongs to it.
  The Node client and producer are JavaScript twins of the Go ones.
\<close>

end
